(* ===== verification/Sim_Prelude.thy ===== *)
theory Sim_Prelude
  imports Complex_Main "HOL-Library.Word"
begin

text \<open>
  The prelude of the development: the collections of hints the component theories share, the
  outcome type of Go code that may panic, 64-bit integers as the code uses them, and generic
  lemmas on lists and association lists.
\<close>

named_theorems inv_intros \<open>introduction rules that establish the invariants of the components\<close>
named_theorems frame_simps \<open>what an operation leaves unchanged\<close>
named_theorems op_defs \<open>definitions of straight-line operations, unfolded to compute\<close>

subsection \<open>Machine integers\<close>

text \<open>
  Go's \<^verbatim>\<open>int\<close> and \<^verbatim>\<open>int64\<close> are 64-bit two's complement on the platforms the
  Makefile and the Dockerfile build for. Comparisons read a word through \<open>sint\<close>.
\<close>

type_synonym int64 = "64 word"

abbreviation max_int64 :: int where
  "max_int64 \<equiv> 9223372036854775807"

abbreviation min_int64 :: int where
  "min_int64 \<equiv> - 9223372036854775808"

lemma sint_int64_bounds: "min_int64 \<le> sint (x :: int64)" "sint (x :: int64) \<le> max_int64"
  using sint_ge [of x] sint_lt [of x] by simp_all

lemma sint_of_int64:
  assumes "min_int64 \<le> i" and "i \<le> max_int64"
  shows "sint (of_int i :: int64) = i"
  using assms by (simp add: signed_of_int signed_take_bit_int_eq_self)

lemma sint_mult_int64:
  assumes "min_int64 \<le> sint (x :: int64) * sint y" and "sint x * sint y \<le> max_int64"
  shows "sint (x * y) = sint x * sint y"
proof -
  have "x * y = of_int (sint x * sint y)" by simp
  then show ?thesis using sint_of_int64 [OF assms] by metis
qed

subsection \<open>Outcomes of Go code\<close>

text \<open>A call that returns a value, or a run-time panic with its message.\<close>

datatype 'a go = Return 'a | Panic string

definition go_bind :: "'a go \<Rightarrow> ('a \<Rightarrow> 'b go) \<Rightarrow> 'b go" where
  "go_bind m f = (case m of Return x \<Rightarrow> f x | Panic p \<Rightarrow> Panic p)"

lemma go_bind_simps [simp]:
  "go_bind (Return x) f = f x"
  "go_bind (Panic p) f = Panic p"
  by (simp_all add: go_bind_def)

lemma go_bind_eq_Return:
  "go_bind m f = Return y \<longleftrightarrow> (\<exists>x. m = Return x \<and> f x = Return y)"
  by (cases m) simp_all

lemma go_bind_assoc: "go_bind (go_bind m f) g = go_bind m (\<lambda>x. go_bind (f x) g)"
  by (cases m) simp_all

lemma go_bind_cong: "(\<And>x. f x = g x) \<Longrightarrow> go_bind m f = go_bind m g"
  by (cases m) simp_all

lemma go_bind_eq_Panic:
  "go_bind m f = Panic p \<longleftrightarrow> m = Panic p \<or> (\<exists>x. m = Return x \<and> f x = Panic p)"
  by (cases m) auto

definition returns :: "'a go \<Rightarrow> bool" where
  "returns m = (case m of Return _ \<Rightarrow> True | Panic _ \<Rightarrow> False)"

lemma returns_simps [simp]: "returns (Return x)" "\<not> returns (Panic p)"
  by (simp_all add: returns_def)

lemma returns_iff: "returns m \<longleftrightarrow> (\<exists>x. m = Return x)"
  by (cases m) simp_all

subsection \<open>Lists\<close>

lemma drop_Cons_info: "drop k xs = y # ys \<Longrightarrow> ys = drop (Suc k) xs \<and> k < length xs"
  by (induction xs arbitrary: k) (auto simp: drop_Cons split: nat.splits)

lemma find_Some_iff_first:
  "List.find P xs = Some x \<Longrightarrow> x \<in> set xs \<and> P x"
  by (auto simp: find_Some_iff)

lemma find_unique:
  assumes "x \<in> set xs" and "P x" and "\<And>y. y \<in> set xs \<Longrightarrow> P y \<Longrightarrow> y = x"
  shows "List.find P xs = Some x"
proof (cases "List.find P xs")
  case None
  then show ?thesis using assms(1,2) by (simp add: find_None_iff)
next
  case (Some y)
  then show ?thesis using assms(3) find_Some_iff_first by fastforce
qed

lemma map_of_distinct_mem:
  "distinct (map fst xs) \<Longrightarrow> (k, v) \<in> set xs \<longleftrightarrow> map_of xs k = Some v"
  by (auto dest: map_of_SomeD)

subsection \<open>Association lists as Go maps\<close>

text \<open>
  A Go map that the code ranges over is an association list with distinct keys: its order is
  one of the iteration orders the runtime may choose.
\<close>

fun map_put :: "'k \<Rightarrow> 'v \<Rightarrow> ('k \<times> 'v) list \<Rightarrow> ('k \<times> 'v) list" where
  "map_put k v [] = [(k, v)]"
| "map_put k v ((k', v') # m) = (if k = k' then (k, v) # m else (k', v') # map_put k v m)"

definition map_del :: "'k \<Rightarrow> ('k \<times> 'v) list \<Rightarrow> ('k \<times> 'v) list" where
  "map_del k m = filter (\<lambda>(k', _). k' \<noteq> k) m"

lemma map_of_map_put [simp]: "map_of (map_put k v m) = (map_of m)(k \<mapsto> v)"
  by (induction k v m rule: map_put.induct) auto

lemma fst_set_map_put [simp]: "fst ` set (map_put k v m) = insert k (fst ` set m)"
  by (induction k v m rule: map_put.induct) auto

lemma set_map_put: "set (map_put k v m) \<subseteq> insert (k, v) (set m)"
  by (induction k v m rule: map_put.induct) auto

lemma set_fst_map_put: "set (map fst (map_put k v m)) = insert k (set (map fst m))"
  by simp

lemma distinct_map_put: "distinct (map fst m) \<Longrightarrow> distinct (map fst (map_put k v m))"
  by (induction k v m rule: map_put.induct) (auto simp del: set_map simp: set_fst_map_put)

lemma map_of_map_del [simp]: "map_of (map_del k m) = (map_of m)(k := None)"
  by (induction m) (auto simp: map_del_def fun_eq_iff)

lemma fst_set_map_del [simp]: "fst ` set (map_del k m) = fst ` set m - {k}"
  by (auto simp: map_del_def image_iff)

lemma set_map_del: "set (map_del k m) = {p \<in> set m. fst p \<noteq> k}"
  by (auto simp: map_del_def)

lemma distinct_map_del: "distinct (map fst m) \<Longrightarrow> distinct (map fst (map_del k m))"
  by (induction m) (auto simp: map_del_def image_iff)

lemma length_map_put_new: "k \<notin> fst ` set m \<Longrightarrow> length (map_put k v m) = Suc (length m)"
  by (induction k v m rule: map_put.induct) auto

lemma length_map_put_old: "k \<in> fst ` set m \<Longrightarrow> length (map_put k v m) = length m"
  by (induction k v m rule: map_put.induct) auto

lemma length_map_del:
  "distinct (map fst m) \<Longrightarrow> k \<in> fst ` set m \<Longrightarrow> Suc (length (map_del k m)) = length m"
proof (induction m)
  case Nil
  then show ?case by simp
next
  case (Cons p m)
  have "filter (\<lambda>(k', _). k' \<noteq> fst p) m = m" if "fst p \<notin> fst ` set m" for p :: "'a \<times> 'b"
    using that by (auto intro!: filter_True simp: image_iff)
  with Cons show ?case by (auto simp: map_del_def)
qed

lemma map_del_idem: "k \<notin> fst ` set m \<Longrightarrow> map_del k m = m"
  by (force simp: map_del_def intro!: filter_True)

lemmas alist_invs = distinct_map_put distinct_map_del

subsection \<open>Tables\<close>

text \<open>A table is the list of its rows; \<open>key\<close> is the column that identifies a row.\<close>

definition row_at :: "('r \<Rightarrow> 'k) \<Rightarrow> 'k \<Rightarrow> 'r list \<Rightarrow> 'r option" where
  "row_at key k rs = List.find (\<lambda>r. key r = k) rs"

definition rows_update :: "('r \<Rightarrow> 'k) \<Rightarrow> 'k \<Rightarrow> ('r \<Rightarrow> 'r) \<Rightarrow> 'r list \<Rightarrow> 'r list" where
  "rows_update key k f rs = map (\<lambda>r. if key r = k then f r else r) rs"

definition rows_affected :: "('r \<Rightarrow> 'k) \<Rightarrow> 'k \<Rightarrow> 'r list \<Rightarrow> nat" where
  "rows_affected key k rs = length (filter (\<lambda>r. key r = k) rs)"

lemma row_at_Nil [simp]: "row_at key k [] = None"
  by (simp add: row_at_def)

lemma row_at_Cons [simp]: "row_at key k (r # rs) = (if key r = k then Some r else row_at key k rs)"
  by (simp add: row_at_def)

lemma row_at_append [simp]:
  "row_at key k (rs @ qs) = (case row_at key k rs of Some r \<Rightarrow> Some r | None \<Rightarrow> row_at key k qs)"
  by (induction rs) auto

lemma row_at_None: "row_at key k rs = None \<longleftrightarrow> k \<notin> key ` set rs"
  by (induction rs) auto

lemma row_at_SomeD: "row_at key k rs = Some r \<Longrightarrow> r \<in> set rs \<and> key r = k"
  by (induction rs) (auto split: if_splits)

lemma row_at_Some:
  "distinct (map key rs) \<Longrightarrow> row_at key k rs = Some r \<longleftrightarrow> r \<in> set rs \<and> key r = k"
  by (induction rs) (auto simp: rev_image_eqI)

lemma row_at_update:
  "(\<And>r. key (f r) = key r) \<Longrightarrow>
   row_at key j (rows_update key k f rs) = (if j = k then map_option f (row_at key k rs) else row_at key j rs)"
  by (induction rs) (auto simp: rows_update_def)

lemma map_key_rows_update:
  "(\<And>r. key' (f r) = key' r) \<Longrightarrow> map key' (rows_update key k f rs) = map key' rs"
  by (auto simp: rows_update_def)

lemma set_rows_update: "set (rows_update key k f rs) \<subseteq> {f r | r. r \<in> set rs} \<union> set rs"
  by (auto simp: rows_update_def)

lemma row_at_filter:
  "distinct (map key rs) \<Longrightarrow>
   row_at key k (filter P rs) = (case row_at key k rs of Some r \<Rightarrow> if P r then Some r else None | None \<Rightarrow> None)"
proof (induction rs)
  case (Cons r rs)
  then show ?case
    using row_at_None [of key k "filter P rs"] by (auto simp: row_at_None image_iff split: option.splits)
qed simp

lemma distinct_key_filter: "distinct (map key rs) \<Longrightarrow> distinct (map key (filter P rs))"
  by (induction rs) (auto simp: image_iff)

lemma rows_affected_0: "rows_affected key k rs = 0 \<longleftrightarrow> row_at key k rs = None"
  by (induction rs) (auto simp: rows_affected_def)

end
