(* ===== verification/Go_Channel.thy ===== *)
theory Go_Channel
  imports Sim_Prelude
begin

text \<open>
  Buffered Go channels under the non-blocking \<^verbatim>\<open>select\<close> with a \<^verbatim>\<open>default\<close> branch, which is
  how the simulator uses every one of them, and the interface \<open>bounded_fifo\<close> that states what a
  client may rely on.
\<close>

datatype 'a chan = Chan (ch_cap: nat) (ch_buf: "'a list")

definition make_chan :: "nat \<Rightarrow> 'a chan" where
  "make_chan n = Chan n []"

definition chan_len :: "'a chan \<Rightarrow> nat" where
  "chan_len c = length (ch_buf c)"

text \<open>
  \<^verbatim>\<open>select { case c <- x: ... default: ... }\<close>: the channel with the value added, or None for
  the default branch.
\<close>

definition try_send :: "'a \<Rightarrow> 'a chan \<Rightarrow> 'a chan option" where
  "try_send x c = (if length (ch_buf c) < ch_cap c then Some (Chan (ch_cap c) (ch_buf c @ [x])) else None)"

text \<open>\<^verbatim>\<open>select { case x := <-c: ... default: ... }\<close>.\<close>

definition try_recv :: "'a chan \<Rightarrow> ('a \<times> 'a chan) option" where
  "try_recv c = (case ch_buf c of [] \<Rightarrow> None | x # xs \<Rightarrow> Some (x, Chan (ch_cap c) xs))"

definition chan_ok :: "'a chan \<Rightarrow> bool" where
  "chan_ok c \<longleftrightarrow> length (ch_buf c) \<le> ch_cap c"

locale bounded_fifo =
  fixes send :: "'a \<Rightarrow> 'c \<Rightarrow> 'c option"
    and recv :: "'c \<Rightarrow> ('a \<times> 'c) option"
    and contents :: "'c \<Rightarrow> 'a list"
    and capacity :: "'c \<Rightarrow> nat"
  assumes send_room: "length (contents c) < capacity c \<Longrightarrow>
      \<exists>c'. send x c = Some c' \<and> contents c' = contents c @ [x] \<and> capacity c' = capacity c"
    and send_full: "capacity c \<le> length (contents c) \<Longrightarrow> send x c = None"
    and recv_some: "contents c = x # xs \<Longrightarrow>
      \<exists>c'. recv c = Some (x, c') \<and> contents c' = xs \<and> capacity c' = capacity c"
    and recv_none: "contents c = [] \<Longrightarrow> recv c = None"
    and same: "contents c = contents d \<Longrightarrow> capacity c = capacity d \<Longrightarrow> c = d"
begin

lemma send_Some:
  "send x c = Some c' \<longleftrightarrow>
     length (contents c) < capacity c \<and> contents c' = contents c @ [x] \<and> capacity c' = capacity c"
proof (cases "length (contents c) < capacity c")
  case True
  then obtain d where "send x c = Some d" "contents d = contents c @ [x]" "capacity d = capacity c"
    using send_room by blast
  then show ?thesis using True same [of c' d] by auto
next
  case False
  then show ?thesis using send_full [of c x] by simp
qed

lemma send_None: "send x c = None \<longleftrightarrow> capacity c \<le> length (contents c)"
proof (cases "length (contents c) < capacity c")
  case True
  then show ?thesis using send_room [of c x] by auto
next
  case False
  then show ?thesis using send_full [of c x] by simp
qed

lemma recv_Some:
  "recv c = Some (x, c') \<longleftrightarrow> contents c = x # contents c' \<and> capacity c' = capacity c"
proof (cases "contents c")
  case Nil
  then show ?thesis using recv_none by simp
next
  case (Cons y ys)
  then obtain d where d: "recv c = Some (y, d)" "contents d = ys" "capacity d = capacity c"
    using recv_some by blast
  have "recv c = Some (x, c') \<longleftrightarrow> y = x \<and> d = c'" using d(1) by auto
  also have "\<dots> \<longleftrightarrow> contents c = x # contents c' \<and> capacity c' = capacity c"
    using Cons d same by (metis list.inject)
  finally show ?thesis .
qed

lemma recv_None: "recv c = None \<longleftrightarrow> contents c = []"
proof (cases "contents c")
  case Nil
  then show ?thesis using recv_none by simp
next
  case (Cons x xs)
  then show ?thesis using recv_some [of c x xs] by auto
qed

lemma send_keeps_bound:
  "send x c = Some c' \<Longrightarrow> length (contents c') \<le> capacity c'"
  by (auto simp: send_Some)

lemma recv_keeps_bound:
  "recv c = Some (x, c') \<Longrightarrow> length (contents c) \<le> capacity c \<Longrightarrow> length (contents c') \<le> capacity c'"
  by (auto simp: recv_Some)

text \<open>
  A producer and a consumer commute: taking the oldest value and adding a new one give the same
  channel in either order.
\<close>

lemma send_recv_commute:
  assumes "send x c = Some c1" and "recv c = Some (y, c2)"
  shows "\<exists>c3. recv c1 = Some (y, c3) \<and> send x c2 = Some c3"
proof -
  from assms obtain c3 where "recv c1 = Some (y, c3)"
    using recv_some [of c1 y "contents c2 @ [x]"] by (auto simp: send_Some recv_Some)
  with assms show ?thesis by (auto simp: send_Some recv_Some)
qed

text \<open>Making room by one receive always lets the next send in.\<close>

lemma recv_makes_room:
  assumes "recv c = Some (y, c')" and "length (contents c) \<le> capacity c"
  shows "\<exists>c''. send x c' = Some c'' \<and> contents c'' = tl (contents c) @ [x]"
  using assms send_room [of c' x] by (auto simp: recv_Some)

end

interpretation go_chan: bounded_fifo try_send try_recv ch_buf ch_cap
  by unfold_locales (auto simp: try_send_def try_recv_def chan.expand)

lemma chan_ok_make [inv_intros]: "chan_ok (make_chan n)"
  by (simp add: chan_ok_def make_chan_def)

lemma chan_ok_send [inv_intros]: "try_send x c = Some c' \<Longrightarrow> chan_ok c'"
  using go_chan.send_keeps_bound by (auto simp: chan_ok_def)

lemma chan_ok_recv [inv_intros]: "try_recv c = Some (x, c') \<Longrightarrow> chan_ok c \<Longrightarrow> chan_ok c'"
  using go_chan.recv_keeps_bound by (auto simp: chan_ok_def)

lemma ch_buf_make [simp]: "ch_buf (make_chan n) = []" "ch_cap (make_chan n) = n"
  by (simp_all add: make_chan_def)

end
