(* ===== verification/Float64.thy ===== *)
theory Float64
  imports Sim_Prelude
begin

text \<open>
  Go's \<^verbatim>\<open>float64\<close>: IEEE 754 binary64 with rounding to nearest, ties to even. A finite
  value is its exact rational; the operations compute in the rationals and round. Infinities
  and NaN are values of their own. The sign of a zero is not kept: no comparison the source
  makes can see it, and it never divides by a zero.
\<close>

subsection \<open>Powers of two and the binary logarithm\<close>

definition pow2 :: "int \<Rightarrow> rat" where
  "pow2 e = (if 0 \<le> e then 2 ^ nat e else 1 / 2 ^ nat (- e))"

lemma pow2_powi: "pow2 e = 2 powi e"
  by (auto simp: pow2_def power_int_def field_simps)

lemma pow2_pos [simp]: "0 < pow2 e"
  by (simp add: pow2_def)

lemma pow2_nonneg [simp]: "0 \<le> pow2 e" "pow2 e \<noteq> 0"
  using pow2_pos [of e] by linarith+

lemma pow2_add: "pow2 (a + b) = pow2 a * pow2 b"
  by (simp add: pow2_powi power_int_add)

lemma pow2_diff: "pow2 (a - b) = pow2 a / pow2 b"
  by (simp add: pow2_powi power_int_diff)

lemma pow2_mono: "a \<le> b \<Longrightarrow> pow2 a \<le> pow2 b"
  by (simp add: pow2_powi power_int_increasing)

lemma pow2_less: "a < b \<Longrightarrow> pow2 a < pow2 b"
  by (simp add: pow2_powi power_int_strict_increasing)

lemma pow2_less_iff: "pow2 a < pow2 b \<longleftrightarrow> a < b"
  by (meson linorder_not_le pow2_less pow2_mono)

lemma pow2_nat: "0 \<le> e \<Longrightarrow> pow2 e = of_int (2 ^ nat e)"
  by (simp add: pow2_def)

text \<open>The length of the binary numeral of a positive integer.\<close>

function nbits :: "int \<Rightarrow> int" where
  "nbits n = (if n \<le> 0 then 0 else 1 + nbits (n div 2))"
  by pat_completeness auto
termination
  by (relation "measure nat") auto

declare nbits.simps [simp del]

lemma nbits_0 [simp]: "nbits 0 = 0"
  by (simp add: nbits.simps)

lemma nbits_bounds: "0 < n \<Longrightarrow> 0 < nbits n \<and> pow2 (nbits n - 1) \<le> of_int n \<and> of_int n < pow2 (nbits n)"
proof (induction n rule: nbits.induct)
  case (1 n)
  have eq: "nbits n = 1 + nbits (n div 2)" using "1.prems" by (simp add: nbits.simps [of n])
  show ?case
  proof (cases "n div 2 = 0")
    case True
    then have "n = 1" using "1.prems" by linarith
    then show ?thesis using eq by (simp add: pow2_def)
  next
    case False
    then have IH: "0 < nbits (n div 2)" "pow2 (nbits (n div 2) - 1) \<le> of_int (n div 2)"
      "of_int (n div 2) < pow2 (nbits (n div 2))"
      using "1.IH" "1.prems" by auto
    have int: "pow2 (nbits (n div 2)) = of_int (2 ^ nat (nbits (n div 2)))"
      using IH(1) by (simp add: pow2_nat)
    then have "n div 2 < 2 ^ nat (nbits (n div 2))" using IH(3) by (simp only: of_int_less_iff)
    then have "n < 2 * 2 ^ nat (nbits (n div 2))" by linarith
    then have "of_int n < (of_int (2 * 2 ^ nat (nbits (n div 2))) :: rat)" by (simp only: of_int_less_iff)
    then have up: "of_int n < pow2 (1 + nbits (n div 2))"
      by (simp add: pow2_add int pow2_def [of 1])
    have "2 * (n div 2) \<le> n" by linarith
    then have "(of_int (2 * (n div 2)) :: rat) \<le> of_int n" by (simp only: of_int_le_iff)
    then have "pow2 (1 + (nbits (n div 2) - 1)) \<le> of_int n"
      using IH(2) unfolding pow2_add by (simp add: pow2_def [of 1])
    with up IH(1) eq show ?thesis by simp
  qed
qed

definition ilog2 :: "rat \<Rightarrow> int" where
  "ilog2 x =
     (let (n, d) = quotient_of x; k = nbits n - nbits d
      in if pow2 k \<le> x then k else k - 1)"

lemma ilog2_bounds:
  assumes "0 < x"
  shows "pow2 (ilog2 x) \<le> x" and "x < pow2 (ilog2 x + 1)"
proof -
  obtain n d where q: "quotient_of x = (n, d)" by force
  from q have d: "0 < d" by (rule quotient_of_denom_pos)
  from q have x: "x = of_int n / of_int d" by (rule quotient_of_div)
  from assms d x have n: "0 < n" by (simp add: zero_less_divide_iff)
  define a where "a = nbits n"
  define b where "b = nbits d"
  have bn: "pow2 (a - 1) \<le> of_int n" "of_int n < pow2 a"
    and bd: "pow2 (b - 1) \<le> of_int d" "of_int d < pow2 b"
    using nbits_bounds [OF n] nbits_bounds [OF d] by (simp_all add: a_def b_def)
  have "x \<le> of_int n / pow2 (b - 1)" "of_int n / pow2 b < x"
    using n d bd by (auto simp: x intro!: divide_left_mono divide_strict_left_mono)
  moreover have "of_int n / pow2 (b - 1) < pow2 a / pow2 (b - 1)"
    using bn by (intro divide_strict_right_mono) auto
  moreover have "pow2 (a - 1) / pow2 b \<le> of_int n / pow2 b"
    using bn by (intro divide_right_mono) auto
  ultimately have up: "x < pow2 (a - (b - 1))" and lo: "pow2 ((a - 1) - b) < x"
    unfolding pow2_diff by linarith+
  have k: "ilog2 x = (if pow2 (a - b) \<le> x then a - b else a - b - 1)"
    by (simp add: ilog2_def q a_def b_def)
  show "pow2 (ilog2 x) \<le> x" using lo k by (auto simp: algebra_simps)
  show "x < pow2 (ilog2 x + 1)" using up k by (auto simp: algebra_simps)
qed

lemma ilog2_mono: "0 < x \<Longrightarrow> x \<le> y \<Longrightarrow> ilog2 x \<le> ilog2 y"
  using ilog2_bounds [of x] ilog2_bounds [of y] pow2_less_iff [of "ilog2 x" "ilog2 y + 1"] by linarith

subsection \<open>Rounding\<close>

definition round_even :: "rat \<Rightarrow> int" where
  "round_even x =
     (let f = \<lfloor>x\<rfloor>; d = x - of_int f
      in if d < 1 / 2 then f else if 1 / 2 < d then f + 1 else if even f then f else f + 1)"

lemma round_even_floor: "\<lfloor>x\<rfloor> \<le> round_even x" "round_even x \<le> \<lfloor>x\<rfloor> + 1"
  by (auto simp: round_even_def Let_def)

lemma round_even_of_int [simp]: "round_even (of_int n) = n"
  by (simp add: round_even_def Let_def)

lemma round_even_mono:
  assumes "x \<le> y"
  shows "round_even x \<le> round_even y"
proof (cases "\<lfloor>x\<rfloor> = \<lfloor>y\<rfloor>")
  case True
  then show ?thesis using assms by (auto simp: round_even_def Let_def)
next
  case False
  then have "\<lfloor>x\<rfloor> + 1 \<le> \<lfloor>y\<rfloor>" using floor_mono [OF assms] by linarith
  then show ?thesis using round_even_floor [of x] round_even_floor [of y] by linarith
qed

lemma round_even_minus: "round_even (- x) = - round_even x"
proof (cases "x = of_int \<lfloor>x\<rfloor>")
  case True
  then show ?thesis by (metis of_int_minus round_even_of_int)
next
  case False
  then have "\<lfloor>- x\<rfloor> = - \<lfloor>x\<rfloor> - 1" by (simp add: floor_eq_iff) linarith
  then show ?thesis by (auto simp: round_even_def Let_def)
qed

text \<open>
  The exponent of the unit in the last place: 52 fraction bits below the leading bit, and
  never below the subnormal unit.
\<close>

definition ulp_exp :: "rat \<Rightarrow> int" where
  "ulp_exp x = max (- 1074) (ilog2 \<bar>x\<bar> - 52)"

definition round_rat :: "rat \<Rightarrow> rat" where
  "round_rat x = (if x = 0 then 0 else of_int (round_even (x / pow2 (ulp_exp x))) * pow2 (ulp_exp x))"

lemma round_rat_0 [simp]: "round_rat 0 = 0"
  by (simp add: round_rat_def)

lemma round_rat_minus: "round_rat (- x) = - round_rat x"
  using round_even_minus [of "x / pow2 (ulp_exp x)"] by (simp add: round_rat_def ulp_exp_def)

lemma round_rat_nonneg:
  assumes "0 \<le> x"
  shows "0 \<le> round_rat x"
proof -
  have "round_even 0 \<le> round_even (x / pow2 (ulp_exp x))"
    using assms by (intro round_even_mono) simp
  moreover have "round_even (of_int 0) = 0" by (rule round_even_of_int)
  ultimately show ?thesis by (simp add: round_rat_def)
qed

lemma round_rat_mono_pos:
  assumes "0 < x" and "x \<le> y"
  shows "round_rat x \<le> round_rat y"
proof (cases "ulp_exp x = ulp_exp y")
  case True
  have "round_even (x / pow2 (ulp_exp y)) \<le> round_even (y / pow2 (ulp_exp y))"
    using assms(2) by (intro round_even_mono divide_right_mono) auto
  then show ?thesis using True assms by (simp add: round_rat_def)
next
  case False
  have "ilog2 x \<le> ilog2 y" by (rule ilog2_mono [OF assms])
  with False assms have lt: "ilog2 x + 1 \<le> ilog2 y" and ey: "ulp_exp y = ilog2 y - 52"
    and ex: "ulp_exp x < ulp_exp y"
    by (auto simp: ulp_exp_def)
  have "x \<le> pow2 (ilog2 y)"
    using ilog2_bounds(2) [OF assms(1)] pow2_mono [OF lt] by linarith
  then have "x / pow2 (ulp_exp x) \<le> pow2 (ilog2 y - ulp_exp x)"
    by (simp add: pow2_diff divide_right_mono)
  also have "\<dots> = of_int (2 ^ nat (ilog2 y - ulp_exp x))"
    using ex ey by (intro pow2_nat) linarith
  finally have "round_even (x / pow2 (ulp_exp x)) \<le> 2 ^ nat (ilog2 y - ulp_exp x)"
    using round_even_mono round_even_of_int by metis
  then have "(of_int (round_even (x / pow2 (ulp_exp x))) :: rat) \<le> pow2 (ilog2 y - ulp_exp x)"
    using ex ey by (subst pow2_nat) (simp_all only: of_int_le_iff, linarith?)
  then have 1: "round_rat x \<le> pow2 (ilog2 y)"
    using assms(1) by (simp add: round_rat_def pow2_diff pos_le_divide_eq)
  have "pow2 52 \<le> y / pow2 (ulp_exp y)"
    using ilog2_bounds(1) [of y] assms by (simp add: ey pow2_diff pos_le_divide_eq mult.commute)
  moreover have "pow2 52 = of_int (2 ^ 52)" by (simp add: pow2_def)
  ultimately have "2 ^ 52 \<le> round_even (y / pow2 (ulp_exp y))"
    using round_even_mono round_even_of_int by metis
  then have "pow2 52 \<le> of_int (round_even (y / pow2 (ulp_exp y)))"
    using \<open>pow2 52 = of_int (2 ^ 52)\<close> by (simp only: of_int_le_iff)
  then have "pow2 52 * pow2 (ulp_exp y) \<le> round_rat y"
    using assms by (simp add: round_rat_def mult_right_mono)
  then have 2: "pow2 (ilog2 y) \<le> round_rat y"
    by (simp add: ey flip: pow2_add)
  from 1 2 show ?thesis by linarith
qed

lemma round_rat_mono:
  assumes "x \<le> y"
  shows "round_rat x \<le> round_rat y"
proof -
  consider "0 < x" | "x \<le> 0" "0 \<le> y" | "y < 0" by linarith
  then show ?thesis
  proof cases
    case 1
    then show ?thesis using assms by (rule round_rat_mono_pos)
  next
    case 2
    then show ?thesis using round_rat_nonneg [of "- x"] round_rat_nonneg [of y] round_rat_minus [of x] by linarith
  next
    case 3
    then show ?thesis
      using round_rat_mono_pos [of "- y" "- x"] assms round_rat_minus [of x] round_rat_minus [of y] by linarith
  qed
qed

subsection \<open>Representable values\<close>

definition representable :: "rat \<Rightarrow> bool" where
  "representable x \<longleftrightarrow> round_rat x = x \<and> \<bar>x\<bar> < pow2 1024"

lemma round_rat_scaled:
  assumes "\<bar>m\<bar> < 2 ^ 53" and "- 1074 \<le> e"
  shows "round_rat (of_int m * pow2 e) = of_int m * pow2 e"
proof (cases "m = 0")
  case True
  then show ?thesis by simp
next
  case False
  define x where "x = of_int m * pow2 e"
  from False have pos: "0 < \<bar>x\<bar>" and x0: "x \<noteq> 0" by (simp_all add: x_def)
  have "(of_int \<bar>m\<bar> :: rat) < of_int (2 ^ 53)" using assms(1) by (simp only: of_int_less_iff)
  then have "\<bar>x\<bar> < pow2 53 * pow2 e"
    by (simp add: x_def abs_mult pow2_def [of 53])
  then have "pow2 (ilog2 \<bar>x\<bar>) < pow2 (53 + e)"
    using ilog2_bounds(1) [OF pos] by (simp add: pow2_add)
  then have le: "ulp_exp x \<le> e" using assms(2) by (simp add: pow2_less_iff ulp_exp_def)
  have "x / pow2 (ulp_exp x) = of_int m * pow2 (e - ulp_exp x)"
    by (simp add: x_def pow2_diff)
  also have "\<dots> = of_int (m * 2 ^ nat (e - ulp_exp x))"
    using le by (simp add: pow2_nat)
  finally have eq: "x / pow2 (ulp_exp x) = of_int (m * 2 ^ nat (e - ulp_exp x))" .
  have "of_int (round_even (x / pow2 (ulp_exp x))) * pow2 (ulp_exp x) = x / pow2 (ulp_exp x) * pow2 (ulp_exp x)"
    by (simp only: eq round_even_of_int)
  then have "round_rat x = x" using x0 by (simp add: round_rat_def)
  then show ?thesis by (simp add: x_def)
qed

lemma round_rat_int: "\<bar>m\<bar> < 2 ^ 53 \<Longrightarrow> round_rat (of_int m) = of_int m"
  using round_rat_scaled [of m 0] by (simp add: pow2_def)

lemma round_rat_idem: "round_rat (round_rat x) = round_rat x"
proof (cases "x = 0")
  case True
  then show ?thesis by simp
next
  case False
  define e where "e = ulp_exp x"
  define m where "m = round_even (x / pow2 e)"
  have eq: "round_rat x = of_int m * pow2 e" using False by (simp add: round_rat_def m_def e_def)
  have e: "- 1074 \<le> e" "ilog2 \<bar>x\<bar> + 1 \<le> 53 + e" by (auto simp: e_def ulp_exp_def)
  have "\<bar>x\<bar> < pow2 (53 + e)"
    using ilog2_bounds(2) [of "\<bar>x\<bar>"] pow2_mono [OF e(2)] False by force
  then have "\<bar>x\<bar> / pow2 e < pow2 53" by (simp add: pow2_add pos_divide_less_eq)
  then have "x / pow2 e \<le> of_int (2 ^ 53)" "of_int (- (2 ^ 53)) \<le> x / pow2 e"
    using abs_le_iff [of "x / pow2 e" "pow2 53"] by (simp_all add: pow2_def [of 53] abs_divide)
  then have "m \<le> 2 ^ 53" "- (2 ^ 53) \<le> m"
    unfolding m_def by (metis round_even_mono round_even_of_int)+
  then consider "\<bar>m\<bar> < 2 ^ 53" | "m = 2 ^ 53" | "m = - (2 ^ 53)" by linarith
  then show ?thesis
  proof cases
    case 1
    then show ?thesis using round_rat_scaled e(1) eq by simp
  next
    case 2
    have "round_rat x = of_int (2 ^ 52) * pow2 (e + 1)" by (simp add: eq 2 pow2_add pow2_def [of 1])
    then show ?thesis using round_rat_scaled [of "2 ^ 52" "e + 1"] e(1) by simp
  next
    case 3
    have "round_rat x = of_int (- (2 ^ 52)) * pow2 (e + 1)" by (simp add: eq 3 pow2_add pow2_def [of 1])
    then show ?thesis using round_rat_scaled [of "- (2 ^ 52)" "e + 1"] e(1) by simp
  qed
qed

subsection \<open>The type and its operations\<close>

datatype float64 = NaN | PosInf | NegInf | Finite rat

definition f64_of :: "rat \<Rightarrow> float64" where
  "f64_of x =
     (let y = round_rat x
      in if pow2 1024 \<le> y then PosInf else if y \<le> - pow2 1024 then NegInf else Finite y)"

fun f64_ok :: "float64 \<Rightarrow> bool" where
  "f64_ok (Finite x) = representable x"
| "f64_ok _ = True"

fun is_finite :: "float64 \<Rightarrow> bool" where
  "is_finite (Finite _) = True"
| "is_finite _ = False"

lemma is_finite_iff: "is_finite x \<longleftrightarrow> (\<exists>q. x = Finite q)"
  by (cases x) simp_all

lemma f64_of_ok: "f64_ok (f64_of x)"
  by (auto simp: f64_of_def Let_def representable_def round_rat_idem)

lemma f64_of_representable: "representable x \<Longrightarrow> f64_of x = Finite x"
  by (auto simp: f64_of_def Let_def representable_def)

lemma representable_int: "\<bar>m\<bar> < 2 ^ 53 \<Longrightarrow> representable (of_int m)"
proof -
  assume m: "\<bar>m\<bar> < 2 ^ 53"
  then have "(of_int \<bar>m\<bar> :: rat) < of_int (2 ^ 53)" by (simp only: of_int_less_iff)
  moreover have "pow2 53 < pow2 1024" by (rule pow2_less) simp
  ultimately show ?thesis using round_rat_int [OF m] by (simp add: representable_def pow2_def [of 53])
qed

lemma f64_of_numeral [simp]:
  "(numeral k :: int) < 2 ^ 53 \<Longrightarrow> f64_of (numeral k) = Finite (numeral k)"
  "(numeral k :: int) < 2 ^ 53 \<Longrightarrow> f64_of (- numeral k) = Finite (- numeral k)"
  using f64_of_representable [OF representable_int, of "numeral k"]
    f64_of_representable [OF representable_int, of "- numeral k"] by simp_all

lemma f64_of_0_1 [simp]: "f64_of 0 = Finite 0" "f64_of 1 = Finite 1"
  using f64_of_representable [OF representable_int, of 0]
    f64_of_representable [OF representable_int, of 1] by simp_all

lemma representable_numeral [simp]:
  "(numeral k :: int) < 2 ^ 53 \<Longrightarrow> representable (numeral k)"
  "(numeral k :: int) < 2 ^ 53 \<Longrightarrow> representable (- numeral k)"
  using representable_int [of "numeral k"] representable_int [of "- numeral k"] by simp_all

lemma representable_0 [simp]: "representable 0"
  by (simp add: representable_def)

instantiation float64 :: "{ord, plus, minus, uminus, times, inverse}"
begin

fun less_eq_float64 :: "float64 \<Rightarrow> float64 \<Rightarrow> bool" where
  "less_eq_float64 (Finite x) (Finite y) = (x \<le> y)"
| "less_eq_float64 NegInf y = (y \<noteq> NaN)"
| "less_eq_float64 x PosInf = (x \<noteq> NaN)"
| "less_eq_float64 _ _ = False"

definition less_float64 :: "float64 \<Rightarrow> float64 \<Rightarrow> bool" where
  "less_float64 x y \<longleftrightarrow> x \<le> y \<and> x \<noteq> y"

fun plus_float64 :: "float64 \<Rightarrow> float64 \<Rightarrow> float64" where
  "plus_float64 (Finite x) (Finite y) = f64_of (x + y)"
| "plus_float64 (Finite _) y = y"
| "plus_float64 x (Finite _) = x"
| "plus_float64 x y = (if x = y then x else NaN)"

fun uminus_float64 :: "float64 \<Rightarrow> float64" where
  "uminus_float64 (Finite x) = Finite (- x)"
| "uminus_float64 PosInf = NegInf"
| "uminus_float64 NegInf = PosInf"
| "uminus_float64 NaN = NaN"

definition minus_float64 :: "float64 \<Rightarrow> float64 \<Rightarrow> float64" where
  "minus_float64 x y = x + (- y)"

fun times_float64 :: "float64 \<Rightarrow> float64 \<Rightarrow> float64" where
  "times_float64 (Finite x) (Finite y) = f64_of (x * y)"
| "times_float64 NaN _ = NaN"
| "times_float64 _ NaN = NaN"
| "times_float64 (Finite x) y = (if x = 0 then NaN else if 0 < x then y else - y)"
| "times_float64 x (Finite y) = (if y = 0 then NaN else if 0 < y then x else - x)"
| "times_float64 x y = (if x = y then PosInf else NegInf)"

fun divide_float64 :: "float64 \<Rightarrow> float64 \<Rightarrow> float64" where
  "divide_float64 (Finite x) (Finite y) =
     (if y = 0 then (if x = 0 then NaN else if 0 < x then PosInf else NegInf) else f64_of (x / y))"
| "divide_float64 NaN _ = NaN"
| "divide_float64 _ NaN = NaN"
| "divide_float64 (Finite x) _ = Finite 0"
| "divide_float64 x (Finite y) = (if 0 \<le> y then x else - x)"
| "divide_float64 _ _ = NaN"

definition inverse_float64 :: "float64 \<Rightarrow> float64" where
  "inverse_float64 x = Finite 1 div x"

instance ..

end

definition f64_of_int :: "int \<Rightarrow> float64" where
  "f64_of_int i = f64_of (of_int i)"

subsection \<open>Order and rounding bounds\<close>

lemma f64_le_trans: "(x :: float64) \<le> y \<Longrightarrow> y \<le> z \<Longrightarrow> x \<le> z"
  by (cases x; cases y; cases z) auto

lemma f64_le_refl: "x \<noteq> NaN \<Longrightarrow> (x :: float64) \<le> x"
  by (cases x) auto

lemma f64_less_le: "(x :: float64) < y \<Longrightarrow> x \<le> y"
  by (simp add: less_float64_def)

lemma f64_not_le: "x \<noteq> NaN \<Longrightarrow> y \<noteq> NaN \<Longrightarrow> (\<not> x \<le> y) = (y < (x :: float64))"
  by (cases x; cases y) (auto simp: less_float64_def)

lemma f64_le_not_NaN: "(x :: float64) \<le> y \<Longrightarrow> x \<noteq> NaN \<and> y \<noteq> NaN"
  by (cases x; cases y) auto

lemma f64_of_not_NaN [simp]: "f64_of x \<noteq> NaN" "NaN \<noteq> f64_of x"
  by (auto simp: f64_of_def Let_def)

lemma f64_le_PosInf: "x \<noteq> NaN \<Longrightarrow> x \<le> PosInf"
  by (cases x) auto

lemma f64_of_mono:
  assumes "x \<le> y"
  shows "f64_of x \<le> f64_of y"
proof -
  have "0 < pow2 1024" by simp
  then show ?thesis using round_rat_mono [OF assms] by (auto simp: f64_of_def Let_def)
qed

lemma f64_of_ge:
  "representable a \<Longrightarrow> a \<le> x \<Longrightarrow> Finite a \<le> f64_of x"
  using f64_of_mono [of a x] by (simp add: f64_of_representable)

lemma f64_of_le:
  "representable b \<Longrightarrow> x \<le> b \<Longrightarrow> f64_of x \<le> Finite b"
  using f64_of_mono [of x b] by (simp add: f64_of_representable)

lemma f64_of_eq_Finite: "f64_of x = Finite y \<Longrightarrow> y = round_rat x \<and> representable y"
  using f64_of_ok [of x] by (auto simp: f64_of_def Let_def split: if_splits)

text \<open>Adding something non-negative to a finite value never goes below it.\<close>

lemma f64_add_nonneg:
  assumes "representable a" and "Finite 0 \<le> p"
  shows "Finite a \<le> Finite a + p"
  using assms by (cases p) (auto intro: f64_of_ge)

lemma f64_add_nonpos:
  assumes "representable a" and "p \<le> Finite 0"
  shows "Finite a + p \<le> Finite a"
  using assms by (cases p) (auto intro: f64_of_le)

lemma f64_add_mono:
  assumes "p \<le> q"
  shows "Finite a + p \<le> Finite a + q"
  using assms by (cases p; cases q) (auto intro: f64_of_mono f64_le_PosInf)

lemma f64_mult_unit:
  assumes "0 \<le> r" and "r \<le> 1" and "0 \<le> w" and "representable w"
  shows "Finite 0 \<le> Finite r * Finite w" and "Finite r * Finite w \<le> Finite w"
  using assms by (auto intro!: f64_of_ge f64_of_le mult_left_le_one_le mult_nonneg_nonneg)

lemma f64_minus_nonneg:
  assumes "x \<le> y"
  shows "Finite 0 \<le> Finite y - Finite x"
  using assms by (auto simp: minus_float64_def intro: f64_of_ge)

end
