(* ===== verification/Sim_Domain.thy ===== *)
theory Sim_Domain
  imports Float64
begin

text \<open>
  The domain package: \<^verbatim>\<open>internal/domain/gateway.go\<close> and \<^verbatim>\<open>internal/domain/errors.go\<close>,
  with the parts of Go's \<^verbatim>\<open>errors\<close>, \<^verbatim>\<open>fmt\<close> and \<^verbatim>\<open>time\<close> packages that
  the code uses. Go strings and byte slices are sequences of bytes, HOL's \<open>string\<close>; a nil
  slice is the empty one, which the code never tells apart from it. Go's open string types
  (\<^verbatim>\<open>GatewayStatus\<close>, \<^verbatim>\<open>SensorType\<close> and their kin) stay strings, because values outside
  the declared constants do reach the code, from JSON and from the database.
\<close>

type_synonym bytes = string
type_synonym uuid = "128 word"

subsection \<open>Errors\<close>

text \<open>The sentinel errors of errors.go.\<close>

datatype sentinel =
    ErrGatewayNotFound
  | ErrSensorNotFound
  | ErrGatewayAlreadyRunning
  | ErrGatewayAlreadyProvisioned
  | ErrInvalidFactoryCredentials
  | ErrInvalidSensorRange

fun sentinel_text :: "sentinel \<Rightarrow> string" where
  "sentinel_text ErrGatewayNotFound = ''gateway not found''"
| "sentinel_text ErrSensorNotFound = ''sensor not found''"
| "sentinel_text ErrGatewayAlreadyRunning = ''gateway already running''"
| "sentinel_text ErrGatewayAlreadyProvisioned = ''gateway already provisioned''"
| "sentinel_text ErrInvalidFactoryCredentials = ''invalid factory credentials''"
| "sentinel_text ErrInvalidSensorRange = ''invalid sensor range''"

text \<open>
  A Go error: a sentinel, an error made by \<^verbatim>\<open>errors.New\<close> or by a library, or one made by
  \<^verbatim>\<open>fmt.Errorf\<close> with one \<^verbatim>\<open>%w\<close> verb, the text before it and the text after it.
\<close>

datatype go_error =
    Sentinel sentinel
  | Plain string
  | Wrap string go_error string

fun err_is :: "go_error \<Rightarrow> sentinel \<Rightarrow> bool" where
  "err_is (Sentinel s) t = (s = t)"
| "err_is (Plain _) _ = False"
| "err_is (Wrap _ e _) t = err_is e t"

fun err_text :: "go_error \<Rightarrow> string" where
  "err_text (Sentinel s) = sentinel_text s"
| "err_text (Plain m) = m"
| "err_text (Wrap pre e post) = pre @ err_text e @ post"

type_synonym 'a result = "go_error + 'a"

lemma err_is_unique: "err_is e s \<Longrightarrow> err_is e t \<Longrightarrow> s = t"
  by (induction e) auto

subsection \<open>The verbs of fmt the messages use\<close>

function digits_of :: "int \<Rightarrow> string" where
  "digits_of n =
     (if n < 10 then [char_of (48 + n)] else digits_of (n div 10) @ [char_of (48 + n mod 10)])"
  by pat_completeness auto
termination
  by (relation "measure nat") auto

declare digits_of.simps [simp del]

text \<open>\<^verbatim>\<open>%d\<close> of an integer and \<^verbatim>\<open>%.2f\<close> of a float.\<close>

definition fmt_d :: "int \<Rightarrow> string" where
  "fmt_d n = (if n < 0 then ''-'' @ digits_of (- n) else digits_of n)"

fun fmt_2f :: "float64 \<Rightarrow> string" where
  "fmt_2f NaN = ''NaN''"
| "fmt_2f PosInf = ''+Inf''"
| "fmt_2f NegInf = ''-Inf''"
| "fmt_2f (Finite x) =
     (let n = round_even (\<bar>x\<bar> * 100)
      in (if x < 0 then ''-'' else '''') @ digits_of (n div 100) @ ''.''
         @ [char_of (48 + n div 10 mod 10), char_of (48 + n mod 10)])"

subsection \<open>time.Time and time.Duration\<close>

text \<open>
  A \<^verbatim>\<open>time.Time\<close> is the number of nanoseconds since the start of year 1, UTC, so that 0 is
  the zero time of \<^verbatim>\<open>IsZero\<close>. A \<^verbatim>\<open>time.Duration\<close> is a signed 64-bit count of nanoseconds:
  its products wrap, \<^verbatim>\<open>Add\<close> adds it exactly and \<^verbatim>\<open>Sub\<close> saturates.
\<close>

type_synonym time = int
type_synonym duration = int64

abbreviation IsZero :: "time \<Rightarrow> bool" where
  "IsZero t \<equiv> t = 0"

definition Millisecond :: duration where
  "Millisecond = 1000000"

definition Second :: duration where
  "Second = 1000000000"

definition time_Add :: "time \<Rightarrow> duration \<Rightarrow> time" where
  "time_Add t d = t + sint d"

definition time_Sub :: "time \<Rightarrow> time \<Rightarrow> duration" where
  "time_Sub t u = of_int (max min_int64 (min max_int64 (t - u)))"

definition time_Before :: "time \<Rightarrow> time \<Rightarrow> bool" where
  "time_Before t u \<longleftrightarrow> t < u"

lemma sint_time_Sub: "sint (time_Sub t u) = max min_int64 (min max_int64 (t - u))"
  unfolding time_Sub_def by (rule sint_of_int64) auto

lemma sint_Second: "sint Second = 1000000000" and sint_Millisecond: "sint Millisecond = 1000000"
  by (simp_all add: Second_def Millisecond_def)

lemma sint_times_Second:
  assumes "- 9223372036 \<le> sint (n :: int64)" and "sint n \<le> 9223372036"
  shows "sint (n * Second) = sint n * 1000000000"
  using assms by (subst sint_mult_int64) (auto simp: sint_Second)

lemma sint_times_Millisecond:
  assumes "- 9223372036854 \<le> sint (n :: int64)" and "sint n \<le> 9223372036854"
  shows "sint (n * Millisecond) = sint n * 1000000"
  using assms by (subst sint_mult_int64) (auto simp: sint_Millisecond)

subsection \<open>Keys and payloads\<close>

record EncryptionKey =
  key_value :: bytes

definition NewEncryptionKey :: "bytes \<Rightarrow> EncryptionKey result" where
  "NewEncryptionKey key =
     (if length key \<noteq> 32 then Inl (Plain ''encryption key must be exactly 32 bytes long'')
      else Inr \<lparr>key_value = key\<rparr>)"

definition EncryptionKey_Bytes :: "EncryptionKey \<Rightarrow> bytes" where
  "EncryptionKey_Bytes k = key_value k"

definition zero_EncryptionKey :: EncryptionKey where
  "zero_EncryptionKey = \<lparr>key_value = []\<rparr>"

record EncryptedPayload =
  ep_EncryptedData :: string
  ep_IV :: string
  ep_AuthTag :: string

record TelemetryEnvelope =
  te_GatewayID :: string
  te_SensorID :: string
  te_SensorType :: string
  te_Timestamp :: time
  te_KeyVersion :: int64
  te_EncryptedData :: string
  te_IV :: string
  te_AuthTag :: string

subsection \<open>Requests\<close>

record CreateGatewayRequest =
  cr_FactoryID :: string
  cr_FactoryKey :: string
  cr_Model :: string
  cr_FirmwareVersion :: string
  cr_SendFrequencyMs :: int64

record BulkCreateRequest =
  br_FactoryIDs :: "string list"
  br_FactoryKey :: string
  br_Model :: string
  br_FirmwareVersion :: string
  br_SendFrequencyMs :: int64

record ProvisionResult =
  pr_CertPEM :: bytes
  pr_PrivateKeyPEM :: bytes
  pr_AESKey :: EncryptionKey
  pr_GatewayID :: string
  pr_TenantID :: string
  pr_SendFrequencyMs :: int64

subsection \<open>Enumerations\<close>

type_synonym GatewayStatus = string

definition Provisioning :: GatewayStatus where "Provisioning = ''provisioning''"

definition Online :: GatewayStatus where "Online = ''online''"

definition Offline :: GatewayStatus where "Offline = ''offline''"

definition Paused :: GatewayStatus where "Paused = ''paused''"

type_synonym SensorType = string

definition Temperature :: SensorType where "Temperature = ''temperature''"

definition Humidity :: SensorType where "Humidity = ''humidity''"

definition Pressure :: SensorType where "Pressure = ''pressure''"

definition Movement :: SensorType where "Movement = ''movement''"

definition Biometric :: SensorType where "Biometric = ''biometric''"

type_synonym GenerationAlgorithmType = string

definition UniformRandom :: GenerationAlgorithmType where "UniformRandom = ''uniform_random''"

definition SineWave :: GenerationAlgorithmType where "SineWave = ''sine_wave''"

definition Spike :: GenerationAlgorithmType where "Spike = ''spike''"

definition Constant :: GenerationAlgorithmType where "Constant = ''constant''"

lemmas status_defs = Provisioning_def Online_def Offline_def Paused_def
lemmas algorithm_defs = UniformRandom_def SineWave_def Spike_def Constant_def
lemmas sensor_type_defs =
  Temperature_def Humidity_def Pressure_def Movement_def Biometric_def

subsection \<open>Entities\<close>

record SimGateway =
  gw_ID :: int64
  gw_ManagementGatewayID :: uuid
  gw_FactoryID :: string
  gw_FactoryKey :: string
  gw_Model :: string
  gw_FirmwareVersion :: string
  gw_Provisioned :: bool
  gw_CertPEM :: bytes
  gw_PrivateKeyPEM :: bytes
  gw_EncryptionKey :: EncryptionKey
  gw_SendFrequencyMs :: int64
  gw_Status :: GatewayStatus
  gw_TenantID :: string
  gw_CreatedAt :: time

record SimSensor =
  sn_ID :: int64
  sn_GatewayID :: int64
  sn_ManagementGatewayID :: uuid
  sn_SensorID :: uuid
  sn_Type :: SensorType
  sn_MinRange :: float64
  sn_MaxRange :: float64
  sn_Algorithm :: GenerationAlgorithmType
  sn_CreatedAt :: time

record GatewayConfigUpdate =
  cu_SendFrequencyMs :: "int64 option"
  cu_Status :: "GatewayStatus option"

subsection \<open>Anomalies and commands\<close>

type_synonym AnomalyType = string

definition NetworkDegradation :: AnomalyType where "NetworkDegradation = ''network_degradation''"

definition Disconnect :: AnomalyType where "Disconnect = ''disconnect''"

lemmas anomaly_defs = NetworkDegradation_def Disconnect_def

record NetworkDegradationParams =
  nd_DurationSeconds :: int64
  nd_PacketLossPct :: float64

record DisconnectParams =
  dc_DurationSeconds :: int64

type_synonym CommandType = string

definition ConfigUpdate :: CommandType where "ConfigUpdate = ''config_update''"

definition FirmwarePush :: CommandType where "FirmwarePush = ''firmware_push''"

lemmas command_type_defs = ConfigUpdate_def FirmwarePush_def

type_synonym CommandACKStatus = string

definition ACK :: CommandACKStatus where "ACK = ''ack''"

definition NACK :: CommandACKStatus where "NACK = ''nack''"

definition Expired :: CommandACKStatus where "Expired = ''expired''"

lemmas ack_defs = ACK_def NACK_def Expired_def

record CommandConfigPayload =
  cp_SendFrequencyMs :: "int64 option"
  cp_Status :: "GatewayStatus option"

record CommandFirmwarePayload =
  fp_FirmwareVersion :: string
  fp_DownloadURL :: string

record CommandACK =
  ack_CommandID :: string
  ack_Status :: CommandACKStatus
  ack_Message :: "string option"
  ack_Timestamp :: time

record GatewayAnomalyCommand =
  ac_Type :: AnomalyType
  ac_NetworkDegradation :: "NetworkDegradationParams option"
  ac_Disconnect :: "DisconnectParams option"

record SensorOutlierCommand =
  oc_SensorID :: uuid
  oc_Value :: "float64 option"

end
