(* ===== verification/Go_Json.thy ===== *)
theory Go_Json
  imports Sim_Domain
begin

text \<open>
  What the code uses of \<^verbatim>\<open>encoding/json\<close>: JSON values, the decoding of an object into a
  struct (member by member, unknown members skipped, the last duplicate wins, the first type
  mismatch is the error) and the encoders of the structs the simulator sends. The text of a JSON
  document and of a timestamp are the library's: they are parameters, in the record \<open>libs\<close>.
\<close>

datatype json =
    JNull
  | JBool bool
  | JInt int      \<comment> \<open>a number literal with no fraction and no exponent\<close>
  | JDec rat      \<comment> \<open>any other number literal, by its value\<close>
  | JStr string
  | JArr "json list"
  | JObj "(string \<times> json) list"

text \<open>
  The libraries the code calls: google/uuid, the text forms of JSON and of times, and
  \<^verbatim>\<open>math.Sin\<close>, whose last digits the language leaves to the platform.
\<close>

record libs =
  uuid_String :: "uuid \<Rightarrow> string"
  uuid_Parse :: "string \<Rightarrow> uuid option"
  time_text :: "time \<Rightarrow> string"
  time_parse :: "string \<Rightarrow> time option"
  json_text :: "json \<Rightarrow> bytes"
  json_parse :: "bytes \<Rightarrow> json option"
  math_Sin :: "float64 \<Rightarrow> float64"

text \<open>The documented law of google/uuid the code relies on: a printed UUID parses back.\<close>

definition uuid_lawful :: "'x libs_scheme \<Rightarrow> bool" where
  "uuid_lawful L \<longleftrightarrow> (\<forall>u. uuid_Parse L (uuid_String L u) = Some u)"

definition time_lawful :: "'x libs_scheme \<Rightarrow> bool" where
  "time_lawful L \<longleftrightarrow> (\<forall>t. time_parse L (time_text L t) = Some t)"

text \<open>\<^verbatim>\<open>math.Sin\<close> of a finite number lies between -1 and 1.\<close>

definition sin_lawful :: "'x libs_scheme \<Rightarrow> bool" where
  "sin_lawful L \<longleftrightarrow>
     (\<forall>x. is_finite x \<longrightarrow> (\<exists>q. math_Sin L x = Finite q \<and> representable q \<and> \<bar>q\<bar> \<le> 1))"

lemma uuid_String_inject: "uuid_lawful L \<Longrightarrow> uuid_String L u = uuid_String L v \<longleftrightarrow> u = v"
  by (metis option.inject uuid_lawful_def)

subsection \<open>Decoding\<close>

fun json_kind :: "json \<Rightarrow> string" where
  "json_kind JNull = ''null''"
| "json_kind (JBool _) = ''bool''"
| "json_kind (JInt _) = ''number''"
| "json_kind (JDec _) = ''number''"
| "json_kind (JStr _) = ''string''"
| "json_kind (JArr _) = ''array''"
| "json_kind (JObj _) = ''object''"

definition type_mismatch :: "json \<Rightarrow> string \<Rightarrow> go_error" where
  "type_mismatch j t = Plain (''json: cannot unmarshal '' @ json_kind j @ '' into Go value of type '' @ t)"

definition syntax_error :: go_error where
  "syntax_error = Plain ''unexpected end of JSON input''"

fun decode_int :: "json \<Rightarrow> int64 result" where
  "decode_int (JInt n) =
     (if min_int64 \<le> n \<and> n \<le> max_int64 then Inr (of_int n) else Inl (type_mismatch (JInt n) ''int''))"
| "decode_int j = Inl (type_mismatch j ''int'')"

fun decode_string :: "json \<Rightarrow> string result" where
  "decode_string (JStr s) = Inr s"
| "decode_string j = Inl (type_mismatch j ''string'')"

definition decode_number :: "json \<Rightarrow> rat \<Rightarrow> float64 result" where
  "decode_number j q =
     (if is_finite (f64_of q) then Inr (f64_of q) else Inl (type_mismatch j ''float64''))"

fun decode_float :: "json \<Rightarrow> float64 result" where
  "decode_float (JInt n) = decode_number (JInt n) (of_int n)"
| "decode_float (JDec q) = decode_number (JDec q) q"
| "decode_float j = Inl (type_mismatch j ''float64'')"

fun decode_time :: "'x libs_scheme \<Rightarrow> json \<Rightarrow> time result" where
  "decode_time L (JStr s) =
     (case time_parse L s of Some t \<Rightarrow> Inr t | None \<Rightarrow> Inl (Plain (''parsing time '' @ s)))"
| "decode_time L j = Inl (Plain ''Time.UnmarshalJSON: input is not a JSON string'')"

text \<open>A null leaves a plain field as it is and sets a pointer field to nil.\<close>

definition plain_field ::
  "(json \<Rightarrow> 'a result) \<Rightarrow> ('a \<Rightarrow> 'r \<Rightarrow> 'r) \<Rightarrow> json \<Rightarrow> 'r \<Rightarrow> 'r result" where
  "plain_field dec upd j r =
     (if j = JNull then Inr r else case dec j of Inl e \<Rightarrow> Inl e | Inr v \<Rightarrow> Inr (upd v r))"

definition pointer_field ::
  "(json \<Rightarrow> 'a result) \<Rightarrow> ('a option \<Rightarrow> 'r \<Rightarrow> 'r) \<Rightarrow> json \<Rightarrow> 'r \<Rightarrow> 'r result" where
  "pointer_field dec upd j r =
     (if j = JNull then Inr (upd None r)
      else case dec j of Inl e \<Rightarrow> Inl e | Inr v \<Rightarrow> Inr (upd (Some v) r))"

text \<open>
  Member names match a field's tag exactly or, failing that, up to case; the two letters outside
  ASCII that fold to an ASCII one (long s and the Kelvin sign, in UTF-8) fold too.
\<close>

definition to_lower :: "char \<Rightarrow> char" where
  "to_lower c = (let n = of_char c :: nat in if 65 \<le> n \<and> n \<le> 90 then char_of (n + 32) else c)"

fun fold_name :: "string \<Rightarrow> string" where
  "fold_name [] = []"
| "fold_name (a # b # c # s) =
     (if a = CHR 0xC5 \<and> b = CHR 0xBF then CHR ''s'' # fold_name (c # s)
      else if a = CHR 0xE2 \<and> b = CHR 0x84 \<and> c = CHR 0xAA then CHR ''k'' # fold_name s
      else to_lower a # fold_name (b # c # s))"
| "fold_name [a, b] =
     (if a = CHR 0xC5 \<and> b = CHR 0xBF then ''s'' else [to_lower a, to_lower b])"
| "fold_name [a] = [to_lower a]"

type_synonym 'r field = "string \<times> (json \<Rightarrow> 'r \<Rightarrow> 'r result)"

definition find_field :: "'r field list \<Rightarrow> string \<Rightarrow> (json \<Rightarrow> 'r \<Rightarrow> 'r result) option" where
  "find_field fs k =
     (case map_of fs k of
        Some f \<Rightarrow> Some f
      | None \<Rightarrow> map_option snd (List.find (\<lambda>(n, _). fold_name n = fold_name k) fs))"

text \<open>Decoding goes on after a mismatch and reports the first one.\<close>

fun decode_members ::
  "'r field list \<Rightarrow> (string \<times> json) list \<Rightarrow> 'r \<Rightarrow> go_error option \<Rightarrow> 'r result" where
  "decode_members fs [] r None = Inr r"
| "decode_members fs [] r (Some e) = Inl e"
| "decode_members fs ((k, j) # ms) r err =
     (case find_field fs k of
        None \<Rightarrow> decode_members fs ms r err
      | Some f \<Rightarrow>
          (case f j r of
             Inl e \<Rightarrow> decode_members fs ms r (case err of None \<Rightarrow> Some e | Some e' \<Rightarrow> Some e')
           | Inr r' \<Rightarrow> decode_members fs ms r' err))"

definition decode_struct :: "string \<Rightarrow> 'r field list \<Rightarrow> 'r \<Rightarrow> json option \<Rightarrow> 'r result" where
  "decode_struct name fs zero doc =
     (case doc of
        None \<Rightarrow> Inl syntax_error
      | Some JNull \<Rightarrow> Inr zero
      | Some (JObj ms) \<Rightarrow> decode_members fs ms zero None
      | Some j \<Rightarrow> Inl (type_mismatch j name))"

lemma decode_members_error_sticks: "decode_members fs ms r (Some e) = Inl e"
  by (induction fs ms r "Some e" rule: decode_members.induct) (auto split: option.splits sum.splits)

subsection \<open>The payloads of the commands\<close>

definition config_payload_fields :: "CommandConfigPayload field list" where
  "config_payload_fields =
     [(''send_frequency_ms'', pointer_field decode_int (\<lambda>v. cp_SendFrequencyMs_update (\<lambda>_. v))),
      (''status'', pointer_field decode_string (\<lambda>v. cp_Status_update (\<lambda>_. v)))]"

definition unmarshal_CommandConfigPayload :: "json option \<Rightarrow> CommandConfigPayload result" where
  "unmarshal_CommandConfigPayload =
     decode_struct ''domain.CommandConfigPayload'' config_payload_fields
       \<lparr>cp_SendFrequencyMs = None, cp_Status = None\<rparr>"

definition firmware_payload_fields :: "CommandFirmwarePayload field list" where
  "firmware_payload_fields =
     [(''firmware_version'', plain_field decode_string (\<lambda>v. fp_FirmwareVersion_update (\<lambda>_. v))),
      (''download_url'', plain_field decode_string (\<lambda>v. fp_DownloadURL_update (\<lambda>_. v)))]"

definition unmarshal_CommandFirmwarePayload :: "json option \<Rightarrow> CommandFirmwarePayload result" where
  "unmarshal_CommandFirmwarePayload =
     decode_struct ''domain.CommandFirmwarePayload'' firmware_payload_fields
       \<lparr>fp_FirmwareVersion = '''', fp_DownloadURL = ''''\<rparr>"

text \<open>The command itself: its payload stays raw JSON, absent when the member is absent.\<close>

record IncomingCommand =
  ic_CommandID :: string
  ic_Type :: CommandType
  ic_Payload :: "json option"
  ic_IssuedAt :: time

definition incoming_command_fields :: "'x libs_scheme \<Rightarrow> IncomingCommand field list" where
  "incoming_command_fields L =
     [(''command_id'', plain_field decode_string (\<lambda>v. ic_CommandID_update (\<lambda>_. v))),
      (''type'', plain_field decode_string (\<lambda>v. ic_Type_update (\<lambda>_. v))),
      (''payload'', \<lambda>j r. Inr (r\<lparr>ic_Payload := Some j\<rparr>)),
      (''issued_at'', plain_field (decode_time L) (\<lambda>v. ic_IssuedAt_update (\<lambda>_. v)))]"

definition unmarshal_IncomingCommand :: "'x libs_scheme \<Rightarrow> json option \<Rightarrow> IncomingCommand result" where
  "unmarshal_IncomingCommand L =
     decode_struct ''domain.IncomingCommand'' (incoming_command_fields L)
       \<lparr>ic_CommandID = '''', ic_Type = '''', ic_Payload = None, ic_IssuedAt = 0\<rparr>"

subsection \<open>Encoding\<close>

text \<open>
  \<^verbatim>\<open>json.Marshal\<close> fails on an infinite or NaN float and on a time outside the years 0 to
  9999. A finite float is written as a decimal that reads back as the same float.
\<close>

fun encode_float :: "float64 \<Rightarrow> json result" where
  "encode_float (Finite x) = Inr (JDec x)"
| "encode_float x = Inl (Plain (''json: unsupported value: '' @ fmt_2f x))"

definition encode_time :: "'x libs_scheme \<Rightarrow> time \<Rightarrow> json result" where
  "encode_time L t =
     (if - 31622400000000000 \<le> t \<and> t < 315537897600000000000 then Inr (JStr (time_text L t))
      else Inl (Plain ''Time.MarshalJSON: year outside of range [0,9999]''))"

definition marshal_TelemetryEnvelope :: "'x libs_scheme \<Rightarrow> TelemetryEnvelope \<Rightarrow> bytes result" where
  "marshal_TelemetryEnvelope L e =
     (case encode_time L (te_Timestamp e) of
        Inl err \<Rightarrow> Inl err
      | Inr ts \<Rightarrow> Inr (json_text L (JObj
          [(''gatewayId'', JStr (te_GatewayID e)), (''sensorId'', JStr (te_SensorID e)),
           (''sensorType'', JStr (te_SensorType e)), (''timestamp'', ts),
           (''keyVersion'', JInt (sint (te_KeyVersion e))),
           (''encryptedData'', JStr (te_EncryptedData e)), (''iv'', JStr (te_IV e)),
           (''authTag'', JStr (te_AuthTag e))])))"

definition marshal_CommandACK :: "'x libs_scheme \<Rightarrow> CommandACK \<Rightarrow> bytes result" where
  "marshal_CommandACK L a =
     (case encode_time L (ack_Timestamp a) of
        Inl err \<Rightarrow> Inl err
      | Inr ts \<Rightarrow> Inr (json_text L (JObj
          ([(''command_id'', JStr (ack_CommandID a)), (''status'', JStr (ack_Status a))]
           @ (case ack_Message a of None \<Rightarrow> [] | Some m \<Rightarrow> [(''message'', JStr m)])
           @ [(''timestamp'', ts)]))))"

end
