(* ===== verification/Runtime.thy ===== *)
theory Runtime
  imports Go_Json
begin

text \<open>
  What the code reads from outside and what it counts. The clock (\<^verbatim>\<open>ports.Nower\<close>), the random
  source, the encryptor, the provisioning service and the message broker are oracles: total
  functions of the number of reads made so far, so that every sequence of answers is one of them.
  The metrics are those of \<^verbatim>\<open>internal/metrics/metrics.go\<close>; each vector is a function of its label.
\<close>

record env =
  env_clock :: "nat \<Rightarrow> time"
  env_rand :: "nat \<Rightarrow> float64"
  env_uuid :: "nat \<Rightarrow> uuid"
  env_publish :: "nat \<Rightarrow> go_error option"
  env_encrypt :: "nat \<Rightarrow> EncryptionKey \<Rightarrow> bytes \<Rightarrow> EncryptedPayload result"
  env_onboard :: "nat \<Rightarrow> string \<Rightarrow> string \<Rightarrow> int64 \<Rightarrow> string \<Rightarrow> ProvisionResult result"
  env_connect :: "nat \<Rightarrow> bytes \<Rightarrow> bytes \<Rightarrow> string \<Rightarrow> uuid \<Rightarrow> unit result"
  env_pos :: nat

definition env_tick :: "env \<Rightarrow> env" where
  "env_tick e = e\<lparr>env_pos := Suc (env_pos e)\<rparr>"

definition clock_Now :: "env \<Rightarrow> time \<times> env" where
  "clock_Now e = (env_clock e (env_pos e), env_tick e)"

definition rand_Float64 :: "env \<Rightarrow> float64 \<times> env" where
  "rand_Float64 e = (env_rand e (env_pos e), env_tick e)"

definition uuid_New :: "env \<Rightarrow> uuid \<times> env" where
  "uuid_New e = (env_uuid e (env_pos e), env_tick e)"

text \<open>The documented range of \<^verbatim>\<open>rand.Float64\<close>: a float in [0, 1).\<close>

definition rand_lawful :: "env \<Rightarrow> bool" where
  "rand_lawful e \<longleftrightarrow>
     (\<forall>n. \<exists>q. env_rand e n = Finite q \<and> representable q \<and> 0 \<le> q \<and> q < 1)"

lemma rand_lawfulD:
  assumes "rand_lawful e"
  obtains q where "fst (rand_Float64 e) = Finite q" "representable q" "0 \<le> q" "q < 1"
  using assms unfolding rand_lawful_def rand_Float64_def by force

lemma env_oracles_tick [simp]:
  "env_clock (env_tick e) = env_clock e" "env_rand (env_tick e) = env_rand e"
  "env_uuid (env_tick e) = env_uuid e" "env_publish (env_tick e) = env_publish e"
  "env_encrypt (env_tick e) = env_encrypt e" "env_onboard (env_tick e) = env_onboard e"
  "env_connect (env_tick e) = env_connect e"
  by (simp_all add: env_tick_def)

lemma rand_lawful_tick [simp]: "rand_lawful (env_tick e) = rand_lawful e"
  by (simp add: rand_lawful_def)

lemma snd_reads [simp]:
  "snd (clock_Now e) = env_tick e" "snd (rand_Float64 e) = env_tick e" "snd (uuid_New e) = env_tick e"
  by (simp_all add: clock_Now_def rand_Float64_def uuid_New_def)

record metrics =
  GatewaysRunning :: int
  EnvelopesPublished :: "string \<Rightarrow> nat"
  PublishErrors :: "string \<Rightarrow> nat"
  BufferDropped :: "string \<Rightarrow> nat"
  BufferFill :: "string \<Rightarrow> nat"
  ProvisioningSuccess :: nat
  ProvisioningErrors :: nat
  NATSReconnects :: "string \<Rightarrow> nat"
  AnomaliesInjected :: "string \<Rightarrow> nat"

definition NewMetrics :: metrics where
  "NewMetrics =
     \<lparr>GatewaysRunning = 0, EnvelopesPublished = (\<lambda>_. 0), PublishErrors = (\<lambda>_. 0),
      BufferDropped = (\<lambda>_. 0), BufferFill = (\<lambda>_. 0), ProvisioningSuccess = 0,
      ProvisioningErrors = 0, NATSReconnects = (\<lambda>_. 0), AnomaliesInjected = (\<lambda>_. 0)\<rparr>"

text \<open>The metrics of the tests, registered with a registry of their own.\<close>

definition NewTestMetrics :: metrics where
  "NewTestMetrics =
     \<lparr>GatewaysRunning = 0, EnvelopesPublished = (\<lambda>_. 0), PublishErrors = (\<lambda>_. 0),
      BufferDropped = (\<lambda>_. 0), BufferFill = (\<lambda>_. 0), ProvisioningSuccess = 0,
      ProvisioningErrors = 0, NATSReconnects = (\<lambda>_. 0), AnomaliesInjected = (\<lambda>_. 0)\<rparr>"

definition bump :: "string \<Rightarrow> (string \<Rightarrow> nat) \<Rightarrow> string \<Rightarrow> nat" where
  "bump g f = f(g := Suc (f g))"

lemma bump_apply [simp]: "bump g f h = (if h = g then Suc (f h) else f h)"
  by (simp add: bump_def)

end
