(* ===== verification/Nats_Publisher.thy ===== *)
theory Nats_Publisher
  imports Runtime
begin

text \<open>
  \<^verbatim>\<open>internal/adapters/nats/publisher.go\<close>: the publisher holds a connection and its JetStream
  context; \<open>pub_log\<close> is what the broker has accepted from it, oldest first. \<^verbatim>\<open>Close\<close> sets
  both references to nil, and a \<^verbatim>\<open>Publish\<close> on a nil context is a nil pointer dereference.
\<close>

record NATSGatewayPublisher =
  pub_nc :: bool
  pub_js :: bool
  pub_log :: "(string \<times> bytes) list"

definition NewNATSGatewayPublisher :: "unit result \<Rightarrow> NATSGatewayPublisher result" where
  "NewNATSGatewayPublisher js =
     (case js of
        Inl e \<Rightarrow> Inl (Wrap ''create JetStream context: '' e '''')
      | Inr _ \<Rightarrow> Inr \<lparr>pub_nc = True, pub_js = True, pub_log = []\<rparr>)"

definition nil_dereference :: string where
  "nil_dereference = ''runtime error: invalid memory address or nil pointer dereference''"

definition publisher_Publish ::
  "string \<Rightarrow> bytes \<Rightarrow> NATSGatewayPublisher \<Rightarrow> env \<Rightarrow> (unit result \<times> NATSGatewayPublisher \<times> env) go" where
  "publisher_Publish subject payload p e =
     (if \<not> pub_js p then Panic nil_dereference
      else case env_publish e (env_pos e) of
             Some err \<Rightarrow> Return (Inl (Wrap (''publish message to '' @ subject @ '': '') err ''''), p, env_tick e)
           | None \<Rightarrow> Return (Inr (), p\<lparr>pub_log := pub_log p @ [(subject, payload)]\<rparr>, env_tick e))"

definition publisher_Close :: "NATSGatewayPublisher \<Rightarrow> NATSGatewayPublisher" where
  "publisher_Close p = p\<lparr>pub_nc := False, pub_js := False\<rparr>"

text \<open>
  \<^verbatim>\<open>Reconnect\<close>: the context's error, the time left to its deadline (None without one), and what
  \<^verbatim>\<open>nats.Connect\<close> and \<^verbatim>\<open>JetStream\<close> answer.
\<close>

definition publisher_Reconnect ::
  "go_error option \<Rightarrow> duration option \<Rightarrow> unit result \<Rightarrow> unit result
     \<Rightarrow> NATSGatewayPublisher \<Rightarrow> unit result \<times> NATSGatewayPublisher" where
  "publisher_Reconnect ctx_err deadline connect jetstream p =
     (case ctx_err of
        Some e \<Rightarrow> (Inl e, p)
      | None \<Rightarrow>
          if (case deadline of None \<Rightarrow> False | Some d \<Rightarrow> sint d \<le> 0)
          then (Inl (Plain ''context deadline exceeded''), p)
          else case connect of
            Inl e \<Rightarrow> (Inl (Wrap ''reconnect to NATS: '' e ''''), p)
          | Inr _ \<Rightarrow>
              (case jetstream of
                 Inl e \<Rightarrow> (Inl (Wrap ''create JetStream context after reconnect: '' e ''''), p)
               | Inr _ \<Rightarrow> (Inr (), p\<lparr>pub_nc := True, pub_js := True\<rparr>)))"

lemma publish_returns: "returns (publisher_Publish subject payload p e) = pub_js p"
  by (auto simp: publisher_Publish_def split: option.splits)

lemma publish_closed_panics: "\<not> pub_js p \<Longrightarrow> publisher_Publish subject payload p e = Panic nil_dereference"
  by (simp add: publisher_Publish_def)

lemma publish_frame:
  assumes "publisher_Publish subject payload p e = Return (r, p', e')"
  shows "pub_js p" and "pub_js p'" and "e' = env_tick e"
    and "pub_log p' = pub_log p @ (if isl r then [] else [(subject, payload)])"
  using assms by (auto simp: publisher_Publish_def split: if_splits option.splits)

lemma publisher_Close_simps [simp]:
  "\<not> pub_js (publisher_Close p)" "pub_log (publisher_Close p) = pub_log p"
  by (simp_all add: publisher_Close_def)

end
