(* ===== verification/Message_Buffer.thy ===== *)
theory Message_Buffer
  imports Go_Channel Nats_Publisher
begin

text \<open>
  \<^verbatim>\<open>internal/app/buffer.go\<close>: the bounded outbound buffer of a gateway. \<^verbatim>\<open>Send\<close> is called by
  the worker's loop only; \<^verbatim>\<open>Flush\<close> runs in a goroutine of its own and takes messages out at the
  same time. \<^verbatim>\<open>Send\<close> is therefore modelled with the interference the flusher can cause between
  its three channel operations, and \<^verbatim>\<open>Flush\<close> one loop iteration at a time.
\<close>

record MessageBuffer =
  mb_ch :: "bytes chan"
  mb_subject :: string
  mb_gatewayID :: string

text \<open>
  What \<^verbatim>\<open>make(chan []byte, n)\<close> accepts on a 64-bit platform with 48 bits of addresses: the header of 96
  bytes and a slice header of 24 bytes for each element have to fit into the address space. For any other
  \<^verbatim>\<open>n\<close> the runtime's \<^verbatim>\<open>makechan\<close> panics. A machine that has less memory than it was asked
  for is not modelled.
\<close>

definition bytes_chan_fits :: "int \<Rightarrow> bool" where
  "bytes_chan_fits n \<longleftrightarrow> 0 \<le> n \<and> 96 + 24 * n \<le> 2 ^ 48"

definition NewMessageBuffer :: "int64 \<Rightarrow> string \<Rightarrow> string \<Rightarrow> MessageBuffer go" where
  "NewMessageBuffer capacity subject gatewayID =
     (if \<not> bytes_chan_fits (sint capacity) then Panic ''makechan: size out of range''
      else Return \<lparr>mb_ch = make_chan (nat (sint capacity)), mb_subject = subject, mb_gatewayID = gatewayID\<rparr>)"

text \<open>
  The three channel operations of \<^verbatim>\<open>Send\<close> and its last line: the insertion that is tried
  first and last, the eviction of the oldest message, which counts a drop, and the gauge.
\<close>

definition send_insert :: "bytes \<Rightarrow> MessageBuffer \<Rightarrow> MessageBuffer option" where
  "send_insert payload b = map_option (\<lambda>c. b\<lparr>mb_ch := c\<rparr>) (try_send payload (mb_ch b))"

definition send_evict :: "MessageBuffer \<times> metrics \<Rightarrow> MessageBuffer \<times> metrics" where
  "send_evict bm =
     (let (b, m) = bm
      in case try_recv (mb_ch b) of
           Some (_, c) \<Rightarrow> (b\<lparr>mb_ch := c\<rparr>, m\<lparr>BufferDropped := bump (mb_gatewayID b) (BufferDropped m)\<rparr>)
         | None \<Rightarrow> (b, m))"

definition send_gauge :: "MessageBuffer \<Rightarrow> metrics \<Rightarrow> metrics" where
  "send_gauge b m = m\<lparr>BufferFill := (BufferFill m)(mb_gatewayID b := chan_len (mb_ch b))\<rparr>"

text \<open>\<^verbatim>\<open>Send\<close> when the flusher does not run in between.\<close>

definition Send :: "bytes \<Rightarrow> MessageBuffer \<times> metrics \<Rightarrow> MessageBuffer \<times> metrics" where
  "Send payload bm =
     (let (b, m) =
        (case send_insert payload (fst bm) of
           Some b \<Rightarrow> (b, snd bm)
         | None \<Rightarrow>
             let (b, m) = send_evict bm
             in (case send_insert payload b of Some b' \<Rightarrow> b' | None \<Rightarrow> b, m))
      in (b, send_gauge b m))"

text \<open>
  One iteration of the loop of \<^verbatim>\<open>Flush\<close>. When the context is done and a message is waiting, the
  \<^verbatim>\<open>select\<close> may choose either; \<open>prefer_done\<close> says which.
\<close>

datatype 'a flush_outcome = Flush_exits | Flush_blocks | Flush_loops 'a

definition Flush_iteration ::
  "bool \<Rightarrow> bool \<Rightarrow> MessageBuffer \<times> NATSGatewayPublisher \<times> metrics \<times> env
     \<Rightarrow> (MessageBuffer \<times> NATSGatewayPublisher \<times> metrics \<times> env) flush_outcome go" where
  "Flush_iteration ctx_done prefer_done s =
     (let (b, p, m, e) = s; g = mb_gatewayID b
      in if ctx_done \<and> (prefer_done \<or> ch_buf (mb_ch b) = []) then Return Flush_exits
         else case try_recv (mb_ch b) of
             None \<Rightarrow> Return Flush_blocks
           | Some (msg, c) \<Rightarrow>
               go_bind (publisher_Publish (mb_subject b) msg p e) (\<lambda>(r, p, e).
                 let b = b\<lparr>mb_ch := c\<rparr>;
                     m = (if isl r then m\<lparr>PublishErrors := bump g (PublishErrors m)\<rparr>
                          else m\<lparr>EnvelopesPublished := bump g (EnvelopesPublished m)\<rparr>);
                     m = m\<lparr>BufferFill := (BufferFill m)(g := chan_len c)\<rparr>
                 in Return (Flush_loops (b, p, m, e))))"

text \<open>The loop run until it blocks, with the context alive, for at most \<open>n\<close> iterations.\<close>

fun Flush_run ::
  "nat \<Rightarrow> MessageBuffer \<times> NATSGatewayPublisher \<times> metrics \<times> env
     \<Rightarrow> (MessageBuffer \<times> NATSGatewayPublisher \<times> metrics \<times> env) go" where
  "Flush_run 0 s = Return s"
| "Flush_run (Suc n) s =
     go_bind (Flush_iteration False False s)
       (\<lambda>out. case out of Flush_loops s' \<Rightarrow> Flush_run n s' | _ \<Rightarrow> Return s)"

subsection \<open>Send alone: a sliding window\<close>

abbreviation mb_contents :: "MessageBuffer \<Rightarrow> bytes list" where
  "mb_contents b \<equiv> ch_buf (mb_ch b)"

abbreviation mb_capacity :: "MessageBuffer \<Rightarrow> nat" where
  "mb_capacity b \<equiv> ch_cap (mb_ch b)"

definition buffer_ok :: "MessageBuffer \<Rightarrow> bool" where
  "buffer_ok b \<longleftrightarrow> chan_ok (mb_ch b) \<and> 0 < mb_capacity b"

lemma NewMessageBuffer_ok [inv_intros]:
  "0 < sint capacity \<Longrightarrow> NewMessageBuffer capacity subject g = Return b \<Longrightarrow> buffer_ok b"
  by (auto simp: NewMessageBuffer_def buffer_ok_def chan_ok_make split: if_splits)

lemma NewMessageBuffer_Return:
  "NewMessageBuffer capacity subject g = Return b \<longleftrightarrow>
     bytes_chan_fits (sint capacity) \<and>
     b = \<lparr>mb_ch = make_chan (nat (sint capacity)), mb_subject = subject, mb_gatewayID = g\<rparr>"
  by (auto simp: NewMessageBuffer_def)

text \<open>What the buffer promises: the last \<open>n\<close> messages, in order.\<close>

definition window :: "nat \<Rightarrow> 'a list \<Rightarrow> 'a list" where
  "window n xs = drop (length xs - n) xs"

lemma window_snoc: "window n (window n xs @ [x]) = window n (xs @ [x])"
  by (cases "length xs \<le> n") (auto simp: window_def Suc_diff_le)

lemma send_insert_eq:
  "send_insert payload b =
     (if length (mb_contents b) < mb_capacity b
      then Some (b\<lparr>mb_ch := Chan (mb_capacity b) (mb_contents b @ [payload])\<rparr>) else None)"
  by (simp add: send_insert_def try_send_def)

lemma send_evict_eq:
  "send_evict (b, m) =
     (case mb_contents b of
        [] \<Rightarrow> (b, m)
      | _ # xs \<Rightarrow> (b\<lparr>mb_ch := Chan (mb_capacity b) xs\<rparr>,
                  m\<lparr>BufferDropped := bump (mb_gatewayID b) (BufferDropped m)\<rparr>))"
  by (auto simp: send_evict_def try_recv_def split: list.splits)

lemma Send_frame:
  assumes "Send payload (b, m) = (b', m')"
  shows "mb_capacity b' = mb_capacity b" "mb_gatewayID b' = mb_gatewayID b" "mb_subject b' = mb_subject b"
    "GatewaysRunning m' = GatewaysRunning m" "EnvelopesPublished m' = EnvelopesPublished m"
    "PublishErrors m' = PublishErrors m" "ProvisioningErrors m' = ProvisioningErrors m"
    "ProvisioningSuccess m' = ProvisioningSuccess m"
  using assms
  by (auto simp: Send_def Let_def send_insert_eq send_evict_eq send_gauge_def
      split: if_splits list.splits option.splits prod.splits)

lemma Send_contents:
  assumes "buffer_ok b" and "Send payload (b, m) = (b', m')"
  shows "mb_contents b' = window (mb_capacity b) (mb_contents b @ [payload])" (is ?c)
    and "BufferDropped m' = (if length (mb_contents b) < mb_capacity b then BufferDropped m
      else bump (mb_gatewayID b) (BufferDropped m))" (is ?d)
    and "BufferFill m' (mb_gatewayID b) = length (mb_contents b')" (is ?f)
proof -
  have "?c \<and> ?d \<and> ?f"
    using assms
    by (auto simp: Send_def Let_def send_insert_eq send_evict_eq send_gauge_def buffer_ok_def chan_ok_def
        chan_len_def window_def Suc_diff_le split: if_splits list.splits option.splits prod.splits)
  then show ?c ?d ?f by blast+
qed

lemma Send_ok [inv_intros]:
  assumes "buffer_ok b" and "Send payload (b, m) = (b', m')"
  shows "buffer_ok b'"
  using assms Send_contents(1) [OF assms] Send_frame(1) [OF assms(2)]
  by (auto simp: buffer_ok_def chan_ok_def window_def)

text \<open>A burst of sends.\<close>

fun Send_all :: "bytes list \<Rightarrow> MessageBuffer \<times> metrics \<Rightarrow> MessageBuffer \<times> metrics" where
  "Send_all [] bm = bm"
| "Send_all (p # ps) bm = Send_all ps (Send p bm)"

lemma window_window_append: "window n (window n xs @ ys) = window n (xs @ ys)"
proof (induction ys rule: rev_induct)
  case Nil
  then show ?case by (simp add: window_def)
next
  case (snoc y ys)
  have "window n (window n xs @ ys @ [y]) = window n (window n (window n xs @ ys) @ [y])"
    by (simp add: window_snoc)
  then show ?case by (simp add: snoc window_snoc)
qed

lemma Send_all_contents:
  assumes "buffer_ok b" and "Send_all ps (b, m) = (b', m')"
  shows "mb_contents b' = window (mb_capacity b) (mb_contents b @ ps) \<and>
    BufferDropped m' (mb_gatewayID b) =
      BufferDropped m (mb_gatewayID b) + (length (mb_contents b) + length ps - mb_capacity b)"
  using assms
proof (induction ps arbitrary: b m)
  case Nil
  then show ?case by (auto simp: window_def buffer_ok_def chan_ok_def)
next
  case (Cons p ps)
  obtain b1 m1 where s: "Send p (b, m) = (b1, m1)" by force
  note fr = Send_frame [OF s] and co = Send_contents [OF Cons.prems(1) s]
  from Cons.prems(2) s have "Send_all ps (b1, m1) = (b', m')" by simp
  from Cons.IH [OF Send_ok [OF Cons.prems(1) s] this] fr co
  have "mb_contents b' = window (mb_capacity b) (mb_contents b @ p # ps)"
    and d: "BufferDropped m' (mb_gatewayID b) =
      BufferDropped m1 (mb_gatewayID b) + (length (mb_contents b1) + length ps - mb_capacity b)"
    using window_window_append [of "mb_capacity b" "mb_contents b @ [p]" ps] by auto
  moreover have "length (mb_contents b1) = min (mb_capacity b) (Suc (length (mb_contents b)))"
    using co(1) by (auto simp: window_def)
  ultimately show ?case using co(2) Cons.prems(1) by (auto simp: buffer_ok_def chan_ok_def)
qed

subsection \<open>Flush alone: the buffer drains in order\<close>

lemma Flush_iteration_loops:
  assumes "mb_contents b = x # xs" and "pub_js p" and "\<not> (ctx_done \<and> prefer_done)"
  shows "Flush_iteration ctx_done prefer_done (b, p, m, e) =
    (let g = mb_gatewayID b; ok = (env_publish e (env_pos e) = None);
         p' = (if ok then p\<lparr>pub_log := pub_log p @ [(mb_subject b, x)]\<rparr> else p);
         m' = (if ok then m\<lparr>EnvelopesPublished := bump g (EnvelopesPublished m)\<rparr>
               else m\<lparr>PublishErrors := bump g (PublishErrors m)\<rparr>)
     in Return (Flush_loops (b\<lparr>mb_ch := Chan (mb_capacity b) xs\<rparr>, p',
          m'\<lparr>BufferFill := (BufferFill m')(g := length xs)\<rparr>, env_tick e)))"
  using assms
  by (auto simp: Flush_iteration_def Let_def try_recv_def publisher_Publish_def chan_len_def
      split: option.splits)

lemma Flush_iteration_loopsD:
  assumes "Flush_iteration ctx_done prefer_done (b, p, m, e) = Return (Flush_loops s')"
  obtains x xs where "mb_contents b = x # xs" "pub_js p" "\<not> (ctx_done \<and> prefer_done)"
  using assms
  by (auto simp: Flush_iteration_def Let_def try_recv_def go_bind_eq_Return publisher_Publish_def
      split: if_splits list.splits)

text \<open>The messages the broker accepts when the \<open>n\<close>-th publish is the first one.\<close>

fun accepted :: "(nat \<Rightarrow> go_error option) \<Rightarrow> nat \<Rightarrow> bytes list \<Rightarrow> bytes list" where
  "accepted f n [] = []"
| "accepted f n (x # xs) = (if f n = None then x # accepted f (Suc n) xs else accepted f (Suc n) xs)"

lemma length_accepted: "length (accepted f n xs) \<le> length xs"
  by (induction xs arbitrary: n) (auto simp: le_SucI)

lemma Flush_run_drains:
  assumes "pub_js p"
  shows "\<exists>b' p' m' e'. Flush_run (length (mb_contents b)) (b, p, m, e) = Return (b', p', m', e') \<and>
    mb_contents b' = [] \<and> pub_js p' \<and>
    pub_log p' = pub_log p @ map (Pair (mb_subject b)) (accepted (env_publish e) (env_pos e) (mb_contents b)) \<and>
    EnvelopesPublished m' (mb_gatewayID b) + PublishErrors m' (mb_gatewayID b) =
      EnvelopesPublished m (mb_gatewayID b) + PublishErrors m (mb_gatewayID b) + length (mb_contents b) \<and>
    EnvelopesPublished m' (mb_gatewayID b) =
      EnvelopesPublished m (mb_gatewayID b) + length (accepted (env_publish e) (env_pos e) (mb_contents b))"
  using assms
proof (induction "mb_contents b" arbitrary: b p m e)
  case Nil
  then show ?case by auto
next
  case (Cons x xs)
  let ?b = "b\<lparr>mb_ch := Chan (mb_capacity b) xs\<rparr>"
  let ?ok = "env_publish e (env_pos e) = None"
  define p1 where "p1 = (if ?ok then p\<lparr>pub_log := pub_log p @ [(mb_subject b, x)]\<rparr> else p)"
  define m1 where "m1 = (if ?ok then m\<lparr>EnvelopesPublished := bump (mb_gatewayID b) (EnvelopesPublished m)\<rparr>
               else m\<lparr>PublishErrors := bump (mb_gatewayID b) (PublishErrors m)\<rparr>)"
  let ?m = "m1\<lparr>BufferFill := (BufferFill m1)(mb_gatewayID b := length xs)\<rparr>"
  have it: "Flush_iteration False False (b, p, m, e) = Return (Flush_loops (?b, p1, ?m, env_tick e))"
    using Flush_iteration_loops [OF Cons.hyps(2) [symmetric] Cons.prems]
    by (simp add: Let_def p1_def m1_def)
  have p1: "pub_js p1" using Cons.prems by (simp add: p1_def)
  have "xs = mb_contents ?b" by simp
  from Cons.hyps(1) [OF this p1, of ?m "env_tick e"]
  show ?case
    using it by (simp add: Cons.hyps(2) [symmetric]) (auto simp: p1_def m1_def env_tick_def)
qed

subsection \<open>Send and Flush at the same time\<close>

text \<open>
  The loop goroutine is at one of the channel operations of \<^verbatim>\<open>Send\<close> while the flush goroutine
  may complete an iteration at any point. The history fields record every message handed to
  \<^verbatim>\<open>Send\<close> and, in the order they left the buffer, what became of the others.
\<close>

datatype send_pc = Send_idle | Send_evicts bytes | Send_inserts bytes | Send_gauges

datatype fate = Dropped | Published | Failed

record buf_sys =
  bs_buf :: MessageBuffer
  bs_pub :: NATSGatewayPublisher
  bs_metrics :: metrics
  bs_env :: env
  bs_pc :: send_pc
  bs_sent :: "bytes list"
  bs_out :: "(bytes \<times> fate) list"

definition buf_init :: "MessageBuffer \<Rightarrow> env \<Rightarrow> buf_sys" where
  "buf_init b e =
     \<lparr>bs_buf = b, bs_pub = \<lparr>pub_nc = True, pub_js = True, pub_log = []\<rparr>, bs_metrics = NewMetrics,
      bs_env = e, bs_pc = Send_idle, bs_sent = [], bs_out = []\<rparr>"

inductive buf_step :: "buf_sys \<Rightarrow> buf_sys \<Rightarrow> bool" where
  enter_room:
  "bs_pc s = Send_idle \<Longrightarrow> send_insert x (bs_buf s) = Some b \<Longrightarrow>
   buf_step s (s\<lparr>bs_buf := b, bs_pc := Send_gauges, bs_sent := bs_sent s @ [x]\<rparr>)"
| enter_full:
  "bs_pc s = Send_idle \<Longrightarrow> send_insert x (bs_buf s) = None \<Longrightarrow>
   buf_step s (s\<lparr>bs_pc := Send_evicts x, bs_sent := bs_sent s @ [x]\<rparr>)"
| evict:
  "bs_pc s = Send_evicts x \<Longrightarrow> send_evict (bs_buf s, bs_metrics s) = (b, m) \<Longrightarrow>
   buf_step s (s\<lparr>bs_buf := b, bs_metrics := m, bs_pc := Send_inserts x,
     bs_out := bs_out s @ map (\<lambda>y. (y, Dropped)) (take 1 (mb_contents (bs_buf s)))\<rparr>)"
| insert:
  "bs_pc s = Send_inserts x \<Longrightarrow>
   buf_step s (s\<lparr>bs_buf := (case send_insert x (bs_buf s) of Some b \<Rightarrow> b | None \<Rightarrow> bs_buf s),
     bs_pc := Send_gauges\<rparr>)"
| gauge:
  "bs_pc s = Send_gauges \<Longrightarrow>
   buf_step s (s\<lparr>bs_metrics := send_gauge (bs_buf s) (bs_metrics s), bs_pc := Send_idle\<rparr>)"
| flush:
  "Flush_iteration ctx_done prefer_done (bs_buf s, bs_pub s, bs_metrics s, bs_env s)
     = Return (Flush_loops (b, p, m, e)) \<Longrightarrow>
   buf_step s (s\<lparr>bs_buf := b, bs_pub := p, bs_metrics := m, bs_env := e,
     bs_out := bs_out s @ [(hd (mb_contents (bs_buf s)),
       if env_publish (bs_env s) (env_pos (bs_env s)) = None then Published else Failed)]\<rparr>)"

inductive buf_reachable :: "MessageBuffer \<Rightarrow> env \<Rightarrow> buf_sys \<Rightarrow> bool" for b e where
  buf_start: "buf_reachable b e (buf_init b e)"
| buf_more: "buf_reachable b e s \<Longrightarrow> buf_step s t \<Longrightarrow> buf_reachable b e t"

text \<open>The message \<^verbatim>\<open>Send\<close> holds and has not put into the buffer yet.\<close>

fun pending :: "send_pc \<Rightarrow> bytes list" where
  "pending (Send_evicts x) = [x]"
| "pending (Send_inserts x) = [x]"
| "pending _ = []"

definition fates :: "fate \<Rightarrow> buf_sys \<Rightarrow> bytes list" where
  "fates f s = map fst (filter (\<lambda>(_, g). g = f) (bs_out s))"

definition buf_inv :: "MessageBuffer \<Rightarrow> buf_sys \<Rightarrow> bool" where
  "buf_inv b0 s \<longleftrightarrow>
     buffer_ok (bs_buf s) \<and> mb_capacity (bs_buf s) = mb_capacity b0 \<and>
     mb_gatewayID (bs_buf s) = mb_gatewayID b0 \<and> mb_subject (bs_buf s) = mb_subject b0 \<and>
     pub_js (bs_pub s) \<and>
     (case bs_pc s of Send_inserts _ \<Rightarrow> length (mb_contents (bs_buf s)) < mb_capacity (bs_buf s) | _ \<Rightarrow> True) \<and>
     map fst (bs_out s) @ mb_contents (bs_buf s) @ pending (bs_pc s) = bs_sent s \<and>
     BufferDropped (bs_metrics s) (mb_gatewayID b0) = length (fates Dropped s) \<and>
     EnvelopesPublished (bs_metrics s) (mb_gatewayID b0) = length (fates Published s) \<and>
     PublishErrors (bs_metrics s) (mb_gatewayID b0) = length (fates Failed s) \<and>
     pub_log (bs_pub s) = map (Pair (mb_subject b0)) (fates Published s)"

lemma buf_inv_init:
  "buffer_ok b \<Longrightarrow> mb_contents b = [] \<Longrightarrow> buf_inv b (buf_init b e)"
  by (simp add: buf_inv_def buf_init_def fates_def NewMetrics_def)

lemma fates_simps [simp]:
  "fates f (s\<lparr>bs_out := xs\<rparr>) = map fst (filter (\<lambda>(_, g). g = f) xs)"
  "fates f (s\<lparr>bs_pc := pc\<rparr>) = fates f s" "fates f (s\<lparr>bs_sent := ys\<rparr>) = fates f s"
  "fates f (s\<lparr>bs_buf := b\<rparr>) = fates f s" "fates f (s\<lparr>bs_metrics := m\<rparr>) = fates f s"
  "fates f (s\<lparr>bs_pub := p\<rparr>) = fates f s" "fates f (s\<lparr>bs_env := e\<rparr>) = fates f s"
  by (simp_all add: fates_def)

lemma buf_step_inv:
  assumes "buf_step s t" and "buf_inv b0 s"
  shows "buf_inv b0 t"
  using assms
proof (induction rule: buf_step.induct)
  case (enter_room s x b)
  then show ?case
    by (auto simp: buf_inv_def buffer_ok_def chan_ok_def send_insert_eq split: if_splits)
next
  case (enter_full s x)
  then show ?case by (auto simp: buf_inv_def)
next
  case (evict s x b m)
  then show ?case
    by (auto simp: buf_inv_def buffer_ok_def chan_ok_def send_evict_eq fates_def split: list.splits)
next
  case (insert s x)
  then show ?case by (auto simp: buf_inv_def buffer_ok_def chan_ok_def send_insert_eq)
next
  case (gauge s)
  then show ?case by (auto simp: buf_inv_def send_gauge_def)
next
  case (flush ctx_done prefer_done s b p m e)
  from flush.hyps obtain x xs where c: "mb_contents (bs_buf s) = x # xs" "pub_js (bs_pub s)"
    "\<not> (ctx_done \<and> prefer_done)"
    by (rule Flush_iteration_loopsD)
  have pc: "case bs_pc s of Send_inserts _ \<Rightarrow> length xs < mb_capacity (bs_buf s) | _ \<Rightarrow> True"
    using flush.prems c(1) by (simp add: buf_inv_def split: send_pc.splits)
  show ?case
  proof (cases "env_publish (bs_env s) (env_pos (bs_env s))")
    case None
    then show ?thesis
      using flush.hyps flush.prems c(1) pc unfolding Flush_iteration_loops [OF c]
      by (cases "bs_pc s"; clarsimp simp: buf_inv_def buffer_ok_def chan_ok_def fates_def Let_def)
  next
    case (Some err)
    then show ?thesis
      using flush.hyps flush.prems c(1) pc unfolding Flush_iteration_loops [OF c]
      by (cases "bs_pc s"; clarsimp simp: buf_inv_def buffer_ok_def chan_ok_def fates_def Let_def)
  qed
qed

lemma buf_reachable_inv:
  assumes "buf_reachable b e s" and "buffer_ok b" and "mb_contents b = []"
  shows "buf_inv b s"
  using assms(1)
proof (induction rule: buf_reachable.induct)
  case buf_start
  show ?case using assms(2,3) by (rule buf_inv_init)
next
  case (buf_more s t)
  then show ?case by (blast intro: buf_step_inv)
qed

end
