(* ===== verification/Generators.thy ===== *)
theory Generators
  imports Runtime "HOL-Library.Signed_Division"
begin

text \<open>
  The package \<^verbatim>\<open>internal/generator\<close>: the four sensor generators, the factory that picks one for a
  sensor, and the contract \<open>sensor_generator\<close> that the worker relies on: an injected outlier
  is returned by the next call, once, and changes nothing else. The generators' mutexes make each
  call one step; a call is a function of the generator and of the environment it reads.
\<close>

record ConstantGenerator =
  cg_value :: float64
  cg_outlierOverride :: "float64 option"

record UniformRandomGenerator =
  ug_minRange :: float64
  ug_maxRange :: float64
  ug_outlierOverride :: "float64 option"

record SineWaveGenerator =
  sg_minRange :: float64
  sg_maxRange :: float64
  sg_periodSeconds :: float64
  sg_startTime :: time
  sg_outlierOverride :: "float64 option"

record SpikeGenerator =
  kg_minRange :: float64
  kg_maxRange :: float64
  kg_spikeFrequency :: float64
  kg_spikeFactor :: float64
  kg_outlierOverride :: "float64 option"

subsection \<open>Constructors\<close>

definition NewConstantGenerator :: "float64 \<Rightarrow> float64 \<Rightarrow> ConstantGenerator" where
  "NewConstantGenerator mn mx =
     \<lparr>cg_value = (mn + mx) / Finite 2, cg_outlierOverride = None\<rparr>"

definition NewUniformRandomGenerator :: "float64 \<Rightarrow> float64 \<Rightarrow> UniformRandomGenerator" where
  "NewUniformRandomGenerator mn mx =
     \<lparr>ug_minRange = mn, ug_maxRange = mx, ug_outlierOverride = None\<rparr>"

definition NewSineWaveGenerator ::
  "float64 \<Rightarrow> float64 \<Rightarrow> float64 \<Rightarrow> env \<Rightarrow> SineWaveGenerator \<times> env" where
  "NewSineWaveGenerator mn mx period e =
     (let period = (if period \<le> Finite 0 then Finite 60 else period);
          (now, e) = clock_Now e
      in (\<lparr>sg_minRange = mn, sg_maxRange = mx, sg_periodSeconds = period, sg_startTime = now,
           sg_outlierOverride = None\<rparr>, e))"

definition NewSpikeGenerator :: "float64 \<Rightarrow> float64 \<Rightarrow> float64 \<Rightarrow> float64 \<Rightarrow> SpikeGenerator" where
  "NewSpikeGenerator mn mx freq factor =
     \<lparr>kg_minRange = mn, kg_maxRange = mx, kg_spikeFrequency = freq, kg_spikeFactor = factor,
      kg_outlierOverride = None\<rparr>"

subsection \<open>Next\<close>

definition constant_Next :: "ConstantGenerator \<Rightarrow> env \<Rightarrow> float64 \<times> ConstantGenerator \<times> env" where
  "constant_Next g e =
     (case cg_outlierOverride g of
        Some v \<Rightarrow> (v, g\<lparr>cg_outlierOverride := None\<rparr>, e)
      | None \<Rightarrow> (cg_value g, g, e))"

definition uniform_Next :: "UniformRandomGenerator \<Rightarrow> env \<Rightarrow> float64 \<times> UniformRandomGenerator \<times> env" where
  "uniform_Next g e =
     (case ug_outlierOverride g of
        Some v \<Rightarrow> (v, g\<lparr>ug_outlierOverride := None\<rparr>, e)
      | None \<Rightarrow>
          let (r, e) = rand_Float64 e
          in (ug_minRange g + r * (ug_maxRange g - ug_minRange g), g, e))"

text \<open>
  \<^verbatim>\<open>Duration.Seconds\<close>: whole seconds plus the rest as a fraction, both truncated towards zero.
\<close>

definition duration_Seconds :: "duration \<Rightarrow> float64" where
  "duration_Seconds d =
     f64_of_int (sint d sdiv 1000000000) + f64_of_int (sint d smod 1000000000) / Finite 1000000000"

text \<open>The constant \<^verbatim>\<open>2*math.Pi\<close> as a float64.\<close>

definition two_Pi :: float64 where
  "two_Pi = Finite (884279719003555 / 140737488355328)"

definition sine_Next ::
  "'x libs_scheme \<Rightarrow> SineWaveGenerator \<Rightarrow> env \<Rightarrow> float64 \<times> SineWaveGenerator \<times> env" where
  "sine_Next L g e =
     (case sg_outlierOverride g of
        Some v \<Rightarrow> (v, g\<lparr>sg_outlierOverride := None\<rparr>, e)
      | None \<Rightarrow>
          let (now, e) = clock_Now e;
              elapsed = duration_Seconds (time_Sub now (sg_startTime g));
              amplitude = (sg_maxRange g - sg_minRange g) / Finite 2;
              offset = sg_minRange g + amplitude
          in (offset + amplitude * math_Sin L (two_Pi * elapsed / sg_periodSeconds g), g, e))"

definition spike_Next :: "SpikeGenerator \<Rightarrow> env \<Rightarrow> float64 \<times> SpikeGenerator \<times> env" where
  "spike_Next g e =
     (case kg_outlierOverride g of
        Some v \<Rightarrow> (v, g\<lparr>kg_outlierOverride := None\<rparr>, e)
      | None \<Rightarrow>
          let (r, e) = rand_Float64 e
          in if r < kg_spikeFrequency g then
               let rangeSize = kg_maxRange g - kg_minRange g;
                   (r', e) = rand_Float64 e
               in if r' < Finite (1 / 2) then (kg_maxRange g + rangeSize * kg_spikeFactor g, g, e)
                  else (kg_minRange g - rangeSize * kg_spikeFactor g, g, e)
             else
               let (r', e) = rand_Float64 e
               in (kg_minRange g + r' * (kg_maxRange g - kg_minRange g), g, e))"

subsection \<open>InjectOutlier\<close>

definition constant_InjectOutlier :: "float64 \<Rightarrow> ConstantGenerator \<Rightarrow> ConstantGenerator" where
  "constant_InjectOutlier v g = g\<lparr>cg_outlierOverride := Some v\<rparr>"

definition uniform_InjectOutlier :: "float64 \<Rightarrow> UniformRandomGenerator \<Rightarrow> UniformRandomGenerator" where
  "uniform_InjectOutlier v g = g\<lparr>ug_outlierOverride := Some v\<rparr>"

definition sine_InjectOutlier :: "float64 \<Rightarrow> SineWaveGenerator \<Rightarrow> SineWaveGenerator" where
  "sine_InjectOutlier v g = g\<lparr>sg_outlierOverride := Some v\<rparr>"

definition spike_InjectOutlier :: "float64 \<Rightarrow> SpikeGenerator \<Rightarrow> SpikeGenerator" where
  "spike_InjectOutlier v g = g\<lparr>kg_outlierOverride := Some v\<rparr>"

subsection \<open>The interface and the factory\<close>

text \<open>A value of the interface type \<^verbatim>\<open>Generator\<close> is one of the four.\<close>

datatype Generator =
    Constant_Generator ConstantGenerator
  | Uniform_Generator UniformRandomGenerator
  | Sine_Generator SineWaveGenerator
  | Spike_Generator SpikeGenerator

fun generator_Next :: "'x libs_scheme \<Rightarrow> Generator \<Rightarrow> env \<Rightarrow> float64 \<times> Generator \<times> env" where
  "generator_Next L (Constant_Generator g) e = (let (v, g, e) = constant_Next g e in (v, Constant_Generator g, e))"
| "generator_Next L (Uniform_Generator g) e = (let (v, g, e) = uniform_Next g e in (v, Uniform_Generator g, e))"
| "generator_Next L (Sine_Generator g) e = (let (v, g, e) = sine_Next L g e in (v, Sine_Generator g, e))"
| "generator_Next L (Spike_Generator g) e = (let (v, g, e) = spike_Next g e in (v, Spike_Generator g, e))"

fun generator_InjectOutlier :: "float64 \<Rightarrow> Generator \<Rightarrow> Generator" where
  "generator_InjectOutlier v (Constant_Generator g) = Constant_Generator (constant_InjectOutlier v g)"
| "generator_InjectOutlier v (Uniform_Generator g) = Uniform_Generator (uniform_InjectOutlier v g)"
| "generator_InjectOutlier v (Sine_Generator g) = Sine_Generator (sine_InjectOutlier v g)"
| "generator_InjectOutlier v (Spike_Generator g) = Spike_Generator (spike_InjectOutlier v g)"

text \<open>The constants 0.1 and 1.5 of the spike generator, as float64.\<close>

definition default_spikeFrequency :: float64 where
  "default_spikeFrequency = Finite (3602879701896397 / 36028797018963968)"

definition default_spikeFactor :: float64 where
  "default_spikeFactor = Finite (3 / 2)"

definition factory_New :: "SimSensor \<Rightarrow> env \<Rightarrow> Generator \<times> env" where
  "factory_New s e =
     (if sn_Algorithm s = Constant then
        (Constant_Generator (NewConstantGenerator (sn_MinRange s) (sn_MaxRange s)), e)
      else if sn_Algorithm s = SineWave then
        (let (g, e) = NewSineWaveGenerator (sn_MinRange s) (sn_MaxRange s) (Finite 60) e
         in (Sine_Generator g, e))
      else if sn_Algorithm s = Spike then
        (Spike_Generator (NewSpikeGenerator (sn_MinRange s) (sn_MaxRange s)
           default_spikeFrequency default_spikeFactor), e)
      else (Uniform_Generator (NewUniformRandomGenerator (sn_MinRange s) (sn_MaxRange s)), e))"

subsection \<open>The contract of a generator\<close>

locale sensor_generator =
  fixes next_value :: "'g \<Rightarrow> env \<Rightarrow> float64 \<times> 'g \<times> env"
    and inject :: "float64 \<Rightarrow> 'g \<Rightarrow> 'g"
    and override :: "'g \<Rightarrow> float64 option"
    and plain :: "'g \<Rightarrow> 'g"
  assumes override_inject: "override (inject v g) = Some v"
    and plain_inject: "plain (inject v g) = plain g"
    and override_plain: "override (plain g) = None"
    and plain_idem: "override g = None \<Longrightarrow> plain g = g"
    and next_override: "override g = Some v \<Longrightarrow> next_value g e = (v, plain g, e)"
    and next_keeps: "override g = None \<Longrightarrow> fst (snd (next_value g e)) = g"
begin

text \<open>An outlier is returned by the next call and consumes nothing from the environment.\<close>

lemma outlier_next: "next_value (inject v g) e = (v, plain g, e)"
  using next_override [OF override_inject] by (simp add: plain_inject)

lemma last_outlier_wins: "next_value (inject w (inject v g)) e = (w, plain g, e)"
  by (simp add: outlier_next plain_inject)

lemma next_plain: "fst (snd (next_value g e)) = plain g"
  using next_override [of g _ e] next_keeps [of g e] plain_idem [of g]
  by (cases "override g") auto

lemma next_override_gone: "override (fst (snd (next_value g e))) = None"
  by (simp add: next_plain override_plain)

text \<open>A run of \<open>n\<close> calls.\<close>

fun run :: "nat \<Rightarrow> 'g \<Rightarrow> env \<Rightarrow> float64 list \<times> 'g \<times> env" where
  "run 0 g e = ([], g, e)"
| "run (Suc n) g e =
     (let (v, g, e) = next_value g e; (vs, g, e) = run n g e in (v # vs, g, e))"

lemma run_plain: "override g = None \<Longrightarrow> fst (snd (run n g e)) = g"
proof (induction n arbitrary: e)
  case (Suc n)
  then show ?case
    using next_keeps [of g e] by (simp add: Let_def case_prod_unfold)
qed simp

text \<open>Injecting an outlier inserts one value before the values the generator would have given.\<close>

lemma run_inject:
  assumes "override g = None"
  shows "run (Suc n) (inject v g) e = (let (vs, g, e) = run n g e in (v # vs, g, e))"
  using assms by (simp add: outlier_next plain_idem)

end

interpretation constant_gen: sensor_generator constant_Next constant_InjectOutlier
    cg_outlierOverride "cg_outlierOverride_update (\<lambda>_. None)"
  by unfold_locales (auto simp: constant_Next_def constant_InjectOutlier_def)

interpretation uniform_gen: sensor_generator uniform_Next uniform_InjectOutlier
    ug_outlierOverride "ug_outlierOverride_update (\<lambda>_. None)"
  by unfold_locales (auto simp: uniform_Next_def uniform_InjectOutlier_def Let_def split: prod.splits)

interpretation sine_gen: sensor_generator "sine_Next L" sine_InjectOutlier
    sg_outlierOverride "sg_outlierOverride_update (\<lambda>_. None)" for L :: "'x libs_scheme"
  by unfold_locales (auto simp: sine_Next_def sine_InjectOutlier_def Let_def split: prod.splits)

interpretation spike_gen: sensor_generator spike_Next spike_InjectOutlier
    kg_outlierOverride "kg_outlierOverride_update (\<lambda>_. None)"
  by unfold_locales (auto simp: spike_Next_def spike_InjectOutlier_def Let_def split: prod.splits)

fun outlierOverride :: "Generator \<Rightarrow> float64 option" where
  "outlierOverride (Constant_Generator g) = cg_outlierOverride g"
| "outlierOverride (Uniform_Generator g) = ug_outlierOverride g"
| "outlierOverride (Sine_Generator g) = sg_outlierOverride g"
| "outlierOverride (Spike_Generator g) = kg_outlierOverride g"

fun without_override :: "Generator \<Rightarrow> Generator" where
  "without_override (Constant_Generator g) = Constant_Generator (g\<lparr>cg_outlierOverride := None\<rparr>)"
| "without_override (Uniform_Generator g) = Uniform_Generator (g\<lparr>ug_outlierOverride := None\<rparr>)"
| "without_override (Sine_Generator g) = Sine_Generator (g\<lparr>sg_outlierOverride := None\<rparr>)"
| "without_override (Spike_Generator g) = Spike_Generator (g\<lparr>kg_outlierOverride := None\<rparr>)"

interpretation gen: sensor_generator "generator_Next L" generator_InjectOutlier
    outlierOverride without_override for L :: "'x libs_scheme"
proof unfold_locales
  fix v e and g :: Generator
  show "outlierOverride (generator_InjectOutlier v g) = Some v"
    by (cases g) (simp_all add: constant_gen.override_inject uniform_gen.override_inject
        sine_gen.override_inject spike_gen.override_inject)
  show "without_override (generator_InjectOutlier v g) = without_override g"
    by (cases g) (simp_all add: constant_gen.plain_inject uniform_gen.plain_inject
        sine_gen.plain_inject spike_gen.plain_inject)
  show "outlierOverride (without_override g) = None"
    by (cases g) simp_all
  show "outlierOverride g = None \<Longrightarrow> without_override g = g"
    by (cases g) simp_all
  show "outlierOverride g = Some v \<Longrightarrow> generator_Next L g e = (v, without_override g, e)"
    by (cases g) (simp_all add: constant_gen.next_override uniform_gen.next_override
        sine_gen.next_override spike_gen.next_override)
  show "outlierOverride g = None \<Longrightarrow> fst (snd (generator_Next L g e)) = g"
    by (cases g) (simp_all add: constant_gen.next_keeps uniform_gen.next_keeps sine_gen.next_keeps
        spike_gen.next_keeps Let_def case_prod_unfold)
qed

subsection \<open>The values stay in range\<close>

text \<open>
  Ranges are pairs of representable numbers, as the API accepts them: the lower bound below the
  upper one. The width is computed in floating point, so the upper bound on the values is the lower bound
  plus that width; it is the upper bound of the range itself when the width is exact.
\<close>

definition range_ok :: "rat \<Rightarrow> rat \<Rightarrow> bool" where
  "range_ok lo hi \<longleftrightarrow> representable lo \<and> representable hi \<and> lo < hi"

abbreviation float_width :: "rat \<Rightarrow> rat \<Rightarrow> float64" where
  "float_width lo hi \<equiv> Finite hi - Finite lo"

lemma float_width_f64: "float_width lo hi = f64_of (hi - lo)"
  by (simp add: minus_float64_def)

lemma float_width_nonneg: "range_ok lo hi \<Longrightarrow> Finite 0 \<le> float_width lo hi"
  by (rule f64_minus_nonneg) (simp add: range_ok_def)

lemma scaled_width:
  assumes "range_ok lo hi" and "is_finite (float_width lo hi)"
    and "representable r" and "0 \<le> r" and "r \<le> 1"
  shows "Finite lo \<le> Finite lo + Finite r * float_width lo hi"
    and "Finite lo + Finite r * float_width lo hi \<le> Finite lo + float_width lo hi"
proof -
  from assms(2) obtain w where w: "float_width lo hi = Finite w" by (auto simp: is_finite_iff)
  then have rw: "representable w" using f64_of_eq_Finite by (simp add: float_width_f64)
  from w float_width_nonneg [OF assms(1)] have "0 \<le> w" by simp
  note u = f64_mult_unit [OF assms(4,5) this rw]
  have "representable lo" using assms(1) by (simp add: range_ok_def)
  then show "Finite lo \<le> Finite lo + Finite r * float_width lo hi"
    unfolding w by (rule f64_add_nonneg) (rule u)
  show "Finite lo + Finite r * float_width lo hi \<le> Finite lo + float_width lo hi"
    unfolding w by (rule f64_add_mono) (rule u)
qed

lemma exact_width:
  assumes "range_ok lo hi" and "representable (hi - lo)"
  shows "float_width lo hi = Finite (hi - lo)" and "Finite lo + float_width lo hi = Finite hi"
  using assms by (simp_all add: float_width_f64 f64_of_representable range_ok_def)

lemma uniform_Next_bounds:
  assumes "range_ok lo hi" and "is_finite (float_width lo hi)" and "rand_lawful e"
    and "ug_minRange g = Finite lo" and "ug_maxRange g = Finite hi" and "ug_outlierOverride g = None"
  shows "Finite lo \<le> fst (uniform_Next g e)"
    and "fst (uniform_Next g e) \<le> Finite lo + float_width lo hi"
proof -
  from assms(3) obtain r where r: "fst (rand_Float64 e) = Finite r" "representable r" "0 \<le> r" "r < 1"
    by (rule rand_lawfulD)
  have "fst (uniform_Next g e) = Finite lo + Finite r * float_width lo hi"
    using r(1) assms(4-6) by (simp add: uniform_Next_def Let_def case_prod_unfold)
  with scaled_width [OF assms(1,2) r(2,3)] r(4)
  show "Finite lo \<le> fst (uniform_Next g e)"
    and "fst (uniform_Next g e) \<le> Finite lo + float_width lo hi" by simp_all
qed

text \<open>A spike lies beyond the range by the factor times its width, on the side a second draw picks.\<close>

lemma spike_Next_cases:
  assumes "range_ok lo hi" and "is_finite (float_width lo hi)" and "rand_lawful e"
    and "kg_minRange g = Finite lo" and "kg_maxRange g = Finite hi" and "kg_outlierOverride g = None"
  shows "if fst (rand_Float64 e) < kg_spikeFrequency g
    then fst (spike_Next g e) =
      (if fst (rand_Float64 (env_tick e)) < Finite (1 / 2)
       then Finite hi + float_width lo hi * kg_spikeFactor g
       else Finite lo - float_width lo hi * kg_spikeFactor g)
    else Finite lo \<le> fst (spike_Next g e) \<and> fst (spike_Next g e) \<le> Finite lo + float_width lo hi"
proof (cases "fst (rand_Float64 e) < kg_spikeFrequency g")
  case True
  then show ?thesis using assms(4-6) by (simp add: spike_Next_def Let_def case_prod_unfold)
next
  case False
  from assms(3) have "rand_lawful (env_tick e)" by simp
  then obtain r where r: "fst (rand_Float64 (env_tick e)) = Finite r" "representable r" "0 \<le> r" "r < 1"
    by (rule rand_lawfulD)
  have "fst (spike_Next g e) = Finite lo + Finite r * float_width lo hi"
    using False r(1) assms(4-6) by (simp add: spike_Next_def Let_def case_prod_unfold)
  with False scaled_width [OF assms(1,2) r(2,3)] r(4) show ?thesis by simp
qed

text \<open>The sine wave stays within its amplitude of its offset.\<close>

lemma f64_mult_sym_unit:
  assumes "0 \<le> a" and "representable a" and "\<bar>r\<bar> \<le> 1"
  shows "Finite (- a) \<le> Finite a * Finite r" and "Finite a * Finite r \<le> Finite a"
proof -
  have "\<bar>a * r\<bar> \<le> a"
    using assms by (simp add: abs_mult mult_left_le)
  then have b: "- a \<le> a * r" "a * r \<le> a" by linarith+
  have "representable (- a)" using assms(2) by (simp add: representable_def round_rat_minus)
  then show "Finite (- a) \<le> Finite a * Finite r" using b by (auto intro: f64_of_ge)
  show "Finite a * Finite r \<le> Finite a" using b assms(2) by (auto intro: f64_of_le)
qed

lemma sine_Next_bounds:
  assumes "sin_lawful L" and "sg_outlierOverride g = None"
    and "(sg_maxRange g - sg_minRange g) / Finite 2 = Finite a" and "0 \<le> a" and "representable a"
    and "sg_minRange g + Finite a = Finite m"
    and "\<And>now. is_finite (two_Pi * duration_Seconds (time_Sub now (sg_startTime g)) / sg_periodSeconds g)"
  shows "Finite m - Finite a \<le> fst (sine_Next L g e)" and "fst (sine_Next L g e) \<le> Finite m + Finite a"
proof -
  define x where
    "x = two_Pi * duration_Seconds (time_Sub (fst (clock_Now e)) (sg_startTime g)) / sg_periodSeconds g"
  obtain q where q: "math_Sin L x = Finite q" "\<bar>q\<bar> \<le> 1"
    using assms(1) assms(7) by (fastforce simp: x_def sin_lawful_def)
  have v: "fst (sine_Next L g e) = Finite m + Finite a * Finite q"
    using assms(2,3,6) q(1) by (simp add: sine_Next_def Let_def case_prod_unfold x_def)
  note u = f64_mult_sym_unit [OF assms(4,5) q(2)]
  show "Finite m - Finite a \<le> fst (sine_Next L g e)" unfolding v minus_float64_def
    using f64_add_mono [OF u(1)] by simp
  show "fst (sine_Next L g e) \<le> Finite m + Finite a" unfolding v by (rule f64_add_mono) (rule u)
qed

lemma constant_midpoint:
  assumes "range_ok lo hi" and "cg_outlierOverride g = None"
    and "cg_value g = cg_value (NewConstantGenerator (Finite lo) (Finite hi))"
    and "representable (lo + hi)"
  shows "Finite lo \<le> fst (constant_Next g e) \<and> fst (constant_Next g e) \<le> Finite hi"
proof -
  have "fst (constant_Next g e) = f64_of ((lo + hi) / 2)"
    using assms by (simp add: constant_Next_def NewConstantGenerator_def f64_of_representable)
  moreover have "lo \<le> (lo + hi) / 2" "(lo + hi) / 2 \<le> hi"
    using assms(1) by (simp_all add: range_ok_def)
  ultimately show ?thesis using assms(1) by (auto simp: range_ok_def intro: f64_of_ge f64_of_le)
qed

lemma factory_New_fresh: "outlierOverride (fst (factory_New s e)) = None"
  by (auto simp: factory_New_def NewConstantGenerator_def NewUniformRandomGenerator_def
      NewSineWaveGenerator_def NewSpikeGenerator_def Let_def split: prod.splits)

end
