(* ===== verification/Gateway_Store.thy ===== *)
theory Gateway_Store
  imports Sim_Domain
begin

text \<open>
  The interface \<^verbatim>\<open>ports.GatewayStore\<close> of \<^verbatim>\<open>internal/ports/driven.go\<close>: its operations as a
  record, over any type of store, and the contract that its clients rely on, stated over the two tables a
  store stands for, in three locales: \<open>row_store\<close> (reading, updating and deleting rows) is what the
  worker needs, \<open>gateway_store\<close> adds the creation of rows and \<open>relational_store\<close>, which the registry
  needs, the constraints of the database. Every operation may fail, and one that fails leaves the
  tables as they were. A store does not keep the management id of a sensor's gateway, so the sensors
  are compared without it.
\<close>

record 's store_ops =
  op_CreateGateway :: "SimGateway \<Rightarrow> 's \<Rightarrow> int64 result \<times> 's"
  op_GetGateway :: "int64 \<Rightarrow> 's \<Rightarrow> SimGateway result \<times> 's"
  op_GetGatewayByManagementID :: "uuid \<Rightarrow> 's \<Rightarrow> SimGateway result \<times> 's"
  op_ListGateways :: "'s \<Rightarrow> SimGateway list result \<times> 's"
  op_UpdateProvisioned :: "int64 \<Rightarrow> ProvisionResult \<Rightarrow> 's \<Rightarrow> unit result \<times> 's"
  op_UpdateStatus :: "int64 \<Rightarrow> GatewayStatus \<Rightarrow> 's \<Rightarrow> unit result \<times> 's"
  op_UpdateFirmwareVersion :: "int64 \<Rightarrow> string \<Rightarrow> 's \<Rightarrow> unit result \<times> 's"
  op_DeleteGateway :: "int64 \<Rightarrow> 's \<Rightarrow> unit result \<times> 's"
  op_CreateSensor :: "SimSensor \<Rightarrow> 's \<Rightarrow> int64 result \<times> 's"
  op_ListSensors :: "int64 \<Rightarrow> 's \<Rightarrow> SimSensor list result \<times> 's"
  op_DeleteSensor :: "int64 \<Rightarrow> 's \<Rightarrow> unit result \<times> 's"
  op_GetSensor :: "int64 \<Rightarrow> 's \<Rightarrow> SimSensor result \<times> 's"
  op_GetSensorBySensorID :: "uuid \<Rightarrow> 's \<Rightarrow> SimSensor result \<times> 's"
  op_UpdateFrequency :: "int64 \<Rightarrow> int64 \<Rightarrow> 's \<Rightarrow> unit result \<times> 's"

text \<open>Keys are made by \<^verbatim>\<open>NewEncryptionKey\<close>, or are the zero key.\<close>

definition key_ok :: "EncryptionKey \<Rightarrow> bool" where
  "key_ok k \<longleftrightarrow> length (key_value k) \<in> {0, 32}"

lemma NewEncryptionKey_ok [inv_intros]: "NewEncryptionKey b = Inr k \<Longrightarrow> key_ok k"
  by (auto simp: NewEncryptionKey_def key_ok_def split: if_splits)

lemma zero_EncryptionKey_ok [inv_intros]: "key_ok zero_EncryptionKey"
  by (simp add: key_ok_def zero_EncryptionKey_def)

text \<open>The view of a sensor that a store keeps.\<close>

definition stored :: "SimSensor \<Rightarrow> SimSensor" where
  "stored s = s\<lparr>sn_ManagementGatewayID := 0\<rparr>"

lemma stored_simps [simp]:
  "stored (stored s) = stored s" "sn_ID (stored s) = sn_ID s" "sn_GatewayID (stored s) = sn_GatewayID s"
  "sn_SensorID (stored s) = sn_SensorID s" "sn_MinRange (stored s) = sn_MinRange s"
  "sn_MaxRange (stored s) = sn_MaxRange s" "sn_Algorithm (stored s) = sn_Algorithm s"
  "sn_Type (stored s) = sn_Type s" "sn_CreatedAt (stored s) = sn_CreatedAt s"
  "stored (s\<lparr>sn_ManagementGatewayID := u\<rparr>) = stored s"
  by (simp_all add: stored_def)

subsection \<open>The contract\<close>

locale row_store =
  fixes ops :: "'s store_ops"
    and gws :: "'s \<Rightarrow> int64 \<Rightarrow> SimGateway option"
    and sns :: "'s \<Rightarrow> int64 \<Rightarrow> SimSensor option"
    and ok :: "'s \<Rightarrow> bool"
  assumes gws_id: "ok s \<Longrightarrow> gws s i = Some g \<Longrightarrow> gw_ID g = i"
    and sns_id: "ok s \<Longrightarrow> sns s i = Some n \<Longrightarrow> sn_ID n = i \<and> stored n = n"
    and GetGateway: "ok s \<Longrightarrow> op_GetGateway ops i s = (rg, s') \<Longrightarrow>
      ok s' \<and> gws s' = gws s \<and> sns s' = sns s \<and> (\<forall>g. rg = Inr g \<longrightarrow> gws s i = Some g)"
    and GetGatewayByManagementID: "ok s \<Longrightarrow> op_GetGatewayByManagementID ops u s = (rg, s') \<Longrightarrow>
      ok s' \<and> gws s' = gws s \<and> sns s' = sns s \<and>
      (case rg of Inr g \<Rightarrow> g \<in> ran (gws s) \<and> gw_ManagementGatewayID g = u
       | Inl e \<Rightarrow> err_is e ErrGatewayNotFound \<longrightarrow> (\<forall>g \<in> ran (gws s). gw_ManagementGatewayID g \<noteq> u))"
    and ListGateways: "ok s \<Longrightarrow> op_ListGateways ops s = (rl, s') \<Longrightarrow>
      ok s' \<and> gws s' = gws s \<and> sns s' = sns s \<and>
      (\<forall>gs. rl = Inr gs \<longrightarrow> set gs = ran (gws s) \<and> distinct (map gw_ID gs))"
    and UpdateProvisioned: "ok s \<Longrightarrow> key_ok (pr_AESKey p) \<Longrightarrow> op_UpdateProvisioned ops i p s = (ru, s') \<Longrightarrow>
      ok s' \<and> sns s' = sns s \<and>
      (case ru of Inl _ \<Rightarrow> gws s' = gws s
       | Inr _ \<Rightarrow> \<exists>g. gws s i = Some g \<and> gws s' = (gws s)(i \<mapsto> g\<lparr>gw_Provisioned := True,
           gw_CertPEM := pr_CertPEM p, gw_PrivateKeyPEM := pr_PrivateKeyPEM p,
           gw_EncryptionKey := pr_AESKey p\<rparr>))"
    and UpdateStatus: "ok s \<Longrightarrow> op_UpdateStatus ops i st s = (ru, s') \<Longrightarrow>
      ok s' \<and> sns s' = sns s \<and>
      (case ru of Inl _ \<Rightarrow> gws s' = gws s
       | Inr _ \<Rightarrow> \<exists>g. gws s i = Some g \<and> gws s' = (gws s)(i \<mapsto> g\<lparr>gw_Status := st\<rparr>))"
    and UpdateFirmwareVersion: "ok s \<Longrightarrow> op_UpdateFirmwareVersion ops i v s = (ru, s') \<Longrightarrow>
      ok s' \<and> sns s' = sns s \<and>
      (case ru of Inl _ \<Rightarrow> gws s' = gws s
       | Inr _ \<Rightarrow> \<exists>g. gws s i = Some g \<and> gws s' = (gws s)(i \<mapsto> g\<lparr>gw_FirmwareVersion := v\<rparr>))"
    and UpdateFrequency: "ok s \<Longrightarrow> op_UpdateFrequency ops i f s = (ru, s') \<Longrightarrow>
      ok s' \<and> sns s' = sns s \<and>
      (case ru of Inl _ \<Rightarrow> gws s' = gws s
       | Inr _ \<Rightarrow> \<exists>g. gws s i = Some g \<and> gws s' = (gws s)(i \<mapsto> g\<lparr>gw_SendFrequencyMs := f\<rparr>))"
    and DeleteGateway: "ok s \<Longrightarrow> op_DeleteGateway ops i s = (ru, s') \<Longrightarrow>
      ok s' \<and> sns s' \<subseteq>\<^sub>m sns s \<and>
      (\<forall>k n. sns s k = Some n \<and> sn_GatewayID n \<noteq> i \<longrightarrow> sns s' k = Some n) \<and>
      (case ru of Inl _ \<Rightarrow> gws s' = gws s \<and> sns s' = sns s | Inr _ \<Rightarrow> gws s' = (gws s)(i := None))"
    and ListSensors: "ok s \<Longrightarrow> op_ListSensors ops i s = (rm, s') \<Longrightarrow>
      ok s' \<and> gws s' = gws s \<and> sns s' = sns s \<and>
      (\<forall>ns. rm = Inr ns \<longrightarrow> stored ` set ns = {n \<in> ran (sns s). sn_GatewayID n = i} \<and> distinct (map sn_ID ns))"
    and DeleteSensor: "ok s \<Longrightarrow> op_DeleteSensor ops i s = (ru, s') \<Longrightarrow>
      ok s' \<and> gws s' = gws s \<and>
      (case ru of Inl _ \<Rightarrow> sns s' = sns s | Inr _ \<Rightarrow> sns s' = (sns s)(i := None))"
    and GetSensor: "ok s \<Longrightarrow> op_GetSensor ops i s = (rn, s') \<Longrightarrow>
      ok s' \<and> gws s' = gws s \<and> sns s' = sns s \<and> (\<forall>n. rn = Inr n \<longrightarrow> sns s i = Some (stored n))"
    and GetSensorBySensorID: "ok s \<Longrightarrow> op_GetSensorBySensorID ops u s = (rn, s') \<Longrightarrow>
      ok s' \<and> gws s' = gws s \<and> sns s' = sns s \<and>
      (case rn of Inr n \<Rightarrow> stored n \<in> ran (sns s) \<and> sn_SensorID n = u
       | Inl e \<Rightarrow> err_is e ErrSensorNotFound \<longrightarrow> (\<forall>n \<in> ran (sns s). sn_SensorID n \<noteq> u))"
begin

lemma ran_gws_id: "ok s \<Longrightarrow> g \<in> ran (gws s) \<Longrightarrow> gws s (gw_ID g) = Some g"
  using gws_id by (auto simp: ran_def)

lemma ran_sns_id: "ok s \<Longrightarrow> n \<in> ran (sns s) \<Longrightarrow> sns s (sn_ID n) = Some n"
  using sns_id by (auto simp: ran_def)

end

text \<open>
  A store that can also create: every new row gets an id that no row has.
\<close>

locale gateway_store = row_store +
  assumes CreateGateway: "ok s \<Longrightarrow> key_ok (gw_EncryptionKey g) \<Longrightarrow> op_CreateGateway ops g s = (ri, s') \<Longrightarrow>
      ok s' \<and> sns s' = sns s \<and>
      (case ri of Inl _ \<Rightarrow> gws s' = gws s
       | Inr i \<Rightarrow> gws s i = None \<and> gws s' = (gws s)(i \<mapsto> g\<lparr>gw_ID := i\<rparr>))"
    and CreateSensor: "ok s \<Longrightarrow> op_CreateSensor ops n s = (ri, s') \<Longrightarrow>
      ok s' \<and> gws s' = gws s \<and>
      (case ri of Inl _ \<Rightarrow> sns s' = sns s
       | Inr i \<Rightarrow> sns s i = None \<and> sns s' = (sns s)(i \<mapsto> stored (n\<lparr>sn_ID := i\<rparr>)))"
begin

text \<open>A failed operation never changes a table.\<close>

lemma create_failed:
  assumes "ok s" and "key_ok (gw_EncryptionKey g)" and "op_CreateGateway ops g s = (Inl e, s')"
  shows "ok s'" and "gws s' = gws s" and "sns s' = sns s"
  using CreateGateway [OF assms] by auto

text \<open>Taking a gateway back out right after it was put in restores the table of gateways.\<close>

lemma create_delete:
  assumes "ok s" and "key_ok (gw_EncryptionKey g)" and "op_CreateGateway ops g s = (Inr i, s1)"
    and "ok s2" and "gws s2 = gws s1" and "op_DeleteGateway ops i s2 = (Inr u, s3)"
  shows "ok s3" and "gws s3 = gws s"
  using CreateGateway [OF assms(1-3)] DeleteGateway [OF assms(4,6)] assms(5)
  by (auto simp: fun_upd_idem)

lemma create_get:
  assumes "ok s" and "key_ok (gw_EncryptionKey g)" and "op_CreateGateway ops g s = (Inr i, s1)"
    and "op_GetGateway ops i s1 = (Inr h, s2)"
  shows "h = g\<lparr>gw_ID := i\<rparr>"
  using CreateGateway [OF assms(1-3)] GetGateway [OF _ assms(4)] by auto

end

text \<open>
  What a relational store adds: the management and sensor ids are unique, every sensor has its
  gateway, and deleting a gateway deletes its sensors.
\<close>

locale relational_store = gateway_store +
  assumes unique_management: "ok s \<Longrightarrow> g \<in> ran (gws s) \<Longrightarrow> h \<in> ran (gws s) \<Longrightarrow>
      gw_ManagementGatewayID g = gw_ManagementGatewayID h \<Longrightarrow> g = h"
    and unique_sensor: "ok s \<Longrightarrow> m \<in> ran (sns s) \<Longrightarrow> n \<in> ran (sns s) \<Longrightarrow>
      sn_SensorID m = sn_SensorID n \<Longrightarrow> m = n"
    and sensor_gateway: "ok s \<Longrightarrow> n \<in> ran (sns s) \<Longrightarrow> sn_GatewayID n \<in> dom (gws s)"
begin

lemma delete_cascades:
  assumes "ok s" and "op_DeleteGateway ops i s = (Inr u, s')"
  shows "n \<in> ran (sns s') \<longleftrightarrow> n \<in> ran (sns s) \<and> sn_GatewayID n \<noteq> i"
proof -
  have ok': "ok s'" and sub: "sns s' \<subseteq>\<^sub>m sns s" and g: "gws s' = (gws s)(i := None)"
    and keep: "\<And>k n. sns s k = Some n \<Longrightarrow> sn_GatewayID n \<noteq> i \<Longrightarrow> sns s' k = Some n"
    using DeleteGateway [OF assms] by simp_all
  show ?thesis
  proof
    assume n: "n \<in> ran (sns s')"
    then obtain k where k: "sns s' k = Some n" by (auto simp: ran_def)
    then have "sns s k = Some n" using sub by (metis domI map_le_def)
    moreover have "sn_GatewayID n \<noteq> i" using sensor_gateway [OF ok' n] g by auto
    ultimately show "n \<in> ran (sns s) \<and> sn_GatewayID n \<noteq> i" by (auto intro: ranI)
  next
    assume "n \<in> ran (sns s) \<and> sn_GatewayID n \<noteq> i"
    then show "n \<in> ran (sns s')" using keep by (fastforce simp: ran_def)
  qed
qed

text \<open>A gateway that was just created has no sensors, so taking it back restores both tables.\<close>

lemma create_delete_all:
  assumes "ok s" and "key_ok (gw_EncryptionKey g)" and "op_CreateGateway ops g s = (Inr i, s1)"
    and "ok s2" and "gws s2 = gws s1" and "sns s2 = sns s1" and "op_DeleteGateway ops i s2 = (Inr u, s3)"
  shows "ok s3" and "gws s3 = gws s" and "sns s3 = sns s"
proof -
  have fresh: "gws s i = None" and s1: "sns s1 = sns s"
    using CreateGateway [OF assms(1-3)] by simp_all
  have sub: "sns s3 \<subseteq>\<^sub>m sns s"
    and keep: "\<And>k n. sns s k = Some n \<Longrightarrow> sn_GatewayID n \<noteq> i \<Longrightarrow> sns s3 k = Some n"
    using DeleteGateway [OF assms(4,7)] assms(6) s1 by simp_all
  show "ok s3" "gws s3 = gws s" by (rule create_delete [OF assms(1-5,7)])+
  show "sns s3 = sns s"
  proof
    fix k
    show "sns s3 k = sns s k"
    proof (cases "sns s k")
      case None
      then show ?thesis using sub by (metis domIff map_le_def)
    next
      case (Some n)
      then have "sn_GatewayID n \<in> dom (gws s)" using sensor_gateway [OF assms(1)] by (blast intro: ranI)
      then have "sn_GatewayID n \<noteq> i" using fresh by auto
      then show ?thesis using Some keep by simp
    qed
  qed
qed

text \<open>Creating a gateway whose management id is taken fails.\<close>

lemma create_taken:
  assumes "ok s" and "key_ok (gw_EncryptionKey g)" and "h \<in> ran (gws s)"
    and "gw_ManagementGatewayID h = gw_ManagementGatewayID g"
  shows "isl (fst (op_CreateGateway ops g s))"
proof (rule ccontr)
  obtain r s' where c: "op_CreateGateway ops g s = (r, s')" by force
  assume "\<not> ?thesis"
  with c obtain i where r: "r = Inr i" by (cases r) auto
  note l = CreateGateway [OF assms(1,2) c, unfolded r, simplified]
  obtain j where j: "gws s j = Some h" using assms(3) by (auto simp: ran_def)
  then have "j \<noteq> i" using l by auto
  then have "h \<in> ran (gws s')" "g\<lparr>gw_ID := i\<rparr> \<in> ran (gws s')" using l j by (auto simp: ran_def)
  then have "h = g\<lparr>gw_ID := i\<rparr>" using unique_management [of s'] l assms(4) by simp
  then show False using gws_id [OF assms(1) j] \<open>j \<noteq> i\<close> by simp
qed

end

end
