(* ===== verification/Worker.thy ===== *)
theory Worker
  imports Message_Buffer Generators Gateway_Store
begin

text \<open>
  \<^verbatim>\<open>internal/app/worker.go\<close>: the worker of one gateway. Its goroutine runs \<^verbatim>\<open>sensorLoop\<close>, one
  \<^verbatim>\<open>select\<close> case at a time; every handler is a function of the worker, of the store it writes to
  (through the operations \<open>ops\<close>), of the metrics and of the environment. The variables of
  \<^verbatim>\<open>sensorLoop\<close> are the field \<open>w_ticker\<close>, the period of the running ticker: it is None
  while there is none, and then the loop reads the configuration channel directly.
\<close>

record activeAnomalyState =
  aa_anomalyType :: AnomalyType
  aa_expiresAt :: time
  aa_packetLossPct :: float64

record innerSensorData =
  sd_Value :: float64
  sd_Unit :: string

definition getUnitForSensor :: "SensorType \<Rightarrow> string" where
  "getUnitForSensor t =
     (if t = Temperature then [CHR 0xC2, CHR 0xB0, CHR ''C'']
      else if t = Humidity then ''%''
      else if t = Pressure then ''hPa''
      else if t = Movement then ''m/s''
      else if t = Biometric then ''bpm''
      else '''')"

definition marshal_innerSensorData :: "'x libs_scheme \<Rightarrow> innerSensorData \<Rightarrow> bytes result" where
  "marshal_innerSensorData L d =
     (case encode_float (sd_Value d) of
        Inl e \<Rightarrow> Inl e
      | Inr j \<Rightarrow> Inr (json_text L (JObj [(''value'', j), (''unit'', JStr (sd_Unit d))])))"

record GatewayWorker =
  w_gateway :: SimGateway
  w_sensors :: "SimSensor list"
  w_generators :: "Generator list"
  w_buffer :: MessageBuffer
  w_publisher :: NATSGatewayPublisher
  w_connClosed :: bool
  w_isRunning :: bool
  w_publisherClosed :: bool
  w_commandCh :: "IncomingCommand chan"
  w_anomalyCh :: "GatewayAnomalyCommand chan"
  w_outlierCh :: "SensorOutlierCommand chan"
  w_configCh :: "GatewayConfigUpdate chan"
  w_activeAnomaly :: "activeAnomalyState option"
  w_anomalyCommandBuffer :: "IncomingCommand list"
  w_pumpRunning :: bool
  w_ticker :: "duration option"

record WorkerDeps =
  wd_Gateway :: SimGateway
  wd_Sensors :: "SimSensor list"
  wd_Generators :: "Generator list"
  wd_Publisher :: NATSGatewayPublisher
  wd_Buffer :: MessageBuffer

definition NewGatewayWorker :: "WorkerDeps \<Rightarrow> GatewayWorker" where
  "NewGatewayWorker deps =
     \<lparr>w_gateway = wd_Gateway deps,
      w_sensors = wd_Sensors deps,
      w_generators = wd_Generators deps,
      w_buffer = wd_Buffer deps,
      w_publisher = wd_Publisher deps,
      w_connClosed = False,
      w_isRunning = False,
      w_publisherClosed = False,
      w_commandCh = make_chan 10,
      w_anomalyCh = make_chan 10,
      w_outlierCh = make_chan 10,
      w_configCh = make_chan 10,
      w_activeAnomaly = None,
      w_anomalyCommandBuffer = [],
      w_pumpRunning = False,
      w_ticker = None\<rparr>"

text \<open>The error of a range that is empty or reversed, as the worker and the registry build it.\<close>

definition invalidSensorRange :: "SimSensor \<Rightarrow> go_error" where
  "invalidSensorRange sensor =
     Wrap '''' (Sentinel ErrInvalidSensorRange)
       ('': minRange '' @ fmt_2f (sn_MinRange sensor) @ '' must be less than maxRange '' @
        fmt_2f (sn_MaxRange sensor))"

definition AttachSensor ::
  "SimSensor \<Rightarrow> Generator \<Rightarrow> GatewayWorker \<Rightarrow> unit result \<times> GatewayWorker" where
  "AttachSensor sensor gen w =
     (if sn_MaxRange sensor \<le> sn_MinRange sensor then (Inl (invalidSensorRange sensor), w)
      else (Inr (), w\<lparr>w_sensors := w_sensors w @ [sensor], w_generators := w_generators w @ [gen]\<rparr>))"

subsection \<open>Tickers\<close>

text \<open>
  \<^verbatim>\<open>time.Duration(ms) * time.Millisecond\<close> wraps, and a period that is not positive is a panic.
\<close>

definition NewTicker :: "int64 \<Rightarrow> duration go" where
  "NewTicker ms =
     (let d = ms * Millisecond
      in if sint d \<le> 0 then Panic ''non-positive interval for NewTicker'' else Return d)"

definition ticker_Reset :: "int64 \<Rightarrow> duration go" where
  "ticker_Reset ms =
     (let d = ms * Millisecond
      in if sint d \<le> 0 then Panic ''non-positive interval for Ticker.Reset'' else Return d)"

subsection \<open>Starting and stopping\<close>

text \<open>
  \<^verbatim>\<open>Start\<close> up to the point where the loop goroutine waits in its \<^verbatim>\<open>select\<close> for the first time.
\<close>

definition worker_Start :: "GatewayWorker \<Rightarrow> GatewayWorker go" where
  "worker_Start w =
     (if w_isRunning w then Return w
      else
        let w = w\<lparr>w_isRunning := True\<rparr>
        in if 0 < sint (gw_SendFrequencyMs (w_gateway w))
           then go_bind (NewTicker (gw_SendFrequencyMs (w_gateway w)))
                  (\<lambda>d. Return (w\<lparr>w_ticker := Some d\<rparr>))
           else Return (w\<lparr>w_ticker := None\<rparr>))"

text \<open>
  \<^verbatim>\<open>Stop\<close>: the loop ends (its ticker is stopped), and the first call closes the publisher and
  the connection. A loop that does not end before the timeout is not modelled.
\<close>

definition worker_Stop :: "GatewayWorker \<Rightarrow> GatewayWorker" where
  "worker_Stop w =
     (if \<not> w_isRunning w then w
      else
        let w = w\<lparr>w_isRunning := False, w_ticker := None\<rparr>
        in if w_publisherClosed w then w
           else w\<lparr>w_publisherClosed := True, w_publisher := publisher_Close (w_publisher w),
                  w_connClosed := True\<rparr>)"

definition worker_IsRunning :: "GatewayWorker \<Rightarrow> bool" where
  "worker_IsRunning w = w_isRunning w"

subsection \<open>Commands\<close>

text \<open>
  The payload of a command that has none is the empty string, which is not JSON: the decoder gets
  None. The operation of the store is the only effect of the handlers besides the config channel.
\<close>

definition handleConfigUpdateCommand ::
  "'s store_ops \<Rightarrow> json option \<Rightarrow> GatewayWorker \<times> 's
     \<Rightarrow> (CommandACKStatus \<times> string option) \<times> GatewayWorker \<times> 's" where
  "handleConfigUpdateCommand ops payload ws =
     (let (w, s) = ws
      in case unmarshal_CommandConfigPayload payload of
           Inl err \<Rightarrow> ((NACK, Some (''invalid config payload: '' @ err_text err)), w, s)
         | Inr p \<Rightarrow>
             let (freq, s) =
               (case cp_SendFrequencyMs p of
                  None \<Rightarrow> (None, s)
                | Some f \<Rightarrow>
                    if sint f \<le> 0 then (Some ''sendFrequencyMs must be > 0'', s)
                    else (case op_UpdateFrequency ops (gw_ID (w_gateway w)) f s of
                            (Inl err, s) \<Rightarrow> (Some (''failed to update frequency in store: '' @ err_text err), s)
                          | (Inr _, s) \<Rightarrow> (None, s)))
             in case freq of
                  Some msg \<Rightarrow> ((NACK, Some msg), w, s)
                | None \<Rightarrow>
                    let (stat, s) =
                      (case cp_Status p of
                         None \<Rightarrow> (None, s)
                       | Some st \<Rightarrow>
                           (case op_UpdateStatus ops (gw_ID (w_gateway w)) st s of
                              (Inl err, s) \<Rightarrow> (Some (''failed to persist status: '' @ err_text err), s)
                            | (Inr _, s) \<Rightarrow> (None, s)))
                    in case stat of
                         Some msg \<Rightarrow> ((NACK, Some msg), w, s)
                       | None \<Rightarrow>
                           let update = \<lparr>cu_SendFrequencyMs = cp_SendFrequencyMs p, cu_Status = cp_Status p\<rparr>
                           in case try_send update (w_configCh w) of
                                Some c \<Rightarrow> ((ACK, None), w\<lparr>w_configCh := c\<rparr>, s)
                              | None \<Rightarrow> ((NACK, Some ''config channel full''), w, s))"

definition handleFirmwarePushCommand ::
  "'s store_ops \<Rightarrow> json option \<Rightarrow> GatewayWorker \<times> 's
     \<Rightarrow> (CommandACKStatus \<times> string option) \<times> GatewayWorker \<times> 's" where
  "handleFirmwarePushCommand ops payload ws =
     (let (w, s) = ws
      in case unmarshal_CommandFirmwarePayload payload of
           Inl err \<Rightarrow> ((NACK, Some (''invalid firmware payload: '' @ err_text err)), w, s)
         | Inr p \<Rightarrow>
             if fp_FirmwareVersion p = '''' then ((ACK, None), w, s)
             else (case op_UpdateFirmwareVersion ops (gw_ID (w_gateway w)) (fp_FirmwareVersion p) s of
                     (Inl err, s) \<Rightarrow> ((NACK, Some (err_text err)), w, s)
                   | (Inr _, s) \<Rightarrow> ((ACK, None), w, s)))"

definition processIncomingCommand ::
  "'s store_ops \<Rightarrow> IncomingCommand \<Rightarrow> GatewayWorker \<times> 's
     \<Rightarrow> (CommandACKStatus \<times> string option) \<times> GatewayWorker \<times> 's" where
  "processIncomingCommand ops cmd ws =
     (if ic_Type cmd = ConfigUpdate then handleConfigUpdateCommand ops (ic_Payload cmd) ws
      else if ic_Type cmd = FirmwarePush then handleFirmwarePushCommand ops (ic_Payload cmd) ws
      else ((NACK, Some ''unknown command type''), ws))"

definition ack_subject :: "'x libs_scheme \<Rightarrow> GatewayWorker \<Rightarrow> string" where
  "ack_subject L w =
     ''command.ack.'' @ gw_TenantID (w_gateway w) @ ''.'' @ uuid_String L (gw_ManagementGatewayID (w_gateway w))"

text \<open>
  \<^verbatim>\<open>sendACK\<close>: a failure to encode or to publish is logged only.
\<close>

definition sendACK ::
  "'x libs_scheme \<Rightarrow> string \<Rightarrow> CommandACKStatus \<times> string option \<Rightarrow> GatewayWorker \<times> env
     \<Rightarrow> (GatewayWorker \<times> env) go" where
  "sendACK L commandID answer we =
     (let (w, e) = we;
          (now, e) = clock_Now e;
          ack = \<lparr>ack_CommandID = commandID, ack_Status = fst answer, ack_Message = snd answer,
                 ack_Timestamp = now\<rparr>
      in case marshal_CommandACK L ack of
           Inl _ \<Rightarrow> Return (w, e)
         | Inr payload \<Rightarrow>
             go_bind (publisher_Publish (ack_subject L w) payload (w_publisher w) e)
               (\<lambda>(_, p, e). Return (w\<lparr>w_publisher := p\<rparr>, e)))"

text \<open>The two lines that answer one command.\<close>

definition answer ::
  "'x libs_scheme \<Rightarrow> 's store_ops \<Rightarrow> IncomingCommand \<Rightarrow> GatewayWorker \<times> 's \<times> env
     \<Rightarrow> (GatewayWorker \<times> 's \<times> env) go" where
  "answer L ops cmd wse =
     (let (w, s, e) = wse;
          (ans, w, s) = processIncomingCommand ops cmd (w, s)
      in go_bind (sendACK L (ic_CommandID cmd) ans (w, e)) (\<lambda>(w, e). Return (w, s, e)))"

definition handleIncomingCommand ::
  "'x libs_scheme \<Rightarrow> 's store_ops \<Rightarrow> IncomingCommand \<Rightarrow> GatewayWorker \<times> 's \<times> env
     \<Rightarrow> (GatewayWorker \<times> 's \<times> env) go" where
  "handleIncomingCommand L ops cmd wse =
     (let (w, s, e) = wse
      in if w_activeAnomaly w \<noteq> None
         then Return (w\<lparr>w_anomalyCommandBuffer := w_anomalyCommandBuffer w @ [cmd]\<rparr>, s, e)
         else answer L ops cmd (w, s, e))"

fun answer_all ::
  "'x libs_scheme \<Rightarrow> 's store_ops \<Rightarrow> IncomingCommand list \<Rightarrow> GatewayWorker \<times> 's \<times> env
     \<Rightarrow> (GatewayWorker \<times> 's \<times> env) go" where
  "answer_all L ops [] wse = Return wse"
| "answer_all L ops (cmd # cmds) wse = go_bind (answer L ops cmd wse) (answer_all L ops cmds)"

definition flushBufferedCommands ::
  "'x libs_scheme \<Rightarrow> 's store_ops \<Rightarrow> GatewayWorker \<times> 's \<times> env \<Rightarrow> (GatewayWorker \<times> 's \<times> env) go" where
  "flushBufferedCommands L ops wse =
     go_bind (answer_all L ops (w_anomalyCommandBuffer (fst wse)) wse)
       (\<lambda>(w, s, e). Return (w\<lparr>w_anomalyCommandBuffer := []\<rparr>, s, e))"

subsection \<open>Anomalies\<close>

definition handleAnomalyCommand :: "GatewayAnomalyCommand \<Rightarrow> GatewayWorker \<times> env \<Rightarrow> GatewayWorker \<times> env" where
  "handleAnomalyCommand cmd we =
     (let (w, e) = we;
          state = \<lparr>aa_anomalyType = ac_Type cmd, aa_expiresAt = 0, aa_packetLossPct = Finite 0\<rparr>;
          (state, e) =
            (if ac_Type cmd = NetworkDegradation then
               (case ac_NetworkDegradation cmd of
                  None \<Rightarrow> (state, e)
                | Some p \<Rightarrow>
                    let (now, e) = clock_Now e;
                        loss = nd_PacketLossPct p;
                        loss = (if Finite 1 < loss then loss / Finite 100 else loss)
                    in (state\<lparr>aa_expiresAt := time_Add now (nd_DurationSeconds p * Second),
                              aa_packetLossPct := loss\<rparr>, e))
             else if ac_Type cmd = Disconnect then
               (case ac_Disconnect cmd of
                  None \<Rightarrow> (state, e)
                | Some p \<Rightarrow>
                    let (now, e) = clock_Now e
                    in (state\<lparr>aa_expiresAt := time_Add now (dc_DurationSeconds p * Second)\<rparr>, e))
             else (state, e))
      in (w\<lparr>w_activeAnomaly := Some state\<rparr>, e))"

definition checkAnomalyExpiry ::
  "'x libs_scheme \<Rightarrow> 's store_ops \<Rightarrow> GatewayWorker \<times> 's \<times> env \<Rightarrow> (GatewayWorker \<times> 's \<times> env) go" where
  "checkAnomalyExpiry L ops wse =
     (let (w, s, e) = wse
      in case w_activeAnomaly w of
           None \<Rightarrow> Return (w, s, e)
         | Some a \<Rightarrow>
             if IsZero (aa_expiresAt a) then Return (w, s, e)
             else
               let (now, e) = clock_Now e
               in if time_Before now (aa_expiresAt a) then Return (w, s, e)
                  else flushBufferedCommands L ops (w\<lparr>w_activeAnomaly := None\<rparr>, s, e))"

subsection \<open>The control channels\<close>

text \<open>
  One configuration update per tick: a frequency that is not positive discards the whole update.
\<close>

definition apply_status :: "GatewayConfigUpdate \<Rightarrow> GatewayWorker \<Rightarrow> GatewayWorker" where
  "apply_status cfg w =
     (case cu_Status cfg of
        None \<Rightarrow> w
      | Some st \<Rightarrow> w\<lparr>w_gateway := (w_gateway w)\<lparr>gw_Status := st\<rparr>\<rparr>)"

definition apply_config :: "GatewayConfigUpdate \<Rightarrow> GatewayWorker \<Rightarrow> GatewayWorker go" where
  "apply_config cfg w =
     (case cu_SendFrequencyMs cfg of
        None \<Rightarrow> Return (apply_status cfg w)
      | Some f \<Rightarrow>
          if sint f \<le> 0 then Return w
          else go_bind (ticker_Reset f)
                 (\<lambda>d. Return (apply_status cfg
                    (w\<lparr>w_gateway := (w_gateway w)\<lparr>gw_SendFrequencyMs := f\<rparr>, w_ticker := Some d\<rparr>))))"

definition drainConfig :: "GatewayWorker \<Rightarrow> GatewayWorker go" where
  "drainConfig w =
     (case try_recv (w_configCh w) of
        None \<Rightarrow> Return w
      | Some (cfg, c) \<Rightarrow> apply_config cfg (w\<lparr>w_configCh := c\<rparr>))"

text \<open>
  The search for the sensor of an outlier, and the injection at its index; Go panics when the
  slice of generators is shorter.
\<close>

fun sensor_index :: "uuid \<Rightarrow> SimSensor list \<Rightarrow> nat option" where
  "sensor_index u [] = None"
| "sensor_index u (n # ns) = (if sn_SensorID n = u then Some 0 else map_option Suc (sensor_index u ns))"

definition inject_command :: "SensorOutlierCommand \<Rightarrow> GatewayWorker \<Rightarrow> GatewayWorker go" where
  "inject_command cmd w =
     (case sensor_index (oc_SensorID cmd) (w_sensors w) of
        None \<Rightarrow> Return w
      | Some i \<Rightarrow>
          let v = (case oc_Value cmd of
                     Some v \<Rightarrow> v | None \<Rightarrow> sn_MaxRange (w_sensors w ! i) * Finite 2)
          in if length (w_generators w) \<le> i then Panic ''runtime error: index out of range''
             else Return (w\<lparr>w_generators :=
                    (w_generators w)[i := generator_InjectOutlier v (w_generators w ! i)]\<rparr>))"

fun inject_all :: "SensorOutlierCommand list \<Rightarrow> GatewayWorker \<Rightarrow> GatewayWorker go" where
  "inject_all [] w = Return w"
| "inject_all (cmd # cmds) w = go_bind (inject_command cmd w) (inject_all cmds)"

definition drainOutliers :: "GatewayWorker \<Rightarrow> GatewayWorker go" where
  "drainOutliers w =
     go_bind (inject_all (ch_buf (w_outlierCh w)) w)
       (\<lambda>w. Return (w\<lparr>w_outlierCh := Chan (ch_cap (w_outlierCh w)) []\<rparr>))"

definition drainControlChannels :: "GatewayWorker \<times> env \<Rightarrow> (GatewayWorker \<times> env) go" where
  "drainControlChannels we =
     (let (w, e) = we
      in go_bind (drainConfig w) (\<lambda>w.
           let (w, e) = (case try_recv (w_anomalyCh w) of
                 None \<Rightarrow> (w, e)
               | Some (cmd, c) \<Rightarrow> handleAnomalyCommand cmd (w\<lparr>w_anomalyCh := c\<rparr>, e))
           in go_bind (drainOutliers w) (\<lambda>w. Return (w, e))))"

subsection \<open>Telemetry\<close>

definition isCommunicationBlocked :: "GatewayWorker \<Rightarrow> bool" where
  "isCommunicationBlocked w =
     (let isDisconnected = (case w_activeAnomaly w of None \<Rightarrow> False | Some a \<Rightarrow> aa_anomalyType a = Disconnect);
          isNotOnline = (gw_Status (w_gateway w) = Paused \<or> gw_Status (w_gateway w) = Offline)
      in isDisconnected \<or> isNotOnline)"

definition encryptor_Encrypt :: "EncryptionKey \<Rightarrow> bytes \<Rightarrow> env \<Rightarrow> EncryptedPayload result \<times> env" where
  "encryptor_Encrypt k b e = (env_encrypt e (env_pos e) k b, env_tick e)"

definition buildEnvelope ::
  "'x libs_scheme \<Rightarrow> SimSensor \<Rightarrow> EncryptedPayload \<Rightarrow> GatewayWorker \<times> env \<Rightarrow> TelemetryEnvelope \<times> env" where
  "buildEnvelope L sensor payload we =
     (let (w, e) = we;
          (now, e) = clock_Now e
      in (\<lparr>te_GatewayID = uuid_String L (gw_ManagementGatewayID (w_gateway w)),
           te_SensorID = uuid_String L (sn_SensorID sensor),
           te_SensorType = sn_Type sensor,
           te_Timestamp = now,
           te_KeyVersion = 1,
           te_EncryptedData = ep_EncryptedData payload,
           te_IV = ep_IV payload,
           te_AuthTag = ep_AuthTag payload\<rparr>, e))"

text \<open>
  One reading, up to the bytes of its envelope: the value is drawn and the generator moves on
  even when the reading is lost to an encoding or encryption error.
\<close>

definition read_sensor ::
  "'x libs_scheme \<Rightarrow> SimSensor \<Rightarrow> Generator \<Rightarrow> GatewayWorker \<times> env
     \<Rightarrow> bytes result \<times> Generator \<times> env" where
  "read_sensor L sensor gen we =
     (let (w, e) = we;
          (v, gen, e) = generator_Next L gen e
      in case marshal_innerSensorData L \<lparr>sd_Value = v, sd_Unit = getUnitForSensor (sn_Type sensor)\<rparr> of
           Inl err \<Rightarrow> (Inl err, gen, e)
         | Inr inner \<Rightarrow>
             let (enc, e) = encryptor_Encrypt (gw_EncryptionKey (w_gateway w)) inner e
             in case enc of
                  Inl err \<Rightarrow> (Inl err, gen, e)
                | Inr payload \<Rightarrow>
                    let (envelope, e) = buildEnvelope L sensor payload (w, e)
                    in (marshal_TelemetryEnvelope L envelope, gen, e))"

text \<open>Packet loss while the network is degraded.\<close>

definition packet_lost :: "GatewayWorker \<times> env \<Rightarrow> bool \<times> env" where
  "packet_lost we =
     (let (w, e) = we
      in case w_activeAnomaly w of
           None \<Rightarrow> (False, e)
         | Some a \<Rightarrow>
             if aa_anomalyType a = NetworkDegradation
             then let (r, e) = rand_Float64 e in (r < aa_packetLossPct a, e)
             else (False, e))"

definition sendSensorTelemetry ::
  "'x libs_scheme \<Rightarrow> SimSensor \<Rightarrow> Generator \<Rightarrow> GatewayWorker \<times> metrics \<times> env
     \<Rightarrow> Generator \<times> GatewayWorker \<times> metrics \<times> env" where
  "sendSensorTelemetry L sensor gen wme =
     (let (w, m, e) = wme;
          (r, gen, e) = read_sensor L sensor gen (w, e)
      in case r of
           Inl _ \<Rightarrow> (gen, w, m, e)
         | Inr envBytes \<Rightarrow>
             let (lost, e) = packet_lost (w, e)
             in if lost then (gen, w, m, e)
                else let (b, m) = Send envBytes (w_buffer w, m) in (gen, w\<lparr>w_buffer := b\<rparr>, m, e))"

fun publish_from ::
  "'x libs_scheme \<Rightarrow> nat \<Rightarrow> SimSensor list \<Rightarrow> GatewayWorker \<times> metrics \<times> env
     \<Rightarrow> (GatewayWorker \<times> metrics \<times> env) go" where
  "publish_from L i [] wme = Return wme"
| "publish_from L i (sensor # sensors) (w, m, e) =
     (if length (w_generators w) \<le> i then Panic ''runtime error: index out of range''
      else
        let (gen, w, m, e) = sendSensorTelemetry L sensor (w_generators w ! i) (w, m, e)
        in publish_from L (Suc i) sensors (w\<lparr>w_generators := (w_generators w)[i := gen]\<rparr>, m, e))"

definition publishSensorData ::
  "'x libs_scheme \<Rightarrow> GatewayWorker \<times> metrics \<times> env \<Rightarrow> (GatewayWorker \<times> metrics \<times> env) go" where
  "publishSensorData L wme =
     (let (w, m, e) = wme
      in if isCommunicationBlocked w then Return (w, m, e)
         else publish_from L 0 (w_sensors w) (w, m, e))"

definition processTick ::
  "'x libs_scheme \<Rightarrow> 's store_ops \<Rightarrow> GatewayWorker \<times> 's \<times> metrics \<times> env
     \<Rightarrow> (GatewayWorker \<times> 's \<times> metrics \<times> env) go" where
  "processTick L ops wsme =
     (let (w, s, m, e) = wsme
      in go_bind (drainControlChannels (w, e)) (\<lambda>(w, e).
         go_bind (checkAnomalyExpiry L ops (w, s, e)) (\<lambda>(w, s, e).
         go_bind (publishSensorData L (w, m, e)) (\<lambda>(w, m, e).
         Return (w, s, m, e)))))"

subsection \<open>The loop\<close>

text \<open>
  The cases of the \<^verbatim>\<open>select\<close> in \<^verbatim>\<open>sensorLoop\<close> besides \<^verbatim>\<open>ctx.Done\<close>. The result is
  None when the case is not ready.
\<close>

datatype loop_case = Config_case | Command_case | Tick_case

definition sensorLoop_case ::
  "'x libs_scheme \<Rightarrow> 's store_ops \<Rightarrow> loop_case \<Rightarrow> GatewayWorker \<times> 's \<times> metrics \<times> env
     \<Rightarrow> (GatewayWorker \<times> 's \<times> metrics \<times> env) go option" where
  "sensorLoop_case L ops c wsme =
     (let (w, s, m, e) = wsme
      in case c of
           Config_case \<Rightarrow>
             if w_ticker w \<noteq> None then None
             else (case try_recv (w_configCh w) of
                     None \<Rightarrow> None
                   | Some (cfg, ch) \<Rightarrow>
                       let w = w\<lparr>w_configCh := ch\<rparr>
                       in Some (case cu_SendFrequencyMs cfg of
                            None \<Rightarrow> Return (w, s, m, e)
                          | Some f \<Rightarrow>
                              if 0 < sint f then
                                go_bind (NewTicker f) (\<lambda>d. Return
                                  (w\<lparr>w_gateway := (w_gateway w)\<lparr>gw_SendFrequencyMs := f\<rparr>,
                                     w_ticker := Some d\<rparr>, s, m, e))
                              else Return (w, s, m, e)))
         | Command_case \<Rightarrow>
             (case try_recv (w_commandCh w) of
                None \<Rightarrow> None
              | Some (cmd, ch) \<Rightarrow>
                  Some (go_bind (handleIncomingCommand L ops cmd (w\<lparr>w_commandCh := ch\<rparr>, s, e))
                    (\<lambda>(w, s, e). Return (w, s, m, e))))
         | Tick_case \<Rightarrow>
             if w_ticker w = None then None else Some (processTick L ops (w, s, m, e)))"

end
