(* ===== verification/Worker_Facts.thy ===== *)
theory Worker_Facts
  imports Worker
begin

text \<open>
  What the handlers of the worker change, the worker's invariant, and the absence of run-time
  panics in a tick.
\<close>

subsection \<open>Frames\<close>

text \<open>The environment up to the number of reads.\<close>

definition oracles :: "env \<Rightarrow> env" where
  "oracles e = e\<lparr>env_pos := 0\<rparr>"

lemma oracles_tick [simp]: "oracles (env_tick e) = oracles e"
  by (simp add: oracles_def env_tick_def)

lemma oracles_pos [simp]: "oracles (e\<lparr>env_pos := n\<rparr>) = oracles e"
  by (simp add: oracles_def)

lemma oracles_eqD:
  assumes "oracles e = oracles e'"
  shows "env_publish e = env_publish e'" "env_clock e = env_clock e'" "env_rand e = env_rand e'"
    "env_encrypt e = env_encrypt e'" "env_uuid e = env_uuid e'" "env_onboard e = env_onboard e'"
    "env_connect e = env_connect e'"
  using assms by (auto simp: oracles_def dest: arg_cong [where f = env_publish] arg_cong [where f = env_clock]
      arg_cong [where f = env_rand] arg_cong [where f = env_encrypt] arg_cong [where f = env_uuid]
      arg_cong [where f = env_onboard] arg_cong [where f = env_connect])

lemma clock_Now_simps [simp]: "fst (clock_Now e) = env_clock e (env_pos e)"
  by (simp add: clock_Now_def)

lemma clock_Now_eq: "clock_Now e = (env_clock e (env_pos e), env_tick e)"
  by (simp add: clock_Now_def)

lemma rand_Float64_eq: "rand_Float64 e = (env_rand e (env_pos e), env_tick e)"
  by (simp add: rand_Float64_def)

lemma handleConfig_frame:
  assumes "handleConfigUpdateCommand ops p (w, s) = (ans, w', s')"
  shows "(w' = w \<and> fst ans = NACK) \<or>
    (\<exists>u c. try_send u (w_configCh w) = Some c \<and> w' = w\<lparr>w_configCh := c\<rparr> \<and> ans = (ACK, None))"
  using assms
  by (auto simp: handleConfigUpdateCommand_def Let_def split: sum.splits option.splits prod.splits if_splits)

lemma processIncoming_frame:
  assumes "processIncomingCommand ops cmd (w, s) = (ans, w', s')"
  shows "fst ans \<in> {ACK, NACK} \<and>
    (w' = w \<or> (\<exists>u c. try_send u (w_configCh w) = Some c \<and> w' = w\<lparr>w_configCh := c\<rparr>))"
  using assms
  by (auto simp: processIncomingCommand_def handleFirmwarePushCommand_def Let_def
      dest!: handleConfig_frame split: sum.splits prod.splits if_splits)

text \<open>An ACK takes two reads of the environment, the clock and the broker, or one when it cannot be encoded.\<close>

lemma sendACK_frame:
  assumes "sendACK L i ans (w, e) = Return (w', e')"
  shows "(\<exists>p. w' = w\<lparr>w_publisher := p\<rparr> \<and> pub_js p = pub_js (w_publisher w)) \<and> oracles e' = oracles e"
proof (cases "marshal_CommandACK L \<lparr>ack_CommandID = i, ack_Status = fst ans, ack_Message = snd ans,
    ack_Timestamp = env_clock e (env_pos e)\<rparr>")
  case (Inl err)
  then have "w' = w \<and> e' = env_tick e" using assms by (auto simp: sendACK_def clock_Now_eq)
  then show ?thesis by (auto intro: exI [of _ "w_publisher w"])
next
  case (Inr payload)
  with assms obtain r p where
    "publisher_Publish (ack_subject L w) payload (w_publisher w) (env_tick e) = Return (r, p, e')"
    "w' = w\<lparr>w_publisher := p\<rparr>"
    by (auto simp: sendACK_def clock_Now_eq go_bind_eq_Return)
  with publish_frame(1-3) [OF this(1)] show ?thesis by auto
qed

text \<open>Answering a command touches the configuration channel and the publisher only.\<close>

definition answered_to :: "GatewayWorker \<Rightarrow> GatewayWorker \<Rightarrow> bool" where
  "answered_to w w' \<longleftrightarrow> (\<exists>c p. w' = w\<lparr>w_configCh := c, w_publisher := p\<rparr> \<and>
      (chan_ok (w_configCh w) \<longrightarrow> chan_ok c) \<and> ch_cap c = ch_cap (w_configCh w) \<and>
      pub_js p = pub_js (w_publisher w))"

lemma answered_to_refl: "answered_to w w"
  unfolding answered_to_def by (intro exI [of _ "w_configCh w"] exI [of _ "w_publisher w"]) simp

lemma answered_to_trans: "answered_to w w1 \<Longrightarrow> answered_to w1 w2 \<Longrightarrow> answered_to w w2"
  unfolding answered_to_def by (elim exE, rule_tac x = ca in exI, rule_tac x = pa in exI) simp

lemma answered_to_send:
  assumes "try_send u (w_configCh w) = Some c"
  shows "answered_to w (w\<lparr>w_configCh := c\<rparr>)"
  unfolding answered_to_def
  using assms chan_ok_send [OF assms]
  by (intro exI [of _ c] exI [of _ "w_publisher w"]) (simp add: go_chan.send_Some)

lemma answered_to_publish: "pub_js p = pub_js (w_publisher w) \<Longrightarrow> answered_to w (w\<lparr>w_publisher := p\<rparr>)"
  unfolding answered_to_def by (intro exI [of _ "w_configCh w"] exI [of _ p]) simp

lemma answered_toD:
  assumes "answered_to w w'"
  shows "w_gateway w' = w_gateway w" "w_sensors w' = w_sensors w" "w_generators w' = w_generators w"
    "w_buffer w' = w_buffer w" "w_isRunning w' = w_isRunning w" "w_activeAnomaly w' = w_activeAnomaly w"
    "w_commandCh w' = w_commandCh w" "w_anomalyCh w' = w_anomalyCh w" "w_outlierCh w' = w_outlierCh w"
    "w_anomalyCommandBuffer w' = w_anomalyCommandBuffer w" "w_ticker w' = w_ticker w"
    "pub_js (w_publisher w') = pub_js (w_publisher w)" "ch_cap (w_configCh w') = ch_cap (w_configCh w)"
    "chan_ok (w_configCh w) \<Longrightarrow> chan_ok (w_configCh w')"
    "w_connClosed w' = w_connClosed w" "w_publisherClosed w' = w_publisherClosed w"
    "w_pumpRunning w' = w_pumpRunning w"
  using assms by (auto simp: answered_to_def)

lemma answer_frame:
  assumes "answer L ops cmd (w, s, e) = Return (w', s', e')"
  shows "oracles e' = oracles e" and "answered_to w w'"
proof -
  obtain ans w1 s1 where p: "processIncomingCommand ops cmd (w, s) = (ans, w1, s1)"
    by (metis prod_cases3)
  from assms p have a: "sendACK L (ic_CommandID cmd) ans (w1, e) = Return (w', e')"
    by (auto simp: answer_def go_bind_eq_Return)
  note f = sendACK_frame [OF a]
  from f show "oracles e' = oracles e" by simp
  have "answered_to w w1" using processIncoming_frame [OF p] answered_to_refl answered_to_send by auto
  moreover have "answered_to w1 w'" using f answered_to_publish by auto
  ultimately show "answered_to w w'" by (rule answered_to_trans)
qed

lemma answer_all_frame:
  "answer_all L ops cmds (w, s, e) = Return (w', s', e') \<Longrightarrow> oracles e' = oracles e \<and> answered_to w w'"
proof (induction cmds arbitrary: w s e)
  case Nil
  then show ?case by (simp add: answered_to_refl)
next
  case (Cons cmd cmds)
  then obtain w1 s1 e1 where a: "answer L ops cmd (w, s, e) = Return (w1, s1, e1)"
    and b: "answer_all L ops cmds (w1, s1, e1) = Return (w', s', e')"
    by (auto simp: go_bind_eq_Return)
  from answer_frame [OF a] Cons.IH [OF b] show ?case by (auto intro: answered_to_trans)
qed

lemma handleAnomaly_frame:
  assumes "handleAnomalyCommand cmd (w, e) = (w', e')"
  shows "\<exists>a. w' = w\<lparr>w_activeAnomaly := Some a\<rparr> \<and> aa_anomalyType a = ac_Type cmd" and "oracles e' = oracles e"
  using assms
  by (auto simp: handleAnomalyCommand_def Let_def clock_Now_eq split: if_splits option.splits prod.splits)

lemma generator_Next_frame:
  "generator_Next L g e = (v, g', e') \<Longrightarrow> g' = without_override g \<and> oracles e' = oracles e"
  using gen.next_plain [of L g e]
  by (cases g) (auto simp: constant_Next_def uniform_Next_def sine_Next_def spike_Next_def Let_def
      clock_Now_eq rand_Float64_eq split: prod.splits option.splits if_splits)

lemma read_sensor_frame:
  assumes "read_sensor L sensor gen (w, e) = (r, gen', e')"
  shows "gen' = without_override gen \<and> oracles e' = oracles e"
  using assms
  by (auto simp: read_sensor_def Let_def encryptor_Encrypt_def buildEnvelope_def clock_Now_eq
      dest!: generator_Next_frame split: prod.splits sum.splits)

lemma packet_lost_frame: "packet_lost (w, e) = (lost, e') \<Longrightarrow> oracles e' = oracles e"
  by (auto simp: packet_lost_def rand_Float64_eq split: option.splits if_splits)

lemma sendSensor_frame:
  assumes "sendSensorTelemetry L sensor gen (w, m, e) = (gen', w', m', e')"
  shows "gen' = without_override gen" and "oracles e' = oracles e"
    and "\<exists>b. w' = w\<lparr>w_buffer := b\<rparr> \<and> (buffer_ok (w_buffer w) \<longrightarrow> buffer_ok b) \<and>
      mb_subject b = mb_subject (w_buffer w) \<and> mb_gatewayID b = mb_gatewayID (w_buffer w) \<and>
      mb_capacity b = mb_capacity (w_buffer w)"
proof -
  obtain r g1 e1 where r: "read_sensor L sensor gen (w, e) = (r, g1, e1)" by (metis prod_cases3)
  obtain lost e2 where l: "packet_lost (w, e1) = (lost, e2)" by force
  obtain pay b m2 where pay: "r = Inr pay \<Longrightarrow> Send pay (w_buffer w, m) = (b, m2)"
    by (metis surj_pair)
  have id: "\<exists>b. w = w\<lparr>w_buffer := b\<rparr> \<and> (buffer_ok (w_buffer w) \<longrightarrow> buffer_ok b) \<and>
      mb_subject b = mb_subject (w_buffer w) \<and> mb_gatewayID b = mb_gatewayID (w_buffer w) \<and>
      mb_capacity b = mb_capacity (w_buffer w)"
    by (rule exI [of _ "w_buffer w"]) simp
  note rf = read_sensor_frame [OF r] and lf = packet_lost_frame [OF l]
  have "gen' = without_override gen \<and> oracles e' = oracles e \<and>
    (\<exists>b. w' = w\<lparr>w_buffer := b\<rparr> \<and> (buffer_ok (w_buffer w) \<longrightarrow> buffer_ok b) \<and>
      mb_subject b = mb_subject (w_buffer w) \<and> mb_gatewayID b = mb_gatewayID (w_buffer w) \<and>
      mb_capacity b = mb_capacity (w_buffer w))"
  proof (cases r)
    case (Inl err)
    then show ?thesis using assms r rf id by (simp add: sendSensorTelemetry_def)
  next
    case (Inr p)
    obtain b m2 where s: "Send p (w_buffer w, m) = (b, m2)" by force
    note sf = Send_frame [OF s] and so = Send_ok [OF _ s]
    show ?thesis
    proof (cases lost)
      case True
      then show ?thesis using assms r l rf lf id Inr by (simp add: sendSensorTelemetry_def)
    next
      case False
      then have "gen' = g1" "e' = e2" "w' = w\<lparr>w_buffer := b\<rparr>"
        using assms r l s Inr by (auto simp: sendSensorTelemetry_def)
      then show ?thesis using rf lf sf so by auto
    qed
  qed
  then show "gen' = without_override gen" and "oracles e' = oracles e"
    and "\<exists>b. w' = w\<lparr>w_buffer := b\<rparr> \<and> (buffer_ok (w_buffer w) \<longrightarrow> buffer_ok b) \<and>
      mb_subject b = mb_subject (w_buffer w) \<and> mb_gatewayID b = mb_gatewayID (w_buffer w) \<and>
      mb_capacity b = mb_capacity (w_buffer w)" by blast+
qed

subsection \<open>The invariant\<close>

definition worker_ok :: "GatewayWorker \<Rightarrow> bool" where
  "worker_ok w \<longleftrightarrow>
     length (w_generators w) = length (w_sensors w) \<and> buffer_ok (w_buffer w) \<and>
     chan_ok (w_commandCh w) \<and> chan_ok (w_anomalyCh w) \<and> chan_ok (w_outlierCh w) \<and> chan_ok (w_configCh w) \<and>
     ch_cap (w_commandCh w) = 10 \<and> ch_cap (w_anomalyCh w) = 10 \<and> ch_cap (w_outlierCh w) = 10 \<and>
     ch_cap (w_configCh w) = 10 \<and>
     (w_anomalyCommandBuffer w \<noteq> [] \<longrightarrow> w_activeAnomaly w \<noteq> None)"

text \<open>What never changes in a worker's life.\<close>

definition worker_identity where
  "worker_identity w =
     (gw_ID (w_gateway w), gw_ManagementGatewayID (w_gateway w), gw_TenantID (w_gateway w),
      gw_EncryptionKey (w_gateway w), mb_subject (w_buffer w), mb_gatewayID (w_buffer w),
      mb_capacity (w_buffer w), w_pumpRunning w)"

text \<open>What every step but the answer to a command keeps, the loop running or not.\<close>

definition keeps :: "GatewayWorker \<Rightarrow> GatewayWorker \<Rightarrow> bool" where
  "keeps w w' \<longleftrightarrow>
     worker_identity w' = worker_identity w \<and> w_sensors w' = w_sensors w \<and> w_publisher w' = w_publisher w \<and>
     w_anomalyCommandBuffer w' = w_anomalyCommandBuffer w \<and> w_isRunning w' = w_isRunning w \<and>
     w_connClosed w' = w_connClosed w \<and> w_publisherClosed w' = w_publisherClosed w \<and>
     length (w_generators w') = length (w_generators w) \<and>
     (w_activeAnomaly w \<noteq> None \<longrightarrow> w_activeAnomaly w' \<noteq> None) \<and> (worker_ok w \<longrightarrow> worker_ok w')"

lemma keeps_refl: "keeps w w"
  by (simp add: keeps_def)

lemma keeps_trans: "keeps w w1 \<Longrightarrow> keeps w1 w2 \<Longrightarrow> keeps w w2"
  by (simp add: keeps_def)

lemma NewGatewayWorker_ok [inv_intros]:
  "length (wd_Generators d) = length (wd_Sensors d) \<Longrightarrow> buffer_ok (wd_Buffer d) \<Longrightarrow> worker_ok (NewGatewayWorker d)"
  by (simp add: worker_ok_def NewGatewayWorker_def chan_ok_make)

lemma AttachSensor_ok [inv_intros]:
  "AttachSensor n g w = (r, w') \<Longrightarrow> worker_ok w \<Longrightarrow> worker_ok w'"
  by (auto simp: worker_ok_def AttachSensor_def split: if_splits)

lemma answered_to_identity: "answered_to w w' \<Longrightarrow> worker_identity w' = worker_identity w"
  by (simp add: worker_identity_def answered_toD)

lemma answered_to_ok: "answered_to w w' \<Longrightarrow> worker_ok w \<Longrightarrow> worker_ok w'"
  using answered_toD by (simp add: worker_ok_def)

subsection \<open>The parts of a tick\<close>

lemma keeps_fields:
  "keeps w (w\<lparr>w_gateway := (w_gateway w)\<lparr>gw_Status := st\<rparr>\<rparr>)"
  "keeps w (w\<lparr>w_gateway := (w_gateway w)\<lparr>gw_SendFrequencyMs := f\<rparr>, w_ticker := d\<rparr>)"
  "keeps w (w\<lparr>w_generators := (w_generators w)[i := g]\<rparr>)"
  by (simp_all add: keeps_def worker_identity_def worker_ok_def)

lemma recv_config_keeps: "try_recv (w_configCh w) = Some (cfg, c) \<Longrightarrow> keeps w (w\<lparr>w_configCh := c\<rparr>)"
  by (auto simp: keeps_def worker_identity_def worker_ok_def go_chan.recv_Some chan_ok_def)

lemma apply_status_keeps: "keeps w (apply_status cfg w)"
  by (simp add: apply_status_def keeps_refl keeps_fields split: option.split)

lemma apply_config_keeps:
  assumes "apply_config cfg w = Return w'"
  shows "keeps w w'"
proof (cases "cu_SendFrequencyMs cfg")
  case None
  then have "w' = apply_status cfg w" using assms by (simp add: apply_config_def)
  then show ?thesis by (simp add: apply_status_keeps)
next
  case (Some f)
  show ?thesis
  proof (cases "sint f \<le> 0")
    case True
    then show ?thesis using assms Some by (simp add: apply_config_def keeps_refl)
  next
    case False
    with assms Some obtain d where d: "apply_status cfg
        (w\<lparr>w_gateway := (w_gateway w)\<lparr>gw_SendFrequencyMs := f\<rparr>, w_ticker := Some d\<rparr>) = w'"
      by (cases "ticker_Reset f") (simp_all add: apply_config_def)
    show ?thesis using keeps_trans [OF keeps_fields(2) apply_status_keeps] unfolding d [symmetric] .
  qed
qed

lemma drainConfig_keeps:
  assumes "drainConfig w = Return w'"
  shows "keeps w w'"
proof (cases "try_recv (w_configCh w)")
  case None
  then show ?thesis using assms by (simp add: drainConfig_def keeps_refl)
next
  case (Some x)
  then obtain cfg c where x: "try_recv (w_configCh w) = Some (cfg, c)" by (cases x) simp
  then show ?thesis
    using assms keeps_trans [OF recv_config_keeps [OF x] apply_config_keeps] by (simp add: drainConfig_def)
qed

lemma anomaly_keeps:
  assumes "handleAnomalyCommand cmd (w, e) = (w', e')"
  shows "keeps w w'"
  using handleAnomaly_frame(1) [OF assms]
  by (auto simp: keeps_def worker_identity_def worker_ok_def)

lemma recv_anomaly_keeps: "try_recv (w_anomalyCh w) = Some (cmd, c) \<Longrightarrow> keeps w (w\<lparr>w_anomalyCh := c\<rparr>)"
  by (auto simp: keeps_def worker_identity_def worker_ok_def go_chan.recv_Some chan_ok_def)

lemma sensor_index_less: "sensor_index u ns = Some i \<Longrightarrow> i < length ns \<and> sn_SensorID (ns ! i) = u"
  by (induction ns arbitrary: i) (auto split: if_splits)

lemma inject_command_keeps: "inject_command cmd w = Return w' \<Longrightarrow> keeps w w'"
  by (auto simp: inject_command_def Let_def keeps_def worker_identity_def worker_ok_def
      split: option.splits if_splits)

lemma inject_all_keeps: "inject_all cmds w = Return w' \<Longrightarrow> keeps w w'"
  by (induction cmds arbitrary: w)
     (auto simp: go_bind_eq_Return keeps_refl intro: keeps_trans inject_command_keeps)

lemma drainOutliers_keeps:
  assumes "drainOutliers w = Return w'"
  shows "keeps w w'"
proof -
  from assms obtain w1 where "inject_all (ch_buf (w_outlierCh w)) w = Return w1"
    and w': "w' = w1\<lparr>w_outlierCh := Chan (ch_cap (w_outlierCh w1)) []\<rparr>"
    by (auto simp: drainOutliers_def go_bind_eq_Return)
  then have "keeps w w1" by (blast intro: inject_all_keeps)
  moreover have "keeps w1 w'" unfolding w'
    by (auto simp: keeps_def worker_identity_def worker_ok_def chan_ok_def)
  ultimately show ?thesis by (rule keeps_trans)
qed

lemma drainControlChannels_keeps:
  assumes "drainControlChannels (w, e) = Return (w', e')"
  shows "keeps w w'" and "oracles e' = oracles e"
proof -
  from assms obtain w1 where c: "drainConfig w = Return w1"
    by (auto simp: drainControlChannels_def go_bind_eq_Return)
  obtain w2 e2 where a: "(case try_recv (w_anomalyCh w1) of None \<Rightarrow> (w1, e)
        | Some (cmd, ch) \<Rightarrow> handleAnomalyCommand cmd (w1\<lparr>w_anomalyCh := ch\<rparr>, e)) = (w2, e2)"
    by force
  from assms a have o: "drainOutliers w2 = Return w'" and e2: "e2 = e'"
    by (auto simp: drainControlChannels_def c go_bind_eq_Return)
  have "keeps w1 w2 \<and> oracles e2 = oracles e"
  proof (cases "try_recv (w_anomalyCh w1)")
    case None
    then show ?thesis using a by (simp add: keeps_refl)
  next
    case (Some x)
    then obtain cmd ch where x: "try_recv (w_anomalyCh w1) = Some (cmd, ch)" by (cases x) simp
    with a have h: "handleAnomalyCommand cmd (w1\<lparr>w_anomalyCh := ch\<rparr>, e) = (w2, e2)" by simp
    show ?thesis
      using keeps_trans [OF recv_anomaly_keeps [OF x] anomaly_keeps [OF h]] handleAnomaly_frame(2) [OF h] by simp
  qed
  then show "keeps w w'" and "oracles e' = oracles e"
    using drainConfig_keeps [OF c] drainOutliers_keeps [OF o] e2 by (auto intro: keeps_trans)
qed

lemma sendSensor_keeps:
  assumes "sendSensorTelemetry L sensor gen (w, m, e) = (gen', w', m', e')"
  shows "keeps w w'"
  using sendSensor_frame(3) [OF assms] by (auto simp: keeps_def worker_identity_def worker_ok_def)

lemma publish_from_keeps:
  "publish_from L i ns (w, m, e) = Return (w', m', e') \<Longrightarrow> keeps w w' \<and> oracles e' = oracles e"
proof (induction ns arbitrary: i w m e)
  case Nil
  then show ?case by (simp add: keeps_refl)
next
  case (Cons n ns)
  obtain g1 w1 m1 e1 where s: "sendSensorTelemetry L n (w_generators w ! i) (w, m, e) = (g1, w1, m1, e1)"
    by (metis prod_cases4)
  let ?w = "w1\<lparr>w_generators := (w_generators w1)[i := g1]\<rparr>"
  from Cons.prems s have "publish_from L (Suc i) ns (?w, m1, e1) = Return (w', m', e')"
    by (simp split: if_splits)
  note IH = Cons.IH [OF this]
  have "keeps w1 ?w" by (auto simp: keeps_def worker_identity_def worker_ok_def)
  then show ?case using IH sendSensor_keeps [OF s] sendSensor_frame(2) [OF s] by (auto intro: keeps_trans)
qed

lemma publishSensorData_keeps:
  "publishSensorData L (w, m, e) = Return (w', m', e') \<Longrightarrow> keeps w w' \<and> oracles e' = oracles e"
  by (auto simp: publishSensorData_def keeps_refl split: if_splits dest: publish_from_keeps)

text \<open>The expiry of an anomaly is the one part of a tick that answers commands.\<close>

lemma checkAnomalyExpiry_cases:
  assumes "checkAnomalyExpiry L ops (w, s, e) = Return (w', s', e')"
  obtains (still) "w' = w" "s' = s" "oracles e' = oracles e"
  | (expired) w1 e1 where "w_activeAnomaly w \<noteq> None" "oracles e1 = oracles e"
      "answer_all L ops (w_anomalyCommandBuffer w) (w\<lparr>w_activeAnomaly := None\<rparr>, s, e1) = Return (w1, s', e')"
      "w' = w1\<lparr>w_anomalyCommandBuffer := []\<rparr>"
proof (cases "w_activeAnomaly w")
  case None
  then show ?thesis using assms still by (simp add: checkAnomalyExpiry_def)
next
  case (Some a)
  show ?thesis
  proof (cases "IsZero (aa_expiresAt a) \<or> time_Before (env_clock e (env_pos e)) (aa_expiresAt a)")
    case True
    then show ?thesis using assms Some still by (auto simp: checkAnomalyExpiry_def clock_Now_eq split: if_splits)
  next
    case False
    then obtain w1 where
      "answer_all L ops (w_anomalyCommandBuffer w) (w\<lparr>w_activeAnomaly := None\<rparr>, s, env_tick e) = Return (w1, s', e')"
      "w' = w1\<lparr>w_anomalyCommandBuffer := []\<rparr>"
      using assms Some by (auto simp: checkAnomalyExpiry_def flushBufferedCommands_def clock_Now_eq go_bind_eq_Return)
    then show ?thesis using expired [of "env_tick e" w1] Some by simp
  qed
qed

lemma checkAnomalyExpiry_ok:
  assumes "checkAnomalyExpiry L ops (w, s, e) = Return (w', s', e')"
  shows "worker_ok w \<longrightarrow> worker_ok w'" and "oracles e' = oracles e"
    and "worker_identity w' = worker_identity w" and "w_sensors w' = w_sensors w"
    and "w_isRunning w' = w_isRunning w" and "pub_js (w_publisher w') = pub_js (w_publisher w)"
    and "w_connClosed w' = w_connClosed w" and "w_publisherClosed w' = w_publisherClosed w"
proof -
  have "(worker_ok w \<longrightarrow> worker_ok w') \<and> oracles e' = oracles e \<and> worker_identity w' = worker_identity w \<and>
    w_sensors w' = w_sensors w \<and> w_isRunning w' = w_isRunning w \<and>
    pub_js (w_publisher w') = pub_js (w_publisher w) \<and>
    w_connClosed w' = w_connClosed w \<and> w_publisherClosed w' = w_publisherClosed w"
    using assms
  proof (cases rule: checkAnomalyExpiry_cases)
    case still
    then show ?thesis by simp
  next
    case (expired w1 e1)
    from answer_all_frame [OF expired(3)] have a: "answered_to (w\<lparr>w_activeAnomaly := None\<rparr>) w1"
      and "oracles e' = oracles e1" by blast+
    then show ?thesis
      using expired(2,4) answered_toD [OF a] by (auto simp: worker_ok_def worker_identity_def)
  qed
  then show "worker_ok w \<longrightarrow> worker_ok w'" and "oracles e' = oracles e"
    and "worker_identity w' = worker_identity w" and "w_sensors w' = w_sensors w"
    and "w_isRunning w' = w_isRunning w" and "pub_js (w_publisher w') = pub_js (w_publisher w)"
    and "w_connClosed w' = w_connClosed w" and "w_publisherClosed w' = w_publisherClosed w"
    by blast+
qed

text \<open>A tick, taken apart.\<close>

lemma processTick_parts:
  assumes "processTick L ops (w, s, m, e) = Return (w', s', m', e')"
  obtains w1 e1 w2 e2 where "drainControlChannels (w, e) = Return (w1, e1)"
    "checkAnomalyExpiry L ops (w1, s, e1) = Return (w2, s', e2)"
    "publishSensorData L (w2, m, e2) = Return (w', m', e')"
  using assms by (auto simp: processTick_def go_bind_eq_Return)

lemma processTick_ok:
  assumes "processTick L ops (w, s, m, e) = Return (w', s', m', e')"
  shows "worker_ok w \<Longrightarrow> worker_ok w'" and "oracles e' = oracles e"
    and "worker_identity w' = worker_identity w" and "w_sensors w' = w_sensors w"
    and "w_isRunning w' = w_isRunning w" and "pub_js (w_publisher w') = pub_js (w_publisher w)"
    and "w_connClosed w' = w_connClosed w" and "w_publisherClosed w' = w_publisherClosed w"
proof -
  from assms obtain w1 e1 w2 e2 where p: "drainControlChannels (w, e) = Return (w1, e1)"
    "checkAnomalyExpiry L ops (w1, s, e1) = Return (w2, s', e2)"
    "publishSensorData L (w2, m, e2) = Return (w', m', e')" by (rule processTick_parts)
  note a = drainControlChannels_keeps [OF p(1)] and b = checkAnomalyExpiry_ok [OF p(2)]
    and c = publishSensorData_keeps [OF p(3)]
  from a b c show "worker_ok w \<Longrightarrow> worker_ok w'" and "oracles e' = oracles e"
    and "worker_identity w' = worker_identity w" and "w_sensors w' = w_sensors w"
    and "w_isRunning w' = w_isRunning w" and "pub_js (w_publisher w') = pub_js (w_publisher w)"
    and "w_connClosed w' = w_connClosed w" and "w_publisherClosed w' = w_publisherClosed w"
    by (auto simp: keeps_def)
qed

end
