(* ===== verification/Sqlite_Store.thy ===== *)
theory Sqlite_Store
  imports Gateway_Store Go_Json
begin

text \<open>
  \<^verbatim>\<open>internal/adapters/sqlite/store.go\<close>: the SQLite store. Its state is the two tables of
  \<^verbatim>\<open>internal/migrations\<close> as lists of rows in rowid order, and the two AUTOINCREMENT counters.
  The columns hold what the code writes (UUIDs as their text, flags as integers, keys as blobs), and
  \<^verbatim>\<open>scanGateway\<close> and \<^verbatim>\<open>scanSensor\<close> read them back. SQL is modelled by what the
  statements used here are documented to do: UNIQUE, NOT NULL and FOREIGN KEY constraints,
  AUTOINCREMENT, ON DELETE CASCADE. Any statement may fail in the driver (a cancelled context, I/O):
  \<open>db_fault\<close> says which, with which message, and a statement that fails has no effect.
\<close>

record gateway_row =
  gr_id :: int64
  gr_management_gateway_id :: string
  gr_factory_id :: string
  gr_factory_key :: string
  gr_model :: string
  gr_firmware_version :: string
  gr_provisioned :: int
  gr_cert_pem :: bytes
  gr_private_key_pem :: bytes
  gr_encryption_key :: bytes
  gr_send_frequency_ms :: int64
  gr_status :: string
  gr_tenant_id :: string
  gr_created_at :: time

record sensor_row =
  sr_id :: int64
  sr_gateway_id :: int64
  sr_sensor_id :: string
  sr_type :: string
  sr_min_range :: float64
  sr_max_range :: float64
  sr_algorithm :: string
  sr_created_at :: time

record SQLiteGatewayStore =
  db_gateways :: "gateway_row list"
  db_sensors :: "sensor_row list"
  db_gatewaySeq :: nat
  db_sensorSeq :: nat
  db_fault :: "nat \<Rightarrow> string option"
  db_calls :: nat

definition empty_store :: "(nat \<Rightarrow> string option) \<Rightarrow> SQLiteGatewayStore" where
  "empty_store f =
     \<lparr>db_gateways = [], db_sensors = [], db_gatewaySeq = 0, db_sensorSeq = 0, db_fault = f, db_calls = 0\<rparr>"

text \<open>
  Opening: \<^verbatim>\<open>sql.Open\<close> is a parameter, which gets the path with the pragma that switches the foreign keys on.
  One connection at most: statements come one after the other.
\<close>

definition NewStore :: "(string \<Rightarrow> 's result) \<Rightarrow> string \<Rightarrow> 's result" where
  "NewStore sql_Open path =
     (case sql_Open (path @ ''?_pragma=foreign_keys(1)'') of
        Inl err \<Rightarrow> Inl (Wrap ''failed to open database: '' err '''')
      | Inr db \<Rightarrow> Inr db)"

text \<open>One statement: the driver's error, if any.\<close>

definition db_statement :: "SQLiteGatewayStore \<Rightarrow> string option \<times> SQLiteGatewayStore" where
  "db_statement s = (db_fault s (db_calls s), s\<lparr>db_calls := Suc (db_calls s)\<rparr>)"

definition boolToInt :: "bool \<Rightarrow> int" where
  "boolToInt b = (if b then 1 else 0)"

subsection \<open>Rows and values\<close>

definition gateway_row_of :: "'x libs_scheme \<Rightarrow> int64 \<Rightarrow> SimGateway \<Rightarrow> gateway_row" where
  "gateway_row_of L i gw =
     \<lparr>gr_id = i,
      gr_management_gateway_id = uuid_String L (gw_ManagementGatewayID gw),
      gr_factory_id = gw_FactoryID gw,
      gr_factory_key = gw_FactoryKey gw,
      gr_model = gw_Model gw,
      gr_firmware_version = gw_FirmwareVersion gw,
      gr_provisioned = boolToInt (gw_Provisioned gw),
      gr_cert_pem = gw_CertPEM gw,
      gr_private_key_pem = gw_PrivateKeyPEM gw,
      gr_encryption_key = EncryptionKey_Bytes (gw_EncryptionKey gw),
      gr_send_frequency_ms = gw_SendFrequencyMs gw,
      gr_status = gw_Status gw,
      gr_tenant_id = gw_TenantID gw,
      gr_created_at = gw_CreatedAt gw\<rparr>"

text \<open>
  What a query hands to \<^verbatim>\<open>Scan\<close>: the driver's error, no row, or a row.
\<close>

definition scanGateway :: "'x libs_scheme \<Rightarrow> string + gateway_row option \<Rightarrow> SimGateway result" where
  "scanGateway L out =
     (case out of
        Inl msg \<Rightarrow> Inl (Wrap ''scan gateway: '' (Plain msg) '''')
      | Inr None \<Rightarrow> Inl (Sentinel ErrGatewayNotFound)
      | Inr (Some r) \<Rightarrow>
          (case uuid_Parse L (gr_management_gateway_id r) of
             None \<Rightarrow> Inl (Wrap ''parse management_gateway_id: '' (Plain ''invalid UUID'') '''')
           | Some u \<Rightarrow>
               (case (if 0 < length (gr_encryption_key r) then NewEncryptionKey (gr_encryption_key r)
                      else Inr zero_EncryptionKey) of
                  Inl e \<Rightarrow> Inl (Wrap ''parse encryption_key: '' e '''')
                | Inr k \<Rightarrow> Inr
                    \<lparr>gw_ID = gr_id r, gw_ManagementGatewayID = u, gw_FactoryID = gr_factory_id r,
                     gw_FactoryKey = gr_factory_key r, gw_Model = gr_model r,
                     gw_FirmwareVersion = gr_firmware_version r,
                     gw_Provisioned = (gr_provisioned r = 1), gw_CertPEM = gr_cert_pem r,
                     gw_PrivateKeyPEM = gr_private_key_pem r, gw_EncryptionKey = k,
                     gw_SendFrequencyMs = gr_send_frequency_ms r, gw_Status = gr_status r,
                     gw_TenantID = gr_tenant_id r, gw_CreatedAt = gr_created_at r\<rparr>)))"

definition sensor_row_of :: "'x libs_scheme \<Rightarrow> int64 \<Rightarrow> SimSensor \<Rightarrow> sensor_row" where
  "sensor_row_of L i sn =
     \<lparr>sr_id = i, sr_gateway_id = sn_GatewayID sn, sr_sensor_id = uuid_String L (sn_SensorID sn),
      sr_type = sn_Type sn, sr_min_range = sn_MinRange sn, sr_max_range = sn_MaxRange sn,
      sr_algorithm = sn_Algorithm sn, sr_created_at = sn_CreatedAt sn\<rparr>"

definition scanSensor :: "'x libs_scheme \<Rightarrow> string + sensor_row option \<Rightarrow> SimSensor result" where
  "scanSensor L out =
     (case out of
        Inl msg \<Rightarrow> Inl (Wrap ''scan sensor: '' (Plain msg) '''')
      | Inr None \<Rightarrow> Inl (Sentinel ErrSensorNotFound)
      | Inr (Some r) \<Rightarrow>
          (case uuid_Parse L (sr_sensor_id r) of
             None \<Rightarrow> Inl (Wrap ''parse sensor_id: '' (Plain ''invalid UUID'') '''')
           | Some u \<Rightarrow> Inr
               \<lparr>sn_ID = sr_id r, sn_GatewayID = sr_gateway_id r, sn_ManagementGatewayID = 0,
                sn_SensorID = u, sn_Type = sr_type r, sn_MinRange = sr_min_range r,
                sn_MaxRange = sr_max_range r, sn_Algorithm = sr_algorithm r,
                sn_CreatedAt = sr_created_at r\<rparr>))"

text \<open>The loop over the rows of a query: the first row that does not scan is the error.\<close>

fun scan_rows :: "(string + 'r option \<Rightarrow> 'a result) \<Rightarrow> 'r list \<Rightarrow> 'a list result" where
  "scan_rows scan [] = Inr []"
| "scan_rows scan (r # rs) =
     (case scan (Inr (Some r)) of
        Inl e \<Rightarrow> Inl e
      | Inr x \<Rightarrow> (case scan_rows scan rs of Inl e \<Rightarrow> Inl e | Inr xs \<Rightarrow> Inr (x # xs)))"

subsection \<open>Gateways\<close>

definition CreateGateway ::
  "'x libs_scheme \<Rightarrow> SimGateway \<Rightarrow> SQLiteGatewayStore \<Rightarrow> int64 result \<times> SQLiteGatewayStore" where
  "CreateGateway L gw s =
     (let (fault, s) = db_statement s;
          fail = (\<lambda>msg. (Inl (Wrap ''create gateway: '' (Plain msg) ''''), s));
          i = of_nat (Suc (db_gatewaySeq s))
      in case fault of
           Some msg \<Rightarrow> fail msg
         | None \<Rightarrow>
             if uuid_String L (gw_ManagementGatewayID gw) \<in> gr_management_gateway_id ` set (db_gateways s)
             then fail ''UNIQUE constraint failed: gateways.management_gateway_id''
             else if max_int64 \<le> int (db_gatewaySeq s) then fail ''database or disk is full''
             else (Inr i, s\<lparr>db_gateways := db_gateways s @ [gateway_row_of L i gw],
                            db_gatewaySeq := Suc (db_gatewaySeq s)\<rparr>))"

definition GetGateway ::
  "'x libs_scheme \<Rightarrow> int64 \<Rightarrow> SQLiteGatewayStore \<Rightarrow> SimGateway result \<times> SQLiteGatewayStore" where
  "GetGateway L i s =
     (let (fault, s) = db_statement s
      in (scanGateway L (case fault of Some msg \<Rightarrow> Inl msg | None \<Rightarrow> Inr (row_at gr_id i (db_gateways s))), s))"

definition GetGatewayByManagementID ::
  "'x libs_scheme \<Rightarrow> uuid \<Rightarrow> SQLiteGatewayStore \<Rightarrow> SimGateway result \<times> SQLiteGatewayStore" where
  "GetGatewayByManagementID L u s =
     (let (fault, s) = db_statement s
      in (scanGateway L (case fault of Some msg \<Rightarrow> Inl msg
            | None \<Rightarrow> Inr (row_at gr_management_gateway_id (uuid_String L u) (db_gateways s))), s))"

text \<open>The query itself may fail, and so may the iteration over its rows (\<^verbatim>\<open>rows.Err\<close>).\<close>

definition ListGateways ::
  "'x libs_scheme \<Rightarrow> SQLiteGatewayStore \<Rightarrow> SimGateway list result \<times> SQLiteGatewayStore" where
  "ListGateways L s =
     (let (fault, s) = db_statement s
      in case fault of
           Some msg \<Rightarrow> (Inl (Wrap ''list gateways: '' (Plain msg) ''''), s)
         | None \<Rightarrow>
             (case scan_rows (scanGateway L) (db_gateways s) of
                Inl e \<Rightarrow> (Inl e, s)
              | Inr gws \<Rightarrow>
                  let (fault, s) = db_statement s
                  in (case fault of Some msg \<Rightarrow> Inl (Plain msg) | None \<Rightarrow> Inr gws, s)))"

definition gatewayNotFound :: "int64 \<Rightarrow> go_error" where
  "gatewayNotFound i = Plain (''gateway with ID '' @ fmt_d (sint i) @ '' not found'')"

text \<open>The shape of the four updates: the SET clause is a function on the row.\<close>

definition update_gateway ::
  "(gateway_row \<Rightarrow> gateway_row) \<Rightarrow> int64 \<Rightarrow> SQLiteGatewayStore \<Rightarrow> unit result \<times> SQLiteGatewayStore" where
  "update_gateway set_clause i s =
     (let (fault, s) = db_statement s
      in case fault of
           Some msg \<Rightarrow> (Inl (Plain msg), s)
         | None \<Rightarrow>
             (if rows_affected gr_id i (db_gateways s) = 0 then Inl (gatewayNotFound i) else Inr (),
              s\<lparr>db_gateways := rows_update gr_id i set_clause (db_gateways s)\<rparr>))"

definition UpdateProvisioned ::
  "int64 \<Rightarrow> ProvisionResult \<Rightarrow> SQLiteGatewayStore \<Rightarrow> unit result \<times> SQLiteGatewayStore" where
  "UpdateProvisioned i res =
     update_gateway (\<lambda>r. r\<lparr>gr_provisioned := 1, gr_cert_pem := pr_CertPEM res,
       gr_private_key_pem := pr_PrivateKeyPEM res,
       gr_encryption_key := EncryptionKey_Bytes (pr_AESKey res)\<rparr>) i"

definition UpdateStatus ::
  "int64 \<Rightarrow> GatewayStatus \<Rightarrow> SQLiteGatewayStore \<Rightarrow> unit result \<times> SQLiteGatewayStore" where
  "UpdateStatus i status = update_gateway (\<lambda>r. r\<lparr>gr_status := status\<rparr>) i"

definition UpdateFrequency ::
  "int64 \<Rightarrow> int64 \<Rightarrow> SQLiteGatewayStore \<Rightarrow> unit result \<times> SQLiteGatewayStore" where
  "UpdateFrequency i frequency = update_gateway (\<lambda>r. r\<lparr>gr_send_frequency_ms := frequency\<rparr>) i"

definition UpdateFirmwareVersion ::
  "int64 \<Rightarrow> string \<Rightarrow> SQLiteGatewayStore \<Rightarrow> unit result \<times> SQLiteGatewayStore" where
  "UpdateFirmwareVersion i version = update_gateway (\<lambda>r. r\<lparr>gr_firmware_version := version\<rparr>) i"

definition DeleteGateway ::
  "int64 \<Rightarrow> SQLiteGatewayStore \<Rightarrow> unit result \<times> SQLiteGatewayStore" where
  "DeleteGateway i s =
     (let (fault, s) = db_statement s
      in case fault of
           Some msg \<Rightarrow> (Inl (Plain msg), s)
         | None \<Rightarrow> (Inr (),
             s\<lparr>db_gateways := filter (\<lambda>r. gr_id r \<noteq> i) (db_gateways s),
               db_sensors := filter (\<lambda>r. sr_gateway_id r \<noteq> i) (db_sensors s)\<rparr>))"

subsection \<open>Sensors\<close>

text \<open>SQLite stores a NaN as NULL, which the NOT NULL constraint of a range column refuses.\<close>

definition CreateSensor ::
  "'x libs_scheme \<Rightarrow> SimSensor \<Rightarrow> SQLiteGatewayStore \<Rightarrow> int64 result \<times> SQLiteGatewayStore" where
  "CreateSensor L sn s =
     (let (fault, s) = db_statement s;
          fail = (\<lambda>msg. (Inl (Wrap ''create sensor: '' (Plain msg) ''''), s));
          i = of_nat (Suc (db_sensorSeq s))
      in case fault of
           Some msg \<Rightarrow> fail msg
         | None \<Rightarrow>
             if sn_MinRange sn = NaN \<or> sn_MaxRange sn = NaN then fail ''NOT NULL constraint failed''
             else if uuid_String L (sn_SensorID sn) \<in> sr_sensor_id ` set (db_sensors s)
             then fail ''UNIQUE constraint failed: sensors.sensor_id''
             else if sn_GatewayID sn \<notin> gr_id ` set (db_gateways s) then fail ''FOREIGN KEY constraint failed''
             else if max_int64 \<le> int (db_sensorSeq s) then fail ''database or disk is full''
             else (Inr i, s\<lparr>db_sensors := db_sensors s @ [sensor_row_of L i sn],
                            db_sensorSeq := Suc (db_sensorSeq s)\<rparr>))"

definition ListSensors ::
  "'x libs_scheme \<Rightarrow> int64 \<Rightarrow> SQLiteGatewayStore \<Rightarrow> SimSensor list result \<times> SQLiteGatewayStore" where
  "ListSensors L i s =
     (let (fault, s) = db_statement s
      in case fault of
           Some msg \<Rightarrow> (Inl (Wrap ''list sensors: '' (Plain msg) ''''), s)
         | None \<Rightarrow>
             (case scan_rows (scanSensor L) (filter (\<lambda>r. sr_gateway_id r = i) (db_sensors s)) of
                Inl e \<Rightarrow> (Inl e, s)
              | Inr sns \<Rightarrow>
                  let (fault, s) = db_statement s
                  in (case fault of Some msg \<Rightarrow> Inl (Plain msg) | None \<Rightarrow> Inr sns, s)))"

definition DeleteSensor ::
  "int64 \<Rightarrow> SQLiteGatewayStore \<Rightarrow> unit result \<times> SQLiteGatewayStore" where
  "DeleteSensor i s =
     (let (fault, s) = db_statement s
      in case fault of
           Some msg \<Rightarrow> (Inl (Plain msg), s)
         | None \<Rightarrow> (Inr (), s\<lparr>db_sensors := filter (\<lambda>r. sr_id r \<noteq> i) (db_sensors s)\<rparr>))"

definition GetSensor ::
  "'x libs_scheme \<Rightarrow> int64 \<Rightarrow> SQLiteGatewayStore \<Rightarrow> SimSensor result \<times> SQLiteGatewayStore" where
  "GetSensor L i s =
     (let (fault, s) = db_statement s
      in (scanSensor L (case fault of Some msg \<Rightarrow> Inl msg | None \<Rightarrow> Inr (row_at sr_id i (db_sensors s))), s))"

definition GetSensorBySensorID ::
  "'x libs_scheme \<Rightarrow> uuid \<Rightarrow> SQLiteGatewayStore \<Rightarrow> SimSensor result \<times> SQLiteGatewayStore" where
  "GetSensorBySensorID L u s =
     (let (fault, s) = db_statement s
      in (scanSensor L (case fault of Some msg \<Rightarrow> Inl msg
            | None \<Rightarrow> Inr (row_at sr_sensor_id (uuid_String L u) (db_sensors s))), s))"

definition sqlite_ops :: "'x libs_scheme \<Rightarrow> SQLiteGatewayStore store_ops" where
  "sqlite_ops L =
     \<lparr>op_CreateGateway = CreateGateway L, op_GetGateway = GetGateway L,
      op_GetGatewayByManagementID = GetGatewayByManagementID L, op_ListGateways = ListGateways L,
      op_UpdateProvisioned = UpdateProvisioned, op_UpdateStatus = UpdateStatus,
      op_UpdateFirmwareVersion = UpdateFirmwareVersion, op_DeleteGateway = DeleteGateway,
      op_CreateSensor = CreateSensor L, op_ListSensors = ListSensors L, op_DeleteSensor = DeleteSensor,
      op_GetSensor = GetSensor L, op_GetSensorBySensorID = GetSensorBySensorID L,
      op_UpdateFrequency = UpdateFrequency\<rparr>"

subsection \<open>Rows and values are the same thing\<close>

definition decode_gateway :: "'x libs_scheme \<Rightarrow> gateway_row \<Rightarrow> SimGateway" where
  "decode_gateway L r = projr (scanGateway L (Inr (Some r)))"

definition decode_sensor :: "'x libs_scheme \<Rightarrow> sensor_row \<Rightarrow> SimSensor" where
  "decode_sensor L r = projr (scanSensor L (Inr (Some r)))"

text \<open>A row that \<^verbatim>\<open>CreateGateway\<close> or an update wrote.\<close>

definition gateway_row_ok :: "'x libs_scheme \<Rightarrow> gateway_row \<Rightarrow> bool" where
  "gateway_row_ok L r \<longleftrightarrow> (\<exists>g. r = gateway_row_of L (gw_ID g) g \<and> key_ok (gw_EncryptionKey g))"

definition sensor_row_ok :: "'x libs_scheme \<Rightarrow> sensor_row \<Rightarrow> bool" where
  "sensor_row_ok L r \<longleftrightarrow> (\<exists>n. r = sensor_row_of L (sn_ID n) n)"

lemma scan_gateway_row:
  assumes "uuid_lawful L" and "key_ok (gw_EncryptionKey g)"
  shows "scanGateway L (Inr (Some (gateway_row_of L i g))) = Inr (g\<lparr>gw_ID := i\<rparr>)"
proof (cases "EncryptionKey_Bytes (gw_EncryptionKey g) = []")
  case True
  then have "zero_EncryptionKey = gw_EncryptionKey g"
    by (simp add: EncryptionKey_Bytes_def zero_EncryptionKey_def)
  then show ?thesis
    using assms(1) True by (simp add: scanGateway_def gateway_row_of_def uuid_lawful_def boolToInt_def)
next
  case False
  then have "NewEncryptionKey (EncryptionKey_Bytes (gw_EncryptionKey g)) = Inr (gw_EncryptionKey g)"
    using assms(2) by (auto simp: key_ok_def EncryptionKey_Bytes_def NewEncryptionKey_def)
  then show ?thesis
    using assms(1) False by (simp add: scanGateway_def gateway_row_of_def uuid_lawful_def boolToInt_def)
qed

lemma scan_sensor_row:
  "uuid_lawful L \<Longrightarrow> scanSensor L (Inr (Some (sensor_row_of L i n))) = Inr (stored (n\<lparr>sn_ID := i\<rparr>))"
  by (simp add: scanSensor_def sensor_row_of_def uuid_lawful_def stored_def)

lemma decode_gateway_row:
  "uuid_lawful L \<Longrightarrow> key_ok (gw_EncryptionKey g) \<Longrightarrow> decode_gateway L (gateway_row_of L i g) = g\<lparr>gw_ID := i\<rparr>"
  by (simp add: decode_gateway_def scan_gateway_row)

lemma decode_sensor_row:
  "uuid_lawful L \<Longrightarrow> decode_sensor L (sensor_row_of L i n) = stored (n\<lparr>sn_ID := i\<rparr>)"
  by (simp add: decode_sensor_def scan_sensor_row)

lemma gateway_row_keys [simp]:
  "gr_id (gateway_row_of L i g) = i"
  "gr_management_gateway_id (gateway_row_of L i g) = uuid_String L (gw_ManagementGatewayID g)"
  by (simp_all add: gateway_row_of_def)

lemma sensor_row_keys [simp]:
  "sr_id (sensor_row_of L i n) = i" "sr_gateway_id (sensor_row_of L i n) = sn_GatewayID n"
  "sr_sensor_id (sensor_row_of L i n) = uuid_String L (sn_SensorID n)"
  by (simp_all add: sensor_row_of_def)

lemma gateway_row_okE:
  assumes "gateway_row_ok L r" and "uuid_lawful L"
  shows "scanGateway L (Inr (Some r)) = Inr (decode_gateway L r)"
    and "gw_ID (decode_gateway L r) = gr_id r"
    and "uuid_String L (gw_ManagementGatewayID (decode_gateway L r)) = gr_management_gateway_id r"
    and "key_ok (gw_EncryptionKey (decode_gateway L r))"
    and "r = gateway_row_of L (gr_id r) (decode_gateway L r)"
proof -
  from assms(1) obtain g where "r = gateway_row_of L (gw_ID g) g" and "key_ok (gw_EncryptionKey g)"
    by (auto simp: gateway_row_ok_def)
  moreover from this assms(2) have "decode_gateway L r = g" by (simp add: decode_gateway_row)
  ultimately show "scanGateway L (Inr (Some r)) = Inr (decode_gateway L r)"
    and "gw_ID (decode_gateway L r) = gr_id r"
    and "uuid_String L (gw_ManagementGatewayID (decode_gateway L r)) = gr_management_gateway_id r"
    and "key_ok (gw_EncryptionKey (decode_gateway L r))"
    and "r = gateway_row_of L (gr_id r) (decode_gateway L r)"
    using assms(2) by (simp_all add: scan_gateway_row)
qed

lemma sensor_row_okE:
  assumes "sensor_row_ok L r" and "uuid_lawful L"
  shows "scanSensor L (Inr (Some r)) = Inr (decode_sensor L r)"
    and "sn_ID (decode_sensor L r) = sr_id r" and "sn_GatewayID (decode_sensor L r) = sr_gateway_id r"
    and "uuid_String L (sn_SensorID (decode_sensor L r)) = sr_sensor_id r"
    and "stored (decode_sensor L r) = decode_sensor L r"
proof -
  from assms(1) obtain n where "r = sensor_row_of L (sn_ID n) n" by (auto simp: sensor_row_ok_def)
  moreover from this assms(2) have "decode_sensor L r = stored n" by (simp add: decode_sensor_row)
  ultimately show "scanSensor L (Inr (Some r)) = Inr (decode_sensor L r)"
    and "sn_ID (decode_sensor L r) = sr_id r" and "sn_GatewayID (decode_sensor L r) = sr_gateway_id r"
    and "uuid_String L (sn_SensorID (decode_sensor L r)) = sr_sensor_id r"
    and "stored (decode_sensor L r) = decode_sensor L r"
    using assms(2) by (simp_all add: scan_sensor_row)
qed

lemma scan_rows_all:
  "(\<And>r. r \<in> set rs \<Longrightarrow> scan (Inr (Some r)) = Inr (dec r)) \<Longrightarrow> scan_rows scan rs = Inr (map dec rs)"
  by (induction rs) auto

subsection \<open>The invariant and the abstraction\<close>

definition gateways_ok :: "'x libs_scheme \<Rightarrow> gateway_row list \<Rightarrow> nat \<Rightarrow> bool" where
  "gateways_ok L rs n \<longleftrightarrow>
     (\<forall>r \<in> set rs. gateway_row_ok L r \<and> unat (gr_id r) \<le> n) \<and> int n \<le> max_int64 \<and>
     distinct (map gr_id rs) \<and> distinct (map gr_management_gateway_id rs)"

definition sensors_ok :: "'x libs_scheme \<Rightarrow> int64 set \<Rightarrow> sensor_row list \<Rightarrow> nat \<Rightarrow> bool" where
  "sensors_ok L gateway_ids rs n \<longleftrightarrow>
     (\<forall>r \<in> set rs. sensor_row_ok L r \<and> unat (sr_id r) \<le> n \<and> sr_gateway_id r \<in> gateway_ids) \<and>
     int n \<le> max_int64 \<and> distinct (map sr_id rs) \<and> distinct (map sr_sensor_id rs)"

definition sqlite_ok :: "'x libs_scheme \<Rightarrow> SQLiteGatewayStore \<Rightarrow> bool" where
  "sqlite_ok L s \<longleftrightarrow>
     uuid_lawful L \<and> gateways_ok L (db_gateways s) (db_gatewaySeq s) \<and>
     sensors_ok L (gr_id ` set (db_gateways s)) (db_sensors s) (db_sensorSeq s)"

definition sqlite_gws :: "'x libs_scheme \<Rightarrow> SQLiteGatewayStore \<Rightarrow> int64 \<Rightarrow> SimGateway option" where
  "sqlite_gws L s i = map_option (decode_gateway L) (row_at gr_id i (db_gateways s))"

definition sqlite_sns :: "'x libs_scheme \<Rightarrow> SQLiteGatewayStore \<Rightarrow> int64 \<Rightarrow> SimSensor option" where
  "sqlite_sns L s i = map_option (decode_sensor L) (row_at sr_id i (db_sensors s))"

lemma empty_store_ok: "uuid_lawful L \<Longrightarrow> sqlite_ok L (empty_store f)"
  by (simp add: sqlite_ok_def gateways_ok_def sensors_ok_def empty_store_def)

text \<open>A statement only moves the fault counter.\<close>

lemma statement_frame [simp]:
  "sqlite_ok L (s\<lparr>db_calls := c\<rparr>) = sqlite_ok L s"
  "sqlite_gws L (s\<lparr>db_calls := c\<rparr>) = sqlite_gws L s"
  "sqlite_sns L (s\<lparr>db_calls := c\<rparr>) = sqlite_sns L s"
  by (simp_all add: sqlite_ok_def sqlite_gws_def sqlite_sns_def fun_eq_iff)

lemma new_id:
  assumes "int n < max_int64"
  shows "unat (of_nat (Suc n) :: int64) = Suc n"
  using assms by (simp add: unat_of_nat del: of_nat_Suc)

lemma fresh_id:
  assumes "\<forall>r \<in> set rs. unat (key r :: int64) \<le> n" and "int n < max_int64"
  shows "of_nat (Suc n) \<notin> key ` set rs"
proof
  assume "of_nat (Suc n) \<in> key ` set rs"
  then obtain r where "r \<in> set rs" and "key r = of_nat (Suc n)" by auto
  with assms(1) have "unat (of_nat (Suc n) :: int64) \<le> n" by metis
  with new_id [OF assms(2)] show False by simp
qed

lemma sqlite_row:
  assumes "sqlite_ok L s" and "sqlite_gws L s i = Some g"
  obtains r where "r \<in> set (db_gateways s)" "gr_id r = i" "g = decode_gateway L r"
  using assms(2) by (auto simp: sqlite_gws_def dest: row_at_SomeD)

lemma ran_sqlite_gws:
  "sqlite_ok L s \<Longrightarrow> ran (sqlite_gws L s) = decode_gateway L ` set (db_gateways s)"
  by (force simp: ran_def sqlite_gws_def sqlite_ok_def gateways_ok_def row_at_Some)

lemma ran_sqlite_sns:
  "sqlite_ok L s \<Longrightarrow> ran (sqlite_sns L s) = decode_sensor L ` set (db_sensors s)"
  by (force simp: ran_def sqlite_sns_def sqlite_ok_def sensors_ok_def row_at_Some)

lemma dom_sqlite_gws: "dom (sqlite_gws L s) = gr_id ` set (db_gateways s)"
  by (auto simp: dom_def sqlite_gws_def) (metis imageI not_None_eq row_at_None row_at_SomeD)+

lemma sqlite_rows_ok:
  assumes "sqlite_ok L s"
  shows "r \<in> set (db_gateways s) \<Longrightarrow> gateway_row_ok L r"
    and "q \<in> set (db_sensors s) \<Longrightarrow> sensor_row_ok L q" and "uuid_lawful L"
  using assms by (auto simp: sqlite_ok_def gateways_ok_def sensors_ok_def)

subsection \<open>The operations on the tables\<close>

lemma CreateGateway_law:
  assumes "sqlite_ok L s" and "key_ok (gw_EncryptionKey g)" and "CreateGateway L g s = (r, s')"
  shows "sqlite_ok L s' \<and> sqlite_sns L s' = sqlite_sns L s \<and>
    (case r of Inl _ \<Rightarrow> sqlite_gws L s' = sqlite_gws L s
     | Inr i \<Rightarrow> sqlite_gws L s i = None \<and> sqlite_gws L s' = (sqlite_gws L s)(i \<mapsto> g\<lparr>gw_ID := i\<rparr>))"
proof (cases r)
  case (Inl e)
  then show ?thesis
    using assms by (auto simp: CreateGateway_def db_statement_def Let_def split: option.splits if_splits)
next
  case (Inr i)
  let ?n = "db_gatewaySeq s" and ?rs = "db_gateways s"
  from Inr assms(3) have i: "i = of_nat (Suc ?n)" and n: "int ?n < max_int64"
    and u: "uuid_String L (gw_ManagementGatewayID g) \<notin> gr_management_gateway_id ` set ?rs"
    and s': "s' = s\<lparr>db_calls := Suc (db_calls s), db_gateways := ?rs @ [gateway_row_of L i g],
                  db_gatewaySeq := Suc ?n\<rparr>"
    by (auto simp: CreateGateway_def db_statement_def Let_def split: option.splits if_splits)
  from assms(1) have ok: "uuid_lawful L" "gateways_ok L ?rs ?n"
      "sensors_ok L (gr_id ` set ?rs) (db_sensors s) (db_sensorSeq s)"
    by (auto simp: sqlite_ok_def)
  have fresh: "i \<notin> gr_id ` set ?rs"
    unfolding i by (rule fresh_id [OF _ n]) (use ok(2) in \<open>simp add: gateways_ok_def\<close>)
  have "gateway_row_ok L (gateway_row_of L i g)"
    unfolding gateway_row_ok_def
    by (rule exI [of _ "g\<lparr>gw_ID := i\<rparr>"]) (use assms(2) in \<open>simp add: gateway_row_of_def\<close>)
  then have "gateways_ok L (?rs @ [gateway_row_of L i g]) (Suc ?n)"
    using ok(2) fresh u n new_id [OF n] by (auto simp: gateways_ok_def i le_SucI simp del: of_nat_Suc)
  moreover have "sensors_ok L (insert i (gr_id ` set ?rs)) (db_sensors s) (db_sensorSeq s)"
    using ok(3) by (auto simp: sensors_ok_def)
  ultimately have "sqlite_ok L s'" using ok(1) by (simp add: sqlite_ok_def s')
  moreover have "row_at gr_id i ?rs = None" using fresh by (simp add: row_at_None)
  ultimately show ?thesis
    using ok(1) assms(2) Inr
    by (auto simp: s' sqlite_gws_def sqlite_sns_def fun_eq_iff decode_gateway_row split: option.splits)
qed

lemma read_gateway_law:
  assumes "sqlite_ok L s" and "GetGateway L i s = (r, s')"
  shows "sqlite_ok L s' \<and> sqlite_gws L s' = sqlite_gws L s \<and> sqlite_sns L s' = sqlite_sns L s \<and>
    (\<forall>g. r = Inr g \<longrightarrow> sqlite_gws L s i = Some g)"
proof -
  have "sqlite_gws L s i = Some g" if "scanGateway L (Inr (row_at gr_id i (db_gateways s))) = Inr g" for g
  proof (cases "row_at gr_id i (db_gateways s)")
    case None
    then show ?thesis using that by (simp add: scanGateway_def)
  next
    case (Some q)
    then have "q \<in> set (db_gateways s)" by (auto dest: row_at_SomeD)
    then show ?thesis
      using that Some gateway_row_okE(1) [OF sqlite_rows_ok(1) [OF assms(1)] sqlite_rows_ok(3) [OF assms(1)]]
      by (simp add: sqlite_gws_def)
  qed
  then show ?thesis
    using assms by (auto simp: GetGateway_def db_statement_def Let_def scanGateway_def split: option.splits sum.splits)
qed

lemma GetGatewayByManagementID_law:
  assumes "sqlite_ok L s" and "GetGatewayByManagementID L u s = (r, s')"
  shows "sqlite_ok L s' \<and> sqlite_gws L s' = sqlite_gws L s \<and> sqlite_sns L s' = sqlite_sns L s \<and>
    (case r of Inr g \<Rightarrow> g \<in> ran (sqlite_gws L s) \<and> gw_ManagementGatewayID g = u
     | Inl e \<Rightarrow> err_is e ErrGatewayNotFound \<longrightarrow> (\<forall>g \<in> ran (sqlite_gws L s). gw_ManagementGatewayID g \<noteq> u))"
proof -
  note ran = ran_sqlite_gws [OF assms(1)] and L = sqlite_rows_ok(3) [OF assms(1)]
  let ?q = "row_at gr_management_gateway_id (uuid_String L u) (db_gateways s)"
  have row: "gateway_row_ok L q" if "q \<in> set (db_gateways s)" for q
    using sqlite_rows_ok(1) [OF assms(1)] that .
  have found: "scanGateway L (Inr ?q) = Inr (decode_gateway L q) \<and>
      decode_gateway L q \<in> ran (sqlite_gws L s) \<and> gw_ManagementGatewayID (decode_gateway L q) = u"
    if "?q = Some q" for q
    using row_at_SomeD [OF that] gateway_row_okE(1,3) [OF row L, of q] uuid_String_inject [OF L] that
    by (simp add: ran)
  have missing: "gw_ManagementGatewayID g \<noteq> u" if "?q = None" "g \<in> ran (sqlite_gws L s)" for g
    using that gateway_row_okE(3) [OF row L] by (force simp: ran row_at_None)
  have s': "s' = snd (db_statement s)"
    using assms(2) by (auto simp: GetGatewayByManagementID_def Let_def db_statement_def)
  then have "sqlite_ok L s' \<and> sqlite_gws L s' = sqlite_gws L s \<and> sqlite_sns L s' = sqlite_sns L s"
    using assms(1) by (simp add: db_statement_def)
  moreover have "r = scanGateway L (case fst (db_statement s) of Some m \<Rightarrow> Inl m | None \<Rightarrow> Inr ?q)"
    using assms(2)
    by (auto simp: GetGatewayByManagementID_def Let_def db_statement_def cong: option.case_cong)
  ultimately show ?thesis
    using found missing
    by (cases "fst (db_statement s)"; cases "?q") (simp_all add: scanGateway_def [of L "Inl _"] scanGateway_def [of L "Inr None"])
qed

lemma ListGateways_law:
  assumes "sqlite_ok L s" and "ListGateways L s = (r, s')"
  shows "sqlite_ok L s' \<and> sqlite_gws L s' = sqlite_gws L s \<and> sqlite_sns L s' = sqlite_sns L s \<and>
    (\<forall>gs. r = Inr gs \<longrightarrow> set gs = ran (sqlite_gws L s) \<and> distinct (map gw_ID gs))"
proof -
  note row = gateway_row_okE [OF sqlite_rows_ok(1) [OF assms(1)] sqlite_rows_ok(3) [OF assms(1)]]
  have scan: "scan_rows (scanGateway L) (db_gateways s) = Inr (map (decode_gateway L) (db_gateways s))"
    by (rule scan_rows_all) (rule row(1))
  have ids: "map gw_ID (map (decode_gateway L) (db_gateways s)) = map gr_id (db_gateways s)"
    by (simp add: row(2))
  have d: "distinct (map gw_ID (map (decode_gateway L) (db_gateways s)))"
    unfolding ids using assms(1) by (simp add: sqlite_ok_def gateways_ok_def)
  show ?thesis
    using assms d ran_sqlite_gws [OF assms(1)]
    by (auto simp: ListGateways_def scan db_statement_def Let_def split: option.splits)
qed

text \<open>
  All four updates at once: a SET clause that has a counterpart on values, and leaves the keys
  alone, updates the gateway's value.
\<close>

lemma update_gateway_law:
  assumes "sqlite_ok L s" and "update_gateway f i s = (r, s')"
    and f: "\<And>g. f (gateway_row_of L i g) = gateway_row_of L i (F g)"
    and id: "\<And>g. gw_ID (F g) = gw_ID g"
    and F: "\<And>g. gw_ManagementGatewayID (F g) = gw_ManagementGatewayID g"
      "\<And>g. key_ok (gw_EncryptionKey g) \<Longrightarrow> key_ok (gw_EncryptionKey (F g))"
    and keys: "\<And>q. gr_id (f q) = gr_id q" "\<And>q. gr_management_gateway_id (f q) = gr_management_gateway_id q"
  shows "sqlite_ok L s' \<and> sqlite_sns L s' = sqlite_sns L s \<and>
    (case r of Inl _ \<Rightarrow> sqlite_gws L s' = sqlite_gws L s
     | Inr _ \<Rightarrow> \<exists>g. sqlite_gws L s i = Some g \<and> sqlite_gws L s' = (sqlite_gws L s)(i \<mapsto> F g))"
proof -
  note L = sqlite_rows_ok(3) [OF assms(1)]
  note row = gateway_row_okE [OF sqlite_rows_ok(1) [OF assms(1)] L]
  let ?rs = "db_gateways s" and ?rs' = "rows_update gr_id i f (db_gateways s)"
  have f_row: "gateway_row_ok L (f q) \<and> decode_gateway L (f q) = F (decode_gateway L q)"
    if "q \<in> set ?rs" "gr_id q = i" for q
  proof -
    have "f q = gateway_row_of L i (F (decode_gateway L q))" (is "_ = gateway_row_of L i ?g")
      using f row(5) [OF that(1)] that(2) by metis
    moreover have "gw_ID ?g = i" "key_ok (gw_EncryptionKey ?g)"
      using id row(2,4) [OF that(1)] F(2) that(2) by simp_all
    ultimately show ?thesis using L by (metis decode_gateway_row gateway_row_ok_def gateway_row_okE(2) gateway_row_keys(1) SimGateway.surjective SimGateway.update_convs(1))
  qed
  have "gateways_ok L ?rs' (db_gatewaySeq s)"
    using assms(1) f_row keys
    by (auto simp: sqlite_ok_def gateways_ok_def map_key_rows_update) (auto simp: rows_update_def)
  moreover have "gr_id ` set ?rs' = gr_id ` set ?rs"
    using map_key_rows_update [of gr_id f gr_id i ?rs, OF keys(1)] by (metis set_map)
  ultimately have ok': "sqlite_ok L (s\<lparr>db_gateways := ?rs'\<rparr>)"
    using assms(1) by (simp add: sqlite_ok_def)
  have at: "row_at gr_id j ?rs' = (if j = i then map_option f (row_at gr_id i ?rs) else row_at gr_id j ?rs)" for j
    by (rule row_at_update) (rule keys)
  have same: "?rs' = ?rs" if "row_at gr_id i ?rs = None"
    using that by (auto simp: rows_update_def row_at_None intro!: map_idI)
  have upd: "sqlite_gws L (s\<lparr>db_gateways := ?rs'\<rparr>) = (sqlite_gws L s)(i \<mapsto> F (decode_gateway L q))"
    if "row_at gr_id i ?rs = Some q" for q
    using f_row row_at_SomeD [OF that] that by (auto simp: sqlite_gws_def at fun_eq_iff)
  show ?thesis
  proof (cases "db_fault s (db_calls s)")
    case (Some m)
    then show ?thesis using assms(1,2) by (auto simp: update_gateway_def db_statement_def)
  next
    case None
    show ?thesis
    proof (cases "row_at gr_id i ?rs")
      case None': None
      then show ?thesis
        using None assms(1,2) same by (auto simp: update_gateway_def db_statement_def rows_affected_0)
    next
      case (Some q)
      have "s' = s\<lparr>db_calls := Suc (db_calls s), db_gateways := ?rs'\<rparr>" and "r = Inr ()"
        using None Some assms(2) by (auto simp: update_gateway_def db_statement_def rows_affected_0)
      moreover have "s\<lparr>db_calls := c, db_gateways := ?rs'\<rparr> = (s\<lparr>db_gateways := ?rs'\<rparr>)\<lparr>db_calls := c\<rparr>" for c
        by simp
      ultimately have "sqlite_ok L s' \<and> sqlite_gws L s' = (sqlite_gws L s)(i \<mapsto> F (decode_gateway L q)) \<and>
          sqlite_sns L s' = sqlite_sns L s \<and> r = Inr ()"
        using ok' upd [OF Some] by (simp only: statement_frame) (simp add: sqlite_sns_def fun_eq_iff)
      then show ?thesis using Some by (auto simp: sqlite_gws_def)
    qed
  qed
qed

lemma DeleteGateway_law:
  assumes "sqlite_ok L s" and "DeleteGateway i s = (r, s')"
  shows "sqlite_ok L s' \<and> sqlite_sns L s' \<subseteq>\<^sub>m sqlite_sns L s \<and>
    (\<forall>k n. sqlite_sns L s k = Some n \<and> sn_GatewayID n \<noteq> i \<longrightarrow> sqlite_sns L s' k = Some n) \<and>
    (case r of Inl _ \<Rightarrow> sqlite_gws L s' = sqlite_gws L s \<and> sqlite_sns L s' = sqlite_sns L s
     | Inr _ \<Rightarrow> sqlite_gws L s' = (sqlite_gws L s)(i := None))"
proof (cases "db_fault s (db_calls s)")
  case (Some m)
  then show ?thesis using assms by (auto simp: DeleteGateway_def db_statement_def)
next
  case None
  let ?gs = "db_gateways s" and ?ss = "db_sensors s"
  have s': "s' = s\<lparr>db_calls := Suc (db_calls s), db_gateways := filter (\<lambda>r. gr_id r \<noteq> i) ?gs,
      db_sensors := filter (\<lambda>r. sr_gateway_id r \<noteq> i) ?ss\<rparr>" and r: "r = Inr ()"
    using None assms(2) by (auto simp: DeleteGateway_def db_statement_def)
  have d: "distinct (map gr_id ?gs)" "distinct (map sr_id ?ss)"
    using assms(1) by (auto simp: sqlite_ok_def gateways_ok_def sensors_ok_def)
  have "sqlite_ok L s'"
    using assms(1)
    by (auto simp: s' sqlite_ok_def gateways_ok_def sensors_ok_def distinct_key_filter)
  moreover have "sqlite_gws L s' = (sqlite_gws L s)(i := None)"
    by (rule ext) (auto simp: s' sqlite_gws_def row_at_filter [OF d(1)] dest: row_at_SomeD split: option.splits)
  moreover have "sqlite_sns L s' k = (case sqlite_sns L s k of
      Some n \<Rightarrow> if sn_GatewayID n \<noteq> i then Some n else None | None \<Rightarrow> None)" for k
    using sensor_row_okE(3) [OF sqlite_rows_ok(2) [OF assms(1)] sqlite_rows_ok(3) [OF assms(1)]]
    by (auto simp: s' sqlite_sns_def row_at_filter [OF d(2)] dest!: row_at_SomeD split: option.splits)
  ultimately show ?thesis by (auto simp: r map_le_def dom_def split: option.splits)
qed

lemma CreateSensor_law:
  assumes "sqlite_ok L s" and "CreateSensor L n s = (r, s')"
  shows "sqlite_ok L s' \<and> sqlite_gws L s' = sqlite_gws L s \<and>
    (case r of Inl _ \<Rightarrow> sqlite_sns L s' = sqlite_sns L s
     | Inr i \<Rightarrow> sqlite_sns L s i = None \<and>
         sqlite_sns L s' = (sqlite_sns L s)(i \<mapsto> stored (n\<lparr>sn_ID := i\<rparr>)))"
proof (cases r)
  case (Inl e)
  then show ?thesis
    using assms by (auto simp: CreateSensor_def db_statement_def Let_def split: option.splits if_splits)
next
  case (Inr i)
  let ?k = "db_sensorSeq s" and ?rs = "db_sensors s" and ?ids = "gr_id ` set (db_gateways s)"
  from Inr assms(2) have i: "i = of_nat (Suc ?k)" and k: "int ?k < max_int64"
    and u: "uuid_String L (sn_SensorID n) \<notin> sr_sensor_id ` set ?rs" and g: "sn_GatewayID n \<in> ?ids"
    and s': "s' = s\<lparr>db_calls := Suc (db_calls s), db_sensors := ?rs @ [sensor_row_of L i n],
                  db_sensorSeq := Suc ?k\<rparr>"
    by (auto simp: CreateSensor_def db_statement_def Let_def split: option.splits if_splits)
  from assms(1) have ok: "uuid_lawful L" "sensors_ok L ?ids ?rs ?k" by (auto simp: sqlite_ok_def)
  have fresh: "i \<notin> sr_id ` set ?rs"
    unfolding i by (rule fresh_id [OF _ k]) (use ok(2) in \<open>simp add: sensors_ok_def\<close>)
  have "sensor_row_ok L (sensor_row_of L i n)"
    unfolding sensor_row_ok_def
    by (rule exI [of _ "n\<lparr>sn_ID := i\<rparr>"]) (simp add: sensor_row_of_def)
  then have "sensors_ok L ?ids (?rs @ [sensor_row_of L i n]) (Suc ?k)"
    using ok(2) fresh u g k new_id [OF k] by (auto simp: sensors_ok_def i le_SucI simp del: of_nat_Suc)
  then have "sqlite_ok L s'" using assms(1) by (simp add: sqlite_ok_def s')
  moreover have "row_at sr_id i ?rs = None" using fresh by (simp add: row_at_None)
  ultimately show ?thesis
    using ok(1) Inr
    by (auto simp: s' sqlite_gws_def sqlite_sns_def fun_eq_iff decode_sensor_row split: option.splits)
qed

lemma ListSensors_law:
  assumes "sqlite_ok L s" and "ListSensors L i s = (r, s')"
  shows "sqlite_ok L s' \<and> sqlite_gws L s' = sqlite_gws L s \<and> sqlite_sns L s' = sqlite_sns L s \<and>
    (\<forall>ns. r = Inr ns \<longrightarrow> stored ` set ns = {n \<in> ran (sqlite_sns L s). sn_GatewayID n = i} \<and>
       distinct (map sn_ID ns))"
proof -
  let ?rs = "filter (\<lambda>r. sr_gateway_id r = i) (db_sensors s)"
  note row = sensor_row_okE [OF sqlite_rows_ok(2) [OF assms(1)] sqlite_rows_ok(3) [OF assms(1)]]
  have scan: "scan_rows (scanSensor L) ?rs = Inr (map (decode_sensor L) ?rs)"
    by (rule scan_rows_all) (rule row(1), simp)
  have ids: "map sn_ID (map (decode_sensor L) ?rs) = map sr_id ?rs"
    by (simp add: row(2))
  have d: "distinct (map sn_ID (map (decode_sensor L) ?rs))"
    unfolding ids using assms(1) by (intro distinct_key_filter) (simp add: sqlite_ok_def sensors_ok_def)
  have "stored ` set (map (decode_sensor L) ?rs) = {n \<in> ran (sqlite_sns L s). sn_GatewayID n = i}"
    unfolding ran_sqlite_sns [OF assms(1)] using row(3,5) by (force simp: image_iff)
  then show ?thesis
    using assms d by (auto simp: ListSensors_def scan db_statement_def Let_def split: option.splits)
qed

lemma DeleteSensor_law:
  assumes "sqlite_ok L s" and "DeleteSensor i s = (r, s')"
  shows "sqlite_ok L s' \<and> sqlite_gws L s' = sqlite_gws L s \<and>
    (case r of Inl _ \<Rightarrow> sqlite_sns L s' = sqlite_sns L s | Inr _ \<Rightarrow> sqlite_sns L s' = (sqlite_sns L s)(i := None))"
proof (cases "db_fault s (db_calls s)")
  case (Some m)
  then show ?thesis using assms by (auto simp: DeleteSensor_def db_statement_def)
next
  case None
  have s': "s' = s\<lparr>db_calls := Suc (db_calls s), db_sensors := filter (\<lambda>r. sr_id r \<noteq> i) (db_sensors s)\<rparr>"
    and r: "r = Inr ()"
    using None assms(2) by (auto simp: DeleteSensor_def db_statement_def)
  have d: "distinct (map sr_id (db_sensors s))" using assms(1) by (auto simp: sqlite_ok_def sensors_ok_def)
  have "sqlite_ok L s'" using assms(1) by (auto simp: s' sqlite_ok_def sensors_ok_def distinct_key_filter)
  moreover have "sqlite_sns L s' = (sqlite_sns L s)(i := None)"
    by (rule ext) (auto simp: s' sqlite_sns_def row_at_filter [OF d] dest: row_at_SomeD split: option.splits)
  ultimately show ?thesis by (simp add: r s' sqlite_gws_def fun_eq_iff)
qed

lemma GetSensor_law:
  assumes "sqlite_ok L s" and "GetSensor L i s = (r, s')"
  shows "sqlite_ok L s' \<and> sqlite_gws L s' = sqlite_gws L s \<and> sqlite_sns L s' = sqlite_sns L s \<and>
    (\<forall>n. r = Inr n \<longrightarrow> sqlite_sns L s i = Some (stored n))"
proof -
  have "sqlite_sns L s i = Some (stored n)" if "scanSensor L (Inr (row_at sr_id i (db_sensors s))) = Inr n" for n
  proof (cases "row_at sr_id i (db_sensors s)")
    case None
    then show ?thesis using that by (simp add: scanSensor_def)
  next
    case (Some q)
    then have "q \<in> set (db_sensors s)" by (auto dest: row_at_SomeD)
    then show ?thesis
      using that Some sensor_row_okE(1,5) [OF sqlite_rows_ok(2) [OF assms(1)] sqlite_rows_ok(3) [OF assms(1)]]
      by (auto simp: sqlite_sns_def)
  qed
  then show ?thesis
    using assms by (auto simp: GetSensor_def db_statement_def Let_def scanSensor_def split: option.splits sum.splits)
qed

lemma GetSensorBySensorID_law:
  assumes "sqlite_ok L s" and "GetSensorBySensorID L u s = (r, s')"
  shows "sqlite_ok L s' \<and> sqlite_gws L s' = sqlite_gws L s \<and> sqlite_sns L s' = sqlite_sns L s \<and>
    (case r of Inr n \<Rightarrow> stored n \<in> ran (sqlite_sns L s) \<and> sn_SensorID n = u
     | Inl e \<Rightarrow> err_is e ErrSensorNotFound \<longrightarrow> (\<forall>n \<in> ran (sqlite_sns L s). sn_SensorID n \<noteq> u))"
proof -
  note ran = ran_sqlite_sns [OF assms(1)] and L = sqlite_rows_ok(3) [OF assms(1)]
  let ?q = "row_at sr_sensor_id (uuid_String L u) (db_sensors s)"
  have row: "sensor_row_ok L q" if "q \<in> set (db_sensors s)" for q
    using sqlite_rows_ok(2) [OF assms(1)] that .
  have found: "scanSensor L (Inr ?q) = Inr (decode_sensor L q) \<and>
      stored (decode_sensor L q) \<in> ran (sqlite_sns L s) \<and> sn_SensorID (decode_sensor L q) = u"
    if "?q = Some q" for q
    using row_at_SomeD [OF that] sensor_row_okE(1,4,5) [OF row L, of q] uuid_String_inject [OF L] that
    by (simp add: ran)
  have missing: "sn_SensorID n \<noteq> u" if "?q = None" "n \<in> ran (sqlite_sns L s)" for n
    using that sensor_row_okE(4) [OF row L] by (force simp: ran row_at_None)
  have s': "s' = snd (db_statement s)"
    using assms(2) by (auto simp: GetSensorBySensorID_def Let_def db_statement_def)
  then have "sqlite_ok L s' \<and> sqlite_gws L s' = sqlite_gws L s \<and> sqlite_sns L s' = sqlite_sns L s"
    using assms(1) by (simp add: db_statement_def)
  moreover have "r = scanSensor L (case fst (db_statement s) of Some m \<Rightarrow> Inl m | None \<Rightarrow> Inr ?q)"
    using assms(2)
    by (auto simp: GetSensorBySensorID_def Let_def db_statement_def cong: option.case_cong)
  ultimately show ?thesis
    using found missing
    by (cases "fst (db_statement s)"; cases "?q")
       (simp_all add: scanSensor_def [of L "Inl _"] scanSensor_def [of L "Inr None"])
qed

text \<open>The SQLite store satisfies the contract, and the stronger one of a relational store.\<close>

interpretation sqlite: relational_store "sqlite_ops L" "sqlite_gws L" "sqlite_sns L" "sqlite_ok L"
  for L :: "'x libs_scheme"
proof unfold_locales
  fix s s' :: SQLiteGatewayStore
  assume ok: "sqlite_ok L s"
  note L = sqlite_rows_ok(3) [OF ok]
  note grow = gateway_row_okE [OF sqlite_rows_ok(1) [OF ok] L]
    and srow = sensor_row_okE [OF sqlite_rows_ok(2) [OF ok] L]
  note ran = ran_sqlite_gws [OF ok] ran_sqlite_sns [OF ok]
  show "gw_ID g = i" if "sqlite_gws L s i = Some g" for i g
    using that grow(2) by (auto simp: sqlite_gws_def dest!: row_at_SomeD)
  show "sn_ID n = i \<and> stored n = n" if "sqlite_sns L s i = Some n" for i n
    using that srow(2,5) by (auto simp: sqlite_sns_def dest!: row_at_SomeD)
  show "g = h" if "g \<in> ran (sqlite_gws L s)" "h \<in> ran (sqlite_gws L s)"
    "gw_ManagementGatewayID g = gw_ManagementGatewayID h" for g h
  proof -
    from that(1,2) obtain q p where q: "q \<in> set (db_gateways s)" "g = decode_gateway L q"
      and p: "p \<in> set (db_gateways s)" "h = decode_gateway L p" by (auto simp: ran)
    have "gr_management_gateway_id q = gr_management_gateway_id p"
      using grow(3) [OF q(1)] grow(3) [OF p(1)] q(2) p(2) that(3) by simp
    then have "q = p"
      using ok q(1) p(1) by (auto simp: sqlite_ok_def gateways_ok_def distinct_map dest: inj_onD)
    then show ?thesis using q p by simp
  qed
  show "m = n" if "m \<in> ran (sqlite_sns L s)" "n \<in> ran (sqlite_sns L s)" "sn_SensorID m = sn_SensorID n" for m n
  proof -
    from that(1,2) obtain q p where q: "q \<in> set (db_sensors s)" "m = decode_sensor L q"
      and p: "p \<in> set (db_sensors s)" "n = decode_sensor L p" by (auto simp: ran)
    have "sr_sensor_id q = sr_sensor_id p"
      using srow(4) [OF q(1)] srow(4) [OF p(1)] q(2) p(2) that(3) by simp
    then have "q = p"
      using ok q(1) p(1) by (auto simp: sqlite_ok_def sensors_ok_def distinct_map dest: inj_onD)
    then show ?thesis using q p by simp
  qed
  show "sn_GatewayID n \<in> dom (sqlite_gws L s)" if "n \<in> ran (sqlite_sns L s)" for n
    using that ok srow(3) by (auto simp: ran dom_sqlite_gws sqlite_ok_def sensors_ok_def)
qed (simp_all only: sqlite_ops_def store_ops.simps UpdateProvisioned_def UpdateStatus_def
    UpdateFirmwareVersion_def UpdateFrequency_def;
  ((rule CreateGateway_law read_gateway_law GetGatewayByManagementID_law ListGateways_law DeleteGateway_law
      CreateSensor_law ListSensors_law DeleteSensor_law GetSensor_law GetSensorBySensorID_law; assumption)
   | (erule (1) update_gateway_law; simp add: gateway_row_of_def boolToInt_def key_ok_def)))+

end
