(* ===== verification/Worker_Ticks.thy ===== *)
theory Worker_Ticks
  imports Worker_Facts Sqlite_Store
begin

text \<open>
  The ticks of the worker: they do not panic while the publisher is open and the queued periods
  fit a duration, the telemetry of a tick is one reading per sensor with its own generator, what
  the anomalies and the outliers do to it, and a configuration command carried out end to end.
\<close>

subsection \<open>Periods\<close>

text \<open>A period that is discarded, or that is a positive duration.\<close>

definition period_ok :: "int64 \<Rightarrow> bool" where
  "period_ok f \<longleftrightarrow> (0 < sint f \<longrightarrow> 0 < sint (f * Millisecond))"

lemma period_ok_range: "sint f \<le> 9223372036854 \<Longrightarrow> period_ok f"
  using sint_times_Millisecond [of f] by (auto simp: period_ok_def)

definition configs_ok :: "GatewayWorker \<Rightarrow> bool" where
  "configs_ok w \<longleftrightarrow>
     (\<forall>cfg \<in> set (ch_buf (w_configCh w)). \<forall>f. cu_SendFrequencyMs cfg = Some f \<longrightarrow> period_ok f)"

subsection \<open>No panic\<close>

lemma drainConfig_returns:
  assumes "configs_ok w"
  shows "\<exists>w'. drainConfig w = Return w'"
proof (cases "try_recv (w_configCh w)")
  case None
  then show ?thesis by (simp add: drainConfig_def)
next
  case (Some x)
  then obtain cfg c where x: "try_recv (w_configCh w) = Some (cfg, c)" by (cases x) simp
  then have "\<forall>f. cu_SendFrequencyMs cfg = Some f \<longrightarrow> period_ok f"
    using assms by (auto simp: configs_ok_def go_chan.recv_Some)
  then show ?thesis
    using x by (auto simp: drainConfig_def apply_config_def ticker_Reset_def Let_def period_ok_def split: option.split)
qed

lemma inject_command_returns:
  "length (w_generators w) = length (w_sensors w) \<Longrightarrow> \<exists>w'. inject_command cmd w = Return w'"
  by (auto simp: inject_command_def Let_def dest: sensor_index_less split: option.splits)

lemma inject_all_returns:
  "length (w_generators w) = length (w_sensors w) \<Longrightarrow> \<exists>w'. inject_all cmds w = Return w'"
proof (induction cmds arbitrary: w)
  case (Cons cmd cmds)
  obtain w1 where w1: "inject_command cmd w = Return w1" using inject_command_returns Cons.prems by blast
  then have "length (w_generators w1) = length (w_sensors w1)"
    using inject_command_keeps Cons.prems by (fastforce simp: keeps_def)
  with Cons.IH w1 show ?case by simp
qed simp

lemma drainOutliers_returns:
  "length (w_generators w) = length (w_sensors w) \<Longrightarrow> \<exists>w'. drainOutliers w = Return w'"
  using inject_all_returns [of w "ch_buf (w_outlierCh w)"] by (auto simp: drainOutliers_def)

lemma drainControlChannels_returns:
  assumes "worker_ok w" and "configs_ok w"
  shows "\<exists>w' e'. drainControlChannels (w, e) = Return (w', e')"
proof -
  obtain w1 where c: "drainConfig w = Return w1" using drainConfig_returns [OF assms(2)] by blast
  obtain w2 e2 where a: "(case try_recv (w_anomalyCh w1) of None \<Rightarrow> (w1, e)
        | Some (cmd, ch) \<Rightarrow> handleAnomalyCommand cmd (w1\<lparr>w_anomalyCh := ch\<rparr>, e)) = (w2, e2)"
    by force
  have "keeps w1 w2"
  proof (cases "try_recv (w_anomalyCh w1)")
    case None
    then show ?thesis using a by (simp add: keeps_refl)
  next
    case (Some x)
    then obtain cmd ch where x: "try_recv (w_anomalyCh w1) = Some (cmd, ch)" by (cases x) simp
    with a have "handleAnomalyCommand cmd (w1\<lparr>w_anomalyCh := ch\<rparr>, e) = (w2, e2)" by simp
    from keeps_trans [OF recv_anomaly_keeps [OF x] anomaly_keeps [OF this]] show ?thesis .
  qed
  with drainConfig_keeps [OF c] assms(1) have "worker_ok w2" by (simp add: keeps_def)
  then obtain w3 where "drainOutliers w2 = Return w3"
    using drainOutliers_returns by (auto simp: worker_ok_def)
  then show ?thesis by (simp add: drainControlChannels_def c a)
qed

lemma sendACK_returns:
  "pub_js (w_publisher w) \<Longrightarrow> \<exists>w' e'. sendACK L i ans (w, e) = Return (w', e')"
  by (auto simp: sendACK_def clock_Now_eq publisher_Publish_def split: sum.splits option.splits)

lemma answer_returns:
  assumes "pub_js (w_publisher w)"
  shows "\<exists>w' s' e'. answer L ops cmd (w, s, e) = Return (w', s', e')"
proof -
  obtain ans w1 s1 where p: "processIncomingCommand ops cmd (w, s) = (ans, w1, s1)"
    by (metis prod_cases3)
  with processIncoming_frame [OF p] assms have "pub_js (w_publisher w1)" by auto
  from sendACK_returns [OF this] obtain w2 e2 where "sendACK L (ic_CommandID cmd) ans (w1, e) = Return (w2, e2)"
    by blast
  then show ?thesis by (simp add: answer_def p)
qed

lemma answer_all_returns:
  "pub_js (w_publisher w) \<Longrightarrow> \<exists>w' s' e'. answer_all L ops cmds (w, s, e) = Return (w', s', e')"
proof (induction cmds arbitrary: w s e)
  case (Cons cmd cmds)
  obtain w1 s1 e1 where a: "answer L ops cmd (w, s, e) = Return (w1, s1, e1)"
    using answer_returns [OF Cons.prems, of L ops cmd s e] by blast
  with answer_frame(2) [OF a] Cons.prems have "pub_js (w_publisher w1)" by (simp add: answered_toD)
  with Cons.IH a show ?case by simp
qed simp

lemma checkAnomalyExpiry_returns:
  assumes "pub_js (w_publisher w)"
  shows "\<exists>w' s' e'. checkAnomalyExpiry L ops (w, s, e) = Return (w', s', e')"
proof -
  obtain w1 s1 e1 where "answer_all L ops (w_anomalyCommandBuffer w)
      (w\<lparr>w_activeAnomaly := None\<rparr>, s, env_tick e) = Return (w1, s1, e1)"
    using answer_all_returns [of "w\<lparr>w_activeAnomaly := None\<rparr>" L ops "w_anomalyCommandBuffer w" s "env_tick e"]
      assms by auto
  then show ?thesis
    by (auto simp: checkAnomalyExpiry_def flushBufferedCommands_def clock_Now_eq split: option.split)
qed

lemma publish_from_returns:
  "i + length ns \<le> length (w_generators w) \<Longrightarrow> \<exists>w' m' e'. publish_from L i ns (w, m, e) = Return (w', m', e')"
proof (induction ns arbitrary: i w m e)
  case (Cons n ns)
  obtain g1 w1 m1 e1 where s: "sendSensorTelemetry L n (w_generators w ! i) (w, m, e) = (g1, w1, m1, e1)"
    by (metis prod_cases4)
  with sendSensor_keeps [OF s] have "length (w_generators w1) = length (w_generators w)"
    by (simp add: keeps_def)
  with Cons.prems Cons.IH [of "Suc i" "w1\<lparr>w_generators := (w_generators w1)[i := g1]\<rparr>" m1 e1] s
  show ?case by simp
qed simp

lemma processTick_returns:
  assumes "worker_ok w" and "configs_ok w" and "pub_js (w_publisher w)"
  shows "\<exists>w' s' m' e'. processTick L ops (w, s, m, e) = Return (w', s', m', e')"
proof -
  obtain w1 e1 where a: "drainControlChannels (w, e) = Return (w1, e1)"
    using drainControlChannels_returns [OF assms(1,2)] by blast
  note k = drainControlChannels_keeps [OF a]
  have "pub_js (w_publisher w1)" using k assms(3) by (simp add: keeps_def)
  then obtain w2 s2 e2 where b: "checkAnomalyExpiry L ops (w1, s, e1) = Return (w2, s2, e2)"
    using checkAnomalyExpiry_returns [of w1 L ops s e1] by blast
  have "worker_ok w2" using checkAnomalyExpiry_ok(1) [OF b] k(1) assms(1) by (simp add: keeps_def)
  then have "\<exists>w' m' e'. publishSensorData L (w2, m, e2) = Return (w', m', e')"
    using publish_from_returns [of 0 "w_sensors w2" w2 L m e2] by (simp add: publishSensorData_def worker_ok_def)
  then show ?thesis using a b by (auto simp: processTick_def)
qed

subsection \<open>The telemetry of a tick\<close>

text \<open>
  The specification: go through the sensors with their generators, one reading each, and keep
  the envelopes that were encoded and not lost.
\<close>

fun tick_readings ::
  "'x libs_scheme \<Rightarrow> GatewayWorker \<Rightarrow> (SimSensor \<times> Generator) list \<Rightarrow> env \<Rightarrow> bytes list \<times> env" where
  "tick_readings L w [] e = ([], e)"
| "tick_readings L w ((n, g) # ngs) e =
     (let (r, _, e) = read_sensor L n g (w, e)
      in case r of
           Inl _ \<Rightarrow> tick_readings L w ngs e
         | Inr x \<Rightarrow>
             let (lost, e) = packet_lost (w, e);
                 (xs, e) = tick_readings L w ngs e
             in (if lost then xs else x # xs, e))"

lemma read_sensor_buffer [simp]:
  "read_sensor L n g (w\<lparr>w_buffer := b\<rparr>, e) = read_sensor L n g (w, e)"
  "read_sensor L n g (w\<lparr>w_generators := gs\<rparr>, e) = read_sensor L n g (w, e)"
  by (auto simp: read_sensor_def buildEnvelope_def Let_def split: prod.splits sum.splits)

lemma packet_lost_buffer [simp]:
  "packet_lost (w\<lparr>w_buffer := b\<rparr>, e) = packet_lost (w, e)"
  "packet_lost (w\<lparr>w_generators := gs\<rparr>, e) = packet_lost (w, e)"
  by (simp_all add: packet_lost_def)

lemma tick_readings_buffer [simp]:
  "tick_readings L (w\<lparr>w_buffer := b\<rparr>) ngs e = tick_readings L w ngs e"
  "tick_readings L (w\<lparr>w_generators := gs\<rparr>) ngs e = tick_readings L w ngs e"
  by (induction ngs arbitrary: e) (auto simp: Let_def split: sum.splits prod.splits)

text \<open>One sensor: its reading, if it is not lost, is sent.\<close>

lemma sendSensor_eq:
  "sendSensorTelemetry L n g (w, m, e) =
     (let (xs, e') = tick_readings L w [(n, g)] e; (b, m') = Send_all xs (w_buffer w, m)
      in (without_override g, w\<lparr>w_buffer := b\<rparr>, m', e'))"
proof -
  obtain r g1 e1 where r: "read_sensor L n g (w, e) = (r, g1, e1)" by (metis prod_cases3)
  with read_sensor_frame [OF r] have g1: "g1 = without_override g" by simp
  show ?thesis
    by (cases r) (auto simp: sendSensorTelemetry_def r g1 Let_def split: prod.splits)
qed

lemma Send_all_append: "Send_all (xs @ ys) bm = Send_all ys (Send_all xs bm)"
  by (induction xs arbitrary: bm) auto

lemma tick_readings_Cons:
  "tick_readings L w (ng # ngs) e =
     (let (xs, e) = tick_readings L w [ng] e; (ys, e) = tick_readings L w ngs e in (xs @ ys, e))"
  by (cases ng) (auto simp: Let_def split: prod.splits sum.splits)

lemma publish_from_eq:
  assumes "i + length ns = length (w_generators w)"
  shows "publish_from L i ns (w, m, e) =
    (let (xs, e') = tick_readings L w (zip ns (drop i (w_generators w))) e;
         (b, m') = Send_all xs (w_buffer w, m)
     in Return (w\<lparr>w_generators := take i (w_generators w) @ map without_override (drop i (w_generators w)),
                  w_buffer := b\<rparr>, m', e'))"
  using assms
proof (induction ns arbitrary: i w m e)
  case Nil
  then show ?case by simp
next
  case (Cons n ns)
  let ?gs = "w_generators w"
  have i: "i < length ?gs" using Cons.prems by simp
  then have d: "drop i ?gs = ?gs ! i # drop (Suc i) ?gs" by (simp add: Cons_nth_drop_Suc)
  obtain xs e1 where x: "tick_readings L w [(n, ?gs ! i)] e = (xs, e1)" by force
  obtain b m1 where b: "Send_all xs (w_buffer w, m) = (b, m1)" by force
  let ?w = "w\<lparr>w_buffer := b, w_generators := ?gs[i := without_override (?gs ! i)]\<rparr>"
  have step: "publish_from L i (n # ns) (w, m, e) = publish_from L (Suc i) ns (?w, m1, e1)"
    using i x b by (simp add: sendSensor_eq)
  have gs: "take (Suc i) (w_generators ?w) = take i ?gs @ [without_override (?gs ! i)]"
    "drop (Suc i) (w_generators ?w) = drop (Suc i) ?gs"
    using i by (simp_all add: take_Suc_conv_app_nth)
  have "Suc i + length ns = length (w_generators ?w)" using Cons.prems by simp
  note IH = Cons.IH [OF this, of m1 e1]
  obtain ys e2 where y: "tick_readings L w (zip ns (drop (Suc i) ?gs)) e1 = (ys, e2)" by force
  have "tick_readings L w (zip (n # ns) (drop i ?gs)) e = (xs @ ys, e2)"
    using x y by (subst d, subst zip_Cons_Cons, subst tick_readings_Cons) simp
  then show ?case
    unfolding step IH using gs y b by (simp add: d Send_all_append split: prod.splits)
qed

text \<open>
  \<^verbatim>\<open>publishSensorData\<close> of a worker that is not blocked: the readings of the sensors, each with its
  own generator, sent in the order of the sensors.
\<close>

lemma publishSensorData_eq:
  assumes "worker_ok w" and "\<not> isCommunicationBlocked w"
  shows "publishSensorData L (w, m, e) =
    (let (xs, e') = tick_readings L w (zip (w_sensors w) (w_generators w)) e;
         (b, m') = Send_all xs (w_buffer w, m)
     in Return (w\<lparr>w_generators := map without_override (w_generators w), w_buffer := b\<rparr>, m', e'))"
  using assms publish_from_eq [of 0 "w_sensors w" w L m e]
  by (simp add: publishSensorData_def worker_ok_def split: prod.splits)

lemma tick_readings_one: "length (fst (tick_readings L w [ng] e)) \<le> 1"
  by (cases ng) (auto simp: Let_def split: prod.splits sum.splits)

lemma tick_readings_length: "length (fst (tick_readings L w ngs e)) \<le> length ngs"
proof (induction ngs arbitrary: e)
  case (Cons ng ngs)
  obtain xs e1 where x: "tick_readings L w [ng] e = (xs, e1)" by force
  obtain ys e2 where y: "tick_readings L w ngs e1 = (ys, e2)" by force
  have "tick_readings L w (ng # ngs) e = (xs @ ys, e2)" by (simp only: tick_readings_Cons [of L w ng ngs] x y Let_def case_prod_conv)
  then show ?case using Cons.IH [of e1] tick_readings_one [of L w ng e] by (simp add: x y)
qed simp

lemma blocked_publishes_nothing:
  "isCommunicationBlocked w \<Longrightarrow> publishSensorData L (w, m, e) = Return (w, m, e)"
  by (simp add: publishSensorData_def)

subsection \<open>Outliers\<close>

text \<open>The value an outlier command asks for: its own, or twice the upper bound of the range.\<close>

definition outlier_value :: "SensorOutlierCommand \<Rightarrow> SimSensor \<Rightarrow> float64" where
  "outlier_value cmd n = (case oc_Value cmd of Some v \<Rightarrow> v | None \<Rightarrow> sn_MaxRange n * Finite 2)"

lemma inject_command_spec:
  assumes "worker_ok w" and "sensor_index (oc_SensorID cmd) (w_sensors w) = Some i"
  shows "\<exists>w'. inject_command cmd w = Return w' \<and> w_sensors w' = w_sensors w \<and>
    w_generators w' = (w_generators w)[i := generator_InjectOutlier (outlier_value cmd (w_sensors w ! i)) (w_generators w ! i)]"
  using assms sensor_index_less [OF assms(2)]
  by (simp add: inject_command_def Let_def outlier_value_def worker_ok_def split: option.split)

lemma inject_command_value:
  assumes "worker_ok w" and "sensor_index (oc_SensorID cmd) (w_sensors w) = Some i"
    and "inject_command cmd w = Return w'"
  shows "generator_Next L (w_generators w' ! i) e =
      (outlier_value cmd (w_sensors w ! i), without_override (w_generators w ! i), e)"
    and "j \<noteq> i \<Longrightarrow> w_generators w' ! j = w_generators w ! j"
  using inject_command_spec [OF assms(1,2)] assms(3) sensor_index_less [OF assms(2)] assms(1)
  by (auto simp: worker_ok_def gen.outlier_next)

lemma inject_unknown: "sensor_index (oc_SensorID cmd) (w_sensors w) = None \<Longrightarrow> inject_command cmd w = Return w"
  by (simp add: inject_command_def)

subsection \<open>Anomalies\<close>

lemma disconnect_state:
  assumes "ac_Type cmd = Disconnect" and "ac_Disconnect cmd = Some p"
    and "0 \<le> sint (dc_DurationSeconds p)" and "sint (dc_DurationSeconds p) \<le> 9223372036"
  shows "handleAnomalyCommand cmd (w, e) =
    (w\<lparr>w_activeAnomaly := Some \<lparr>aa_anomalyType = Disconnect,
        aa_expiresAt = env_clock e (env_pos e) + sint (dc_DurationSeconds p) * 1000000000,
        aa_packetLossPct = Finite 0\<rparr>\<rparr>, env_tick e)"
  using assms
  by (simp add: handleAnomalyCommand_def clock_Now_eq time_Add_def sint_times_Second anomaly_defs)

text \<open>The loss as a fraction: percentages above 1 are divided by 100.\<close>

definition loss_fraction :: "float64 \<Rightarrow> float64" where
  "loss_fraction p = (if Finite 1 < p then p / Finite 100 else p)"

lemma loss_fraction_bounds:
  assumes "representable q" and "0 \<le> q" and "q \<le> 100"
  shows "Finite 0 \<le> loss_fraction (Finite q) \<and> loss_fraction (Finite q) \<le> Finite 1"
proof (cases "1 < q")
  case True
  have "representable 1" using representable_int [of 1] by simp
  then show ?thesis
    using True assms by (auto simp: loss_fraction_def less_float64_def intro!: f64_of_ge f64_of_le)
next
  case False
  then show ?thesis using assms by (auto simp: loss_fraction_def less_float64_def)
qed

lemma degradation_state:
  assumes "ac_Type cmd = NetworkDegradation" and "ac_NetworkDegradation cmd = Some p"
    and "0 \<le> sint (nd_DurationSeconds p)" and "sint (nd_DurationSeconds p) \<le> 9223372036"
  shows "handleAnomalyCommand cmd (w, e) =
    (w\<lparr>w_activeAnomaly := Some \<lparr>aa_anomalyType = NetworkDegradation,
        aa_expiresAt = env_clock e (env_pos e) + sint (nd_DurationSeconds p) * 1000000000,
        aa_packetLossPct = loss_fraction (nd_PacketLossPct p)\<rparr>\<rparr>, env_tick e)"
  using assms
  by (simp add: handleAnomalyCommand_def clock_Now_eq time_Add_def sint_times_Second loss_fraction_def)

text \<open>An anomaly lasts until its expiry and not a check longer.\<close>

lemma anomaly_holds:
  assumes "w_activeAnomaly w = Some a" and "env_clock e (env_pos e) < aa_expiresAt a"
  shows "\<exists>e'. checkAnomalyExpiry L ops (w, s, e) = Return (w, s, e')"
  using assms by (auto simp: checkAnomalyExpiry_def clock_Now_eq time_Before_def)

lemma anomaly_ends:
  assumes "w_activeAnomaly w = Some a" and "aa_expiresAt a \<noteq> 0" and "aa_expiresAt a \<le> env_clock e (env_pos e)"
    and "pub_js (w_publisher w)"
  shows "\<exists>w' s' e'. checkAnomalyExpiry L ops (w, s, e) = Return (w', s', e') \<and>
    w_activeAnomaly w' = None \<and> w_anomalyCommandBuffer w' = []"
proof -
  obtain w1 s1 e1 where a: "answer_all L ops (w_anomalyCommandBuffer w)
      (w\<lparr>w_activeAnomaly := None\<rparr>, s, env_tick e) = Return (w1, s1, e1)"
    using answer_all_returns [of "w\<lparr>w_activeAnomaly := None\<rparr>" L ops "w_anomalyCommandBuffer w" s "env_tick e"]
      assms(4) by auto
  from answer_all_frame [OF a] answered_toD(6) [of "w\<lparr>w_activeAnomaly := None\<rparr>" w1]
  have "w_activeAnomaly w1 = None" by simp
  then show ?thesis
    using a assms by (simp add: checkAnomalyExpiry_def clock_Now_eq time_Before_def flushBufferedCommands_def)
qed

text \<open>An anomaly command without its parameters never ends.\<close>

lemma anomaly_without_params:
  assumes "ac_NetworkDegradation cmd = None" and "ac_Disconnect cmd = None"
    and "handleAnomalyCommand cmd (w, e) = (w', e')"
  shows "checkAnomalyExpiry L ops (w', s, e'') = Return (w', s, e'')"
  using assms by (auto simp: handleAnomalyCommand_def checkAnomalyExpiry_def Let_def split: if_splits)

subsection \<open>A configuration command, end to end\<close>

lemma unmarshal_config_frequency:
  assumes "min_int64 \<le> n" and "n \<le> max_int64"
  shows "unmarshal_CommandConfigPayload (Some (JObj [(''send_frequency_ms'', JInt n)])) =
    Inr \<lparr>cp_SendFrequencyMs = Some (of_int n), cp_Status = None\<rparr>"
  using assms
  by (simp add: unmarshal_CommandConfigPayload_def decode_struct_def config_payload_fields_def
      find_field_def pointer_field_def)

text \<open>
  A command that is acknowledged has been written to the store and is queued for the worker.
\<close>

lemma config_ack:
  assumes "handleConfigUpdateCommand ops payload (w, s) = (ans, w', s')"
    and "unmarshal_CommandConfigPayload payload = Inr p" and "fst ans = ACK"
  obtains s1 where
    "case cp_SendFrequencyMs p of None \<Rightarrow> s1 = s
     | Some f \<Rightarrow> 0 < sint f \<and> op_UpdateFrequency ops (gw_ID (w_gateway w)) f s = (Inr (), s1)"
    "case cp_Status p of None \<Rightarrow> s' = s1
     | Some st \<Rightarrow> op_UpdateStatus ops (gw_ID (w_gateway w)) st s1 = (Inr (), s')"
    "\<exists>c. try_send \<lparr>cu_SendFrequencyMs = cp_SendFrequencyMs p, cu_Status = cp_Status p\<rparr> (w_configCh w) = Some c \<and>
       w' = w\<lparr>w_configCh := c\<rparr>"
proof -
  have ne: "ACK \<noteq> NACK" "NACK \<noteq> ACK" by (simp_all add: ack_defs)
  show thesis
  proof (cases "cp_SendFrequencyMs p")
    case None
    then show thesis
      using assms ne that [of s]
      by (auto simp: handleConfigUpdateCommand_def Let_def split: sum.splits option.splits prod.splits)
  next
    case (Some f)
    obtain r s1 where u: "op_UpdateFrequency ops (gw_ID (w_gateway w)) f s = (r, s1)" by force
    show thesis
      using assms ne that [of s1] Some u
      by (auto simp: handleConfigUpdateCommand_def Let_def split: sum.splits option.splits prod.splits if_splits)
  qed
qed

lemma NewTicker_overflow:
  "sint f = 9223372036855 \<Longrightarrow> \<exists>m. NewTicker f = Panic m"
proof -
  assume f: "sint f = 9223372036855"
  have "f * Millisecond = of_int (sint f * 1000000)" by (simp add: Millisecond_def)
  then have "f * Millisecond = of_int 9223372036855000000" by (simp add: f)
  then have "sint (f * Millisecond) = -9223372036854551616" by (simp add: signed_of_int)
  then show ?thesis by (simp add: NewTicker_def)
qed

text \<open>What a configuration command sets in a gateway.\<close>

definition configured :: "CommandConfigPayload \<Rightarrow> SimGateway \<Rightarrow> SimGateway" where
  "configured p g =
     g\<lparr>gw_SendFrequencyMs := (case cp_SendFrequencyMs p of None \<Rightarrow> gw_SendFrequencyMs g | Some f \<Rightarrow> f),
       gw_Status := (case cp_Status p of None \<Rightarrow> gw_Status g | Some st \<Rightarrow> st)\<rparr>"

text \<open>Over any store, an acknowledged configuration command has done what it says to the row of the gateway.\<close>

context row_store
begin

lemma config_ack_refines:
  assumes "ok s" and "handleConfigUpdateCommand ops payload (w, s) = ((ACK, msg), w', s')"
    and "unmarshal_CommandConfigPayload payload = Inr p"
  shows "ok s' \<and> sns s' = sns s \<and>
    gws s' = (gws s)(gw_ID (w_gateway w) := map_option (configured p) (gws s (gw_ID (w_gateway w)))) \<and>
    (case cp_SendFrequencyMs p of None \<Rightarrow> True | Some f \<Rightarrow> 0 < sint f) \<and>
    w' = w\<lparr>w_configCh := Chan (ch_cap (w_configCh w))
      (ch_buf (w_configCh w) @ [\<lparr>cu_SendFrequencyMs = cp_SendFrequencyMs p, cu_Status = cp_Status p\<rparr>])\<rparr>"
proof -
  let ?i = "gw_ID (w_gateway w)"
  have a: "fst (ACK, msg) = ACK" by simp
  obtain s1 where
    f: "case cp_SendFrequencyMs p of None \<Rightarrow> s1 = s
     | Some f \<Rightarrow> 0 < sint f \<and> op_UpdateFrequency ops ?i f s = (Inr (), s1)"
    and st: "case cp_Status p of None \<Rightarrow> s' = s1 | Some st \<Rightarrow> op_UpdateStatus ops ?i st s1 = (Inr (), s')"
    and q: "\<exists>c. try_send \<lparr>cu_SendFrequencyMs = cp_SendFrequencyMs p, cu_Status = cp_Status p\<rparr> (w_configCh w) = Some c \<and>
      w' = w\<lparr>w_configCh := c\<rparr>" by (rule config_ack [OF assms(2,3) a])
  have 1: "ok s1 \<and> sns s1 = sns s \<and> gws s1 = (gws s)(?i := map_option
      (\<lambda>g. g\<lparr>gw_SendFrequencyMs := (case cp_SendFrequencyMs p of None \<Rightarrow> gw_SendFrequencyMs g | Some f \<Rightarrow> f)\<rparr>) (gws s ?i))"
  proof (cases "cp_SendFrequencyMs p")
    case None
    then show ?thesis using f assms(1) by (simp add: option.map_ident)
  next
    case (Some n)
    with f have "op_UpdateFrequency ops ?i n s = (Inr (), s1)" by simp
    from UpdateFrequency [OF assms(1) this] Some show ?thesis by auto
  qed
  have "ok s' \<and> sns s' = sns s1 \<and> gws s' = (gws s1)(?i := map_option
      (\<lambda>g. g\<lparr>gw_Status := (case cp_Status p of None \<Rightarrow> gw_Status g | Some st \<Rightarrow> st)\<rparr>) (gws s1 ?i))"
  proof (cases "cp_Status p")
    case None
    then show ?thesis using st 1 by (simp add: option.map_ident)
  next
    case (Some x)
    with st have "op_UpdateStatus ops ?i x s1 = (Inr (), s')" by simp
    from UpdateStatus [OF _ this] 1 Some show ?thesis by auto
  qed
  with 1 have "ok s'" "sns s' = sns s" "gws s' = (gws s)(?i := map_option (configured p) (gws s ?i))"
    by (cases "gws s ?i"; cases "cp_Status p"; simp add: configured_def)+
  with f q show ?thesis by (auto simp: try_send_def split: option.splits if_splits)
qed

end

end
