(* ===== verification/Go_Strings.thy ===== *)
theory Go_Strings
  imports Sim_Domain
begin

text \<open>
  What the code uses of the packages \<^verbatim>\<open>strings\<close>, \<^verbatim>\<open>strconv\<close> and \<^verbatim>\<open>errors\<close>: trimming of
  white space, splitting at a separator, the parsing of integers and booleans, and joined errors.
\<close>

subsection \<open>strings.TrimSpace\<close>

text \<open>The characters with Unicode's White Space property, in UTF-8.\<close>

definition white_space :: "string list" where
  "white_space =
     map (\<lambda>n. [char_of n]) [9, 10, 11, 12, 13, 32 :: nat] @
     [[CHR 0xC2, CHR 0x85], [CHR 0xC2, CHR 0xA0], [CHR 0xE1, CHR 0x9A, CHR 0x80]] @
     map (\<lambda>n. [CHR 0xE2, CHR 0x80, char_of n])
       [128, 129, 130, 131, 132, 133, 134, 135, 136, 137, 138, 168, 169, 175 :: nat] @
     [[CHR 0xE2, CHR 0x81, CHR 0x9F], [CHR 0xE3, CHR 0x80, CHR 0x80]]"

definition has_prefix :: "string \<Rightarrow> string \<Rightarrow> bool" where
  "has_prefix s p \<longleftrightarrow> take (length p) s = p"

lemma white_space_nonempty: "List.find (has_prefix s) white_space = Some p \<Longrightarrow> s \<noteq> [] \<and> p \<noteq> []"
  by (cases s) (auto simp: white_space_def has_prefix_def find_Some_iff split: if_splits)

lemma rev_white_space_nonempty:
  "List.find (has_prefix s) (map rev white_space) = Some p \<Longrightarrow> s \<noteq> [] \<and> p \<noteq> []"
  by (cases s) (auto simp: white_space_def has_prefix_def split: if_splits)

text \<open>Strip from the front, with the white space as a parameter; the back is the front of the reverse.\<close>

function trim_front :: "string list \<Rightarrow> string \<Rightarrow> string" where
  "trim_front ws s =
     (case List.find (\<lambda>p. p \<noteq> [] \<and> has_prefix s p) ws of
        None \<Rightarrow> s
      | Some p \<Rightarrow> trim_front ws (drop (length p) s))"
  by pat_completeness auto
termination
proof (relation "measure (\<lambda>(ws, s). length s)", simp)
  fix ws :: "string list" and s p
  assume "List.find (\<lambda>p. p \<noteq> [] \<and> has_prefix s p) ws = Some p"
  then have "p \<noteq> []" "take (length p) s = p" using find_Some_iff_first by (fastforce simp: has_prefix_def)+
  then have "s \<noteq> []" by auto
  with \<open>p \<noteq> []\<close> show "((ws, drop (length p) s), ws, s) \<in> measure (\<lambda>(ws, s). length s)" by simp
qed

declare trim_front.simps [simp del]

definition TrimSpace :: "string \<Rightarrow> string" where
  "TrimSpace s = rev (trim_front (map rev white_space) (rev (trim_front white_space s)))"

lemma trim_front_stops: "List.find (\<lambda>p. p \<noteq> [] \<and> has_prefix (trim_front ws s) p) ws = None"
  by (induction ws s rule: trim_front.induct)
     (subst (1) trim_front.simps, auto split: option.splits)

lemma trim_front_idem: "trim_front ws (trim_front ws s) = trim_front ws s"
  by (subst trim_front.simps) (simp add: trim_front_stops)

lemma trim_front_suffix: "\<exists>p. s = p @ trim_front ws s"
proof (induction ws s rule: trim_front.induct)
  case (1 ws s)
  show ?case
  proof (cases "List.find (\<lambda>p. p \<noteq> [] \<and> has_prefix s p) ws")
    case None
    then show ?thesis by (simp add: trim_front.simps [of ws s])
  next
    case (Some p)
    with 1 obtain q where "drop (length p) s = q @ trim_front ws (drop (length p) s)" by blast
    moreover have "trim_front ws s = trim_front ws (drop (length p) s)"
      by (subst trim_front.simps) (simp add: Some)
    ultimately show ?thesis by (metis append.assoc append_take_drop_id)
  qed
qed

text \<open>What is left neither starts nor ends with white space.\<close>

lemma TrimSpace_back: "List.find (\<lambda>p. p \<noteq> [] \<and> has_prefix (rev (TrimSpace s)) p) (map rev white_space) = None"
  by (simp add: TrimSpace_def trim_front_stops)

lemma TrimSpace_empty [simp]: "TrimSpace [] = []"
  by (simp add: TrimSpace_def trim_front.simps white_space_def has_prefix_def)

subsection \<open>strings.Split at a one-character separator\<close>

fun split_at :: "char \<Rightarrow> string \<Rightarrow> string list" where
  "split_at c [] = [[]]"
| "split_at c (x # xs) =
     (if x = c then [] # split_at c xs
      else case split_at c xs of [] \<Rightarrow> [[x]] | s # ss \<Rightarrow> (x # s) # ss)"

fun join_at :: "char \<Rightarrow> string list \<Rightarrow> string" where
  "join_at c [] = []"
| "join_at c [s] = s"
| "join_at c (s # t # ss) = s @ c # join_at c (t # ss)"

lemma split_at_nonempty [simp]: "split_at c s \<noteq> []"
  by (induction s) (auto split: list.splits)

lemma join_split: "join_at c (split_at c s) = s"
proof (induction s)
  case (Cons x xs)
  then show ?case
  proof (cases "split_at c xs")
    case (Cons t ts)
    with Cons.IH show ?thesis by (cases ts) auto
  qed simp
qed simp

lemma split_parts: "t \<in> set (split_at c s) \<Longrightarrow> c \<notin> set t"
  by (induction s arbitrary: t) (auto split: if_splits list.splits)

lemma split_no_separator: "c \<notin> set s \<Longrightarrow> split_at c s = [s]"
  by (induction s) auto

lemma split_append: "c \<notin> set s \<Longrightarrow> split_at c (s @ c # t) = s # split_at c t"
  by (induction s) auto

lemma split_join: "ss \<noteq> [] \<Longrightarrow> \<forall>s \<in> set ss. c \<notin> set s \<Longrightarrow> split_at c (join_at c ss) = ss"
  by (induction c ss rule: join_at.induct) (auto simp: split_no_separator split_append)

subsection \<open>strconv\<close>

definition digit_value :: "char \<Rightarrow> int option" where
  "digit_value c = (let n = of_char c :: int in if 48 \<le> n \<and> n \<le> 57 then Some (n - 48) else None)"

fun digits_value :: "int \<Rightarrow> string \<Rightarrow> int option" where
  "digits_value n [] = Some n"
| "digits_value n (c # cs) =
     (case digit_value c of None \<Rightarrow> None | Some d \<Rightarrow> digits_value (10 * n + d) cs)"

text \<open>\<^verbatim>\<open>strconv.Atoi\<close>: an optional sign, at least one digit, in the range of \<^verbatim>\<open>int\<close>.\<close>

definition Atoi :: "string \<Rightarrow> int64 option" where
  "Atoi s =
     (let (neg, ds) = (case s of
            [] \<Rightarrow> (False, [])
          | c # cs \<Rightarrow> if c = CHR ''-'' then (True, cs) else if c = CHR ''+'' then (False, cs) else (False, s))
      in if ds = [] then None
         else case digits_value 0 ds of
           None \<Rightarrow> None
         | Some n \<Rightarrow>
             let i = (if neg then - n else n)
             in if min_int64 \<le> i \<and> i \<le> max_int64 then Some (of_int i) else None)"

definition ParseBool :: "string \<Rightarrow> bool option" where
  "ParseBool s =
     (if s \<in> {''1'', ''t'', ''T'', ''TRUE'', ''true'', ''True''} then Some True
      else if s \<in> {''0'', ''f'', ''F'', ''FALSE'', ''false'', ''False''} then Some False
      else None)"

lemma digits_value_append:
  "digits_value n (xs @ ys) = (case digits_value n xs of None \<Rightarrow> None | Some m \<Rightarrow> digits_value m ys)"
  by (induction n xs rule: digits_value.induct) (auto split: option.splits)

lemma digit_value_of_digit: "0 \<le> d \<Longrightarrow> d < 10 \<Longrightarrow> digit_value (char_of (48 + d)) = Some d"
proof -
  assume d: "0 \<le> d" "d < 10"
  then have "of_char (char_of (48 + d) :: char) = 48 + d" by (simp add: of_char_of)
  then show ?thesis using d by (simp add: digit_value_def)
qed

text \<open>Parsing reads back what \<^verbatim>\<open>%d\<close> prints.\<close>

lemma digits_value_digits_of: "0 \<le> n \<Longrightarrow> digits_value 0 (digits_of n) = Some n"
proof (induction n rule: digits_of.induct)
  case (1 n)
  show ?case
  proof (cases "n < 10")
    case True
    then show ?thesis using "1.prems" by (simp add: digits_of.simps [of n] digit_value_of_digit)
  next
    case False
    with "1.IH" have "digits_value 0 (digits_of (n div 10)) = Some (n div 10)" by simp
    then show ?thesis
      using False by (simp add: digits_of.simps [of n] digits_value_append digit_value_of_digit)
  qed
qed

lemma digits_of_first: "0 \<le> n \<Longrightarrow> \<exists>(d :: int) ds. digits_of n = char_of (48 + d) # ds \<and> 0 \<le> d \<and> d < 10"
proof (induction n rule: digits_of.induct)
  case (1 n)
  show ?case
  proof (cases "n < 10")
    case True
    then show ?thesis using "1.prems" by (intro exI [of _ n]) (simp add: digits_of.simps [of n])
  next
    case False
    with "1.IH" obtain d :: int and ds where "digits_of (n div 10) = char_of (48 + d) # ds" "0 \<le> d" "d < 10" by fastforce
    then show ?thesis using False by (intro exI [of _ d]) (simp add: digits_of.simps [of n])
  qed
qed

lemma digit_not_sign:
  assumes "0 \<le> d" and "d < 10"
  shows "char_of (48 + d :: int) \<noteq> CHR ''-''" and "char_of (48 + d :: int) \<noteq> CHR ''+''"
proof -
  have c: "of_char (char_of (48 + d) :: char) = 48 + d" using assms by (simp add: of_char_of)
  have "of_char CHR ''-'' = (45 :: int)" "of_char CHR ''+'' = (43 :: int)" by simp_all
  then have "char_of (48 + d) = CHR ''-'' \<Longrightarrow> 48 + d = 45" "char_of (48 + d) = CHR ''+'' \<Longrightarrow> 48 + d = 43"
    using c by simp_all
  then show "char_of (48 + d :: int) \<noteq> CHR ''-''" "char_of (48 + d :: int) \<noteq> CHR ''+''"
    using assms by linarith+
qed

lemma Atoi_fmt_d: "Atoi (fmt_d (sint i)) = Some i"
proof (cases "sint i < 0")
  case True
  then have ds: "digits_value 0 (digits_of (- sint i)) = Some (- sint i)" "digits_of (- sint i) \<noteq> []"
    using digits_value_digits_of [of "- sint i"] digits_of_first [of "- sint i"] by auto
  then show ?thesis using True sint_int64_bounds [of i] by (simp add: Atoi_def fmt_d_def Let_def)
next
  case False
  then have v: "digits_value 0 (digits_of (sint i)) = Some (sint i)" using digits_value_digits_of by simp
  from digits_of_first [of "sint i"] False obtain d ds where
    d: "digits_of (sint i) = char_of (48 + d :: int) # ds" "0 \<le> d" "d < 10" by auto
  show ?thesis
    using False v d digit_not_sign [OF d(2,3)] sint_int64_bounds [of i] by (simp add: Atoi_def fmt_d_def Let_def)
qed

subsection \<open>errors.Join\<close>

definition errors_Join :: "string list \<Rightarrow> go_error" where
  "errors_Join es = Plain (join_at (char_of (10 :: nat)) es)"

end
