(* ===== verification/Config.thy ===== *)
theory Config
  imports Go_Strings
begin

text \<open>
  \<^verbatim>\<open>internal/config/config.go\<close>: the configuration read from the environment. \<open>getenv\<close> is
  \<^verbatim>\<open>os.Getenv\<close>, which gives the empty string for a variable that is not set.
\<close>

record Config =
  cf_ProvisioningURL :: string
  cf_NATSUrl :: string
  cf_NATSCACertPath :: string
  cf_NATSTLSCertPath :: string
  cf_NATSTLSKeyPath :: string
  cf_SQLitePath :: string
  cf_HTTPAddr :: string
  cf_DefaultSendFrequencyMs :: int64
  cf_GatewayBufferSize :: int64
  cf_MetricsAddr :: string
  cf_RecoveryMode :: bool

definition getEnv :: "(string \<Rightarrow> string) \<Rightarrow> string \<Rightarrow> string \<Rightarrow> string" where
  "getEnv getenv key fallback = (if getenv key \<noteq> '''' then getenv key else fallback)"

definition getEnvInt :: "(string \<Rightarrow> string) \<Rightarrow> string \<Rightarrow> int64 \<Rightarrow> int64" where
  "getEnvInt getenv key fallback =
     (if getenv key = '''' then fallback
      else case Atoi (getenv key) of None \<Rightarrow> fallback | Some i \<Rightarrow> i)"

definition getEnvBool :: "(string \<Rightarrow> string) \<Rightarrow> string \<Rightarrow> bool \<Rightarrow> bool" where
  "getEnvBool getenv key fallback =
     (if getenv key = '''' then fallback
      else case ParseBool (getenv key) of None \<Rightarrow> fallback | Some b \<Rightarrow> b)"

definition config_errors :: "Config \<Rightarrow> string list" where
  "config_errors cfg =
     (if cf_ProvisioningURL cfg = '''' then [''PROVISIONING_URL is required''] else []) @
     (if cf_NATSUrl cfg = '''' then [''NATS_URL is required''] else []) @
     (if cf_NATSCACertPath cfg = '''' then [''NATS_CA_CERT_PATH is required''] else []) @
     (if (cf_NATSTLSCertPath cfg = '''') \<noteq> (cf_NATSTLSKeyPath cfg = '''')
      then [''NATS_TLS_CERT and NATS_TLS_KEY must both be set or both be empty''] else [])"

text \<open>The literal \<^verbatim>\<open>Load\<close> starts from, and the rest of it.\<close>

definition base_config :: "(string \<Rightarrow> string) \<Rightarrow> Config" where
  "base_config getenv =
     \<lparr>cf_ProvisioningURL = getEnv getenv ''PROVISIONING_URL'' '''',
      cf_NATSUrl = getEnv getenv ''NATS_URL'' '''',
      cf_NATSCACertPath = getEnv getenv ''NATS_CA_CERT_PATH'' '''',
      cf_NATSTLSCertPath = getEnv getenv ''NATS_TLS_CERT'' '''',
      cf_NATSTLSKeyPath = getEnv getenv ''NATS_TLS_KEY'' '''',
      cf_SQLitePath = getEnv getenv ''SQLITE_PATH'' ''/data/simulator.db'',
      cf_HTTPAddr = getEnv getenv ''HTTP_ADDR'' '':8090'',
      cf_DefaultSendFrequencyMs = 0, cf_GatewayBufferSize = 0,
      cf_MetricsAddr = getEnv getenv ''METRICS_ADDR'' '':9090'',
      cf_RecoveryMode = False\<rparr>"

definition Load :: "(string \<Rightarrow> string) \<Rightarrow> Config result" where
  "Load getenv =
     (let cfg = base_config getenv;
          errs = config_errors cfg
      in if 0 < length errs then Inl (errors_Join errs)
         else
           let freq = getEnvInt getenv ''DEFAULT_SEND_FREQUENCY_MS'' 5000;
               size = getEnvInt getenv ''GATEWAY_BUFFER_SIZE'' 1000
           in Inr (cfg\<lparr>cf_RecoveryMode := getEnvBool getenv ''RECOVERY_MODE'' False,
                       cf_DefaultSendFrequencyMs := (if sint freq \<le> 0 then 5000 else freq),
                       cf_GatewayBufferSize := (if sint size \<le> 0 then 1000 else size)\<rparr>))"

text \<open>What the rest of the program relies on.\<close>

definition config_ok :: "Config \<Rightarrow> bool" where
  "config_ok cfg \<longleftrightarrow>
     0 < sint (cf_DefaultSendFrequencyMs cfg) \<and> 0 < sint (cf_GatewayBufferSize cfg) \<and>
     config_errors cfg = []"

lemma config_errors_update [simp]:
  "config_errors (cfg\<lparr>cf_RecoveryMode := b\<rparr>) = config_errors cfg"
  "config_errors (cfg\<lparr>cf_DefaultSendFrequencyMs := i\<rparr>) = config_errors cfg"
  "config_errors (cfg\<lparr>cf_GatewayBufferSize := i\<rparr>) = config_errors cfg"
  by (simp_all add: config_errors_def)

lemma Load_ok: "Load getenv = Inr cfg \<Longrightarrow> config_ok cfg"
  by (auto simp: Load_def Let_def config_ok_def split: if_splits)

lemma Load_fails_iff:
  "isl (Load getenv) \<longleftrightarrow>
     getenv ''PROVISIONING_URL'' = '''' \<or> getenv ''NATS_URL'' = '''' \<or> getenv ''NATS_CA_CERT_PATH'' = '''' \<or>
     (getenv ''NATS_TLS_CERT'' = '''') \<noteq> (getenv ''NATS_TLS_KEY'' = '''')"
  by (auto simp: Load_def Let_def config_errors_def base_config_def getEnv_def)

text \<open>A number that is set and usable is the one that is used.\<close>

lemma getEnvInt_set: "getenv key = fmt_d (sint i) \<Longrightarrow> getEnvInt getenv key fallback = i"
  using Atoi_fmt_d [of i] by (auto simp: getEnvInt_def Atoi_def)

lemma Load_uses:
  assumes "Load getenv = Inr cfg" and "getenv ''GATEWAY_BUFFER_SIZE'' = fmt_d (sint n)" and "0 < sint n"
  shows "cf_GatewayBufferSize cfg = n"
  using assms getEnvInt_set [of getenv "''GATEWAY_BUFFER_SIZE''" n 1000] by (auto simp: Load_def Let_def split: if_splits)

end
