(* ===== verification/Registry.thy ===== *)
theory Registry
  imports Worker_Ticks Config
begin

text \<open>
  \<^verbatim>\<open>internal/app/registry.go\<close>: the registry of gateways. Its state is the map of workers (an
  association list whose order is that of a Go \<^verbatim>\<open>range\<close> over the map), the store, the metrics,
  the environment, and how many broker connections and command subscriptions are open, which is what
  a failed creation or a deletion could leak. Here a call is one step; \<^verbatim>\<open>Registry_Calls\<close> cuts
  the calls where another goroutine can come in between.
\<close>

datatype provisioningStage = stageProvision | stageStore | stageConnect

fun stage_index :: "provisioningStage \<Rightarrow> nat" where
  "stage_index stageProvision = 0"
| "stage_index stageStore = 1"
| "stage_index stageConnect = 2"

instantiation provisioningStage :: linorder
begin

definition less_eq_provisioningStage :: "provisioningStage \<Rightarrow> provisioningStage \<Rightarrow> bool" where
  "less_eq_provisioningStage a b \<longleftrightarrow> stage_index a \<le> stage_index b"

definition less_provisioningStage :: "provisioningStage \<Rightarrow> provisioningStage \<Rightarrow> bool" where
  "less_provisioningStage a b \<longleftrightarrow> stage_index a < stage_index b"

instance
proof
  fix a b :: provisioningStage
  show "a \<le> b \<Longrightarrow> b \<le> a \<Longrightarrow> a = b"
    by (cases a; cases b) (simp_all add: less_eq_provisioningStage_def)
qed (auto simp: less_eq_provisioningStage_def less_provisioningStage_def)

end

record 's GatewayRegistry =
  rg_workers :: "(uuid \<times> GatewayWorker) list"
  rg_store :: 's
  rg_metrics :: metrics
  rg_env :: env
  rg_cfg :: Config
  rg_conns :: nat
  rg_subs :: nat

definition NewGatewayRegistry :: "'s \<Rightarrow> env \<Rightarrow> Config \<Rightarrow> metrics \<Rightarrow> 's GatewayRegistry" where
  "NewGatewayRegistry store e cfg m =
     \<lparr>rg_workers = [], rg_store = store, rg_metrics = m, rg_env = e, rg_cfg = cfg,
      rg_conns = 0, rg_subs = 0\<rparr>"

subsection \<open>Helpers\<close>

definition on_store :: "('s \<Rightarrow> 'a \<times> 's) \<Rightarrow> 's GatewayRegistry \<Rightarrow> 'a \<times> 's GatewayRegistry" where
  "on_store f r = (let (x, s) = f (rg_store r) in (x, r\<lparr>rg_store := s\<rparr>))"

definition registry_Now :: "'s GatewayRegistry \<Rightarrow> time \<times> 's GatewayRegistry" where
  "registry_Now r = (let (t, e) = clock_Now (rg_env r) in (t, r\<lparr>rg_env := e\<rparr>))"

definition inc_running :: "int \<Rightarrow> 's GatewayRegistry \<Rightarrow> 's GatewayRegistry" where
  "inc_running d r = r\<lparr>rg_metrics := (rg_metrics r)\<lparr>GatewaysRunning := GatewaysRunning (rg_metrics r) + d\<rparr>\<rparr>"

definition inc_errors :: "'s GatewayRegistry \<Rightarrow> 's GatewayRegistry" where
  "inc_errors r = r\<lparr>rg_metrics := (rg_metrics r)\<lparr>ProvisioningErrors := Suc (ProvisioningErrors (rg_metrics r))\<rparr>\<rparr>"

definition inc_success :: "'s GatewayRegistry \<Rightarrow> 's GatewayRegistry" where
  "inc_success r = r\<lparr>rg_metrics := (rg_metrics r)\<lparr>ProvisioningSuccess := Suc (ProvisioningSuccess (rg_metrics r))\<rparr>\<rparr>"

text \<open>\<^verbatim>\<open>fmt.Errorf(errNotFoundFormat, domain.ErrGatewayNotFound, id)\<close>.\<close>

definition notFound :: "'x libs_scheme \<Rightarrow> uuid \<Rightarrow> go_error" where
  "notFound L u = Wrap '''' (Sentinel ErrGatewayNotFound) ('': '' @ uuid_String L u)"

text \<open>The two messages for a failed \<^verbatim>\<open>GetGatewayByManagementID\<close>.\<close>

definition gateway_lookup_error :: "'x libs_scheme \<Rightarrow> uuid \<Rightarrow> go_error \<Rightarrow> go_error" where
  "gateway_lookup_error L u err =
     (if err_is err ErrGatewayNotFound then notFound L u else Wrap ''get gateway: '' err '''')"

text \<open>
  \<^verbatim>\<open>w.commandPumpCancel()\<close>, after which the pump closes the subscription, and \<^verbatim>\<open>w.Stop\<close>,
  with what they close.
\<close>

definition stop_worker :: "GatewayWorker \<Rightarrow> 's GatewayRegistry \<Rightarrow> GatewayWorker \<times> 's GatewayRegistry" where
  "stop_worker w r =
     (let r = (if w_pumpRunning w then r\<lparr>rg_subs := rg_subs r - 1\<rparr> else r);
          w' = worker_Stop (w\<lparr>w_pumpRunning := False\<rparr>);
          r = (if w_connClosed w' \<and> \<not> w_connClosed w then r\<lparr>rg_conns := rg_conns r - 1\<rparr> else r)
      in (w', r))"

subsection \<open>The provisioning saga\<close>

definition connector_Connect ::
  "bytes \<Rightarrow> bytes \<Rightarrow> string \<Rightarrow> uuid \<Rightarrow> 's GatewayRegistry
     \<Rightarrow> NATSGatewayPublisher result \<times> 's GatewayRegistry" where
  "connector_Connect cert key tenant u r =
     (let e = rg_env r;
          r = r\<lparr>rg_env := env_tick e\<rparr>
      in case env_connect e (env_pos e) cert key tenant u of
           Inl err \<Rightarrow> (Inl err, r)
         | Inr _ \<Rightarrow> (Inr \<lparr>pub_nc = True, pub_js = True, pub_log = []\<rparr>,
                     r\<lparr>rg_conns := Suc (rg_conns r), rg_subs := Suc (rg_subs r)\<rparr>))"

definition provisioner_Onboard ::
  "string \<Rightarrow> string \<Rightarrow> int64 \<Rightarrow> string \<Rightarrow> 's GatewayRegistry
     \<Rightarrow> ProvisionResult result \<times> 's GatewayRegistry" where
  "provisioner_Onboard fid fkey freq version r =
     (let e = rg_env r
      in (env_onboard e (env_pos e) fid fkey freq version, r\<lparr>rg_env := env_tick e\<rparr>))"

text \<open>\<open>conn\<close> says whether the subscription and the closer handed over are not nil.\<close>

definition compensate ::
  "'s store_ops \<Rightarrow> SimGateway \<Rightarrow> provisioningStage \<Rightarrow> bool \<Rightarrow> 's GatewayRegistry \<Rightarrow> 's GatewayRegistry" where
  "compensate ops gw failedAt conn r =
     (let close = (\<lambda>r. if conn then r\<lparr>rg_subs := rg_subs r - 1, rg_conns := rg_conns r - 1\<rparr> else r);
          delete = (\<lambda>r. snd (on_store (op_DeleteGateway ops (gw_ID gw)) r))
      in case failedAt of
           stageConnect \<Rightarrow> delete (close r)
         | stageStore \<Rightarrow> delete r
         | stageProvision \<Rightarrow> r)"

fun new_generators :: "SimSensor list \<Rightarrow> env \<Rightarrow> Generator list \<times> env" where
  "new_generators [] e = ([], e)"
| "new_generators (n # ns) e =
     (let (g, e) = factory_New n e; (gs, e) = new_generators ns e in (g # gs, e))"

definition telemetry_subject :: "'x libs_scheme \<Rightarrow> SimGateway \<Rightarrow> string" where
  "telemetry_subject L gw =
     ''telemetry.data.'' @ gw_TenantID gw @ ''.'' @ uuid_String L (gw_ManagementGatewayID gw)"

definition startWorker ::
  "'x libs_scheme \<Rightarrow> 's store_ops \<Rightarrow> SimGateway \<Rightarrow> SimSensor list \<Rightarrow> NATSGatewayPublisher
     \<Rightarrow> 's GatewayRegistry \<Rightarrow> 's GatewayRegistry go" where
  "startWorker L ops gw sensors pub r =
     (let (gens, e) = new_generators sensors (rg_env r);
          r = r\<lparr>rg_env := e\<rparr>
      in go_bind (NewMessageBuffer (cf_GatewayBufferSize (rg_cfg r)) (telemetry_subject L gw)
                    (uuid_String L (gw_ManagementGatewayID gw))) (\<lambda>buf.
         let deps = \<lparr>wd_Gateway = gw, wd_Sensors = sensors, wd_Generators = gens,
                     wd_Publisher = pub, wd_Buffer = buf\<rparr>
         in go_bind (worker_Start (NewGatewayWorker deps)) (\<lambda>w.
            let w = w\<lparr>w_pumpRunning := True\<rparr>;
                r = r\<lparr>rg_workers := map_put (gw_ManagementGatewayID gw) w (rg_workers r)\<rparr>;
                r = inc_running 1 r;
                (_, r) = on_store (op_UpdateStatus ops (gw_ID gw) Online) r
            in Return r)))"

text \<open>Stages 3 and 4, with the row already in the store.\<close>

definition saga_connect ::
  "'x libs_scheme \<Rightarrow> 's store_ops \<Rightarrow> SimGateway \<Rightarrow> 's GatewayRegistry
     \<Rightarrow> (SimGateway result \<times> 's GatewayRegistry) go" where
  "saga_connect L ops gw r =
     (case connector_Connect (gw_CertPEM gw) (gw_PrivateKeyPEM gw) (gw_TenantID gw)
             (gw_ManagementGatewayID gw) r of
        (Inl err, r) \<Rightarrow>
          Return (Inl (Wrap ''connect: '' err ''''), inc_errors (compensate ops gw stageStore False r))
      | (Inr pub, r) \<Rightarrow>
          (case on_store (op_ListSensors ops (gw_ID gw)) r of
             (Inl err, r) \<Rightarrow>
               Return (Inl (Wrap ''list sensors: '' err ''''), inc_errors (compensate ops gw stageConnect True r))
           | (Inr sensors, r) \<Rightarrow>
               go_bind (startWorker L ops gw sensors pub r)
                 (\<lambda>r. Return (Inr (gw\<lparr>gw_Status := Online\<rparr>), inc_success r))))"

definition provisioned_gateway :: "uuid \<Rightarrow> ProvisionResult \<Rightarrow> SimGateway \<Rightarrow> SimGateway" where
  "provisioned_gateway u res gw =
     gw\<lparr>gw_ManagementGatewayID := u, gw_TenantID := pr_TenantID res,
        gw_CertPEM := pr_CertPEM res, gw_PrivateKeyPEM := pr_PrivateKeyPEM res,
        gw_EncryptionKey := pr_AESKey res, gw_Provisioned := True\<rparr>"

definition runProvisioningSaga ::
  "'x libs_scheme \<Rightarrow> 's store_ops \<Rightarrow> SimGateway \<Rightarrow> 's GatewayRegistry
     \<Rightarrow> (SimGateway result \<times> 's GatewayRegistry) go" where
  "runProvisioningSaga L ops gw r =
     (case provisioner_Onboard (gw_FactoryID gw) (gw_FactoryKey gw) (gw_SendFrequencyMs gw)
             (gw_FirmwareVersion gw) r of
        (Inl err, r) \<Rightarrow> Return (Inl (Wrap ''onboard: '' err ''''), inc_errors r)
      | (Inr res, r) \<Rightarrow>
          (case uuid_Parse L (pr_GatewayID res) of
             None \<Rightarrow> Return (Inl (Wrap ''parse gateway ID from provisioning: '' (Plain ''invalid UUID'') ''''),
                        inc_errors r)
           | Some u \<Rightarrow>
               let gw = provisioned_gateway u res gw
               in case on_store (op_CreateGateway ops gw) r of
                    (Inl err, r) \<Rightarrow> Return (Inl (Wrap ''create gateway in store: '' err ''''), inc_errors r)
                  | (Inr i, r) \<Rightarrow> saga_connect L ops (gw\<lparr>gw_ID := i\<rparr>) r))"

subsection \<open>GatewayLifecycleService\<close>

definition requested_gateway :: "Config \<Rightarrow> CreateGatewayRequest \<Rightarrow> time \<Rightarrow> SimGateway" where
  "requested_gateway cfg req now =
     (let freq = (if sint (cr_SendFrequencyMs req) \<le> 0 then cf_DefaultSendFrequencyMs cfg
                  else cr_SendFrequencyMs req)
      in \<lparr>gw_ID = 0, gw_ManagementGatewayID = 0, gw_FactoryID = cr_FactoryID req,
          gw_FactoryKey = cr_FactoryKey req, gw_Model = cr_Model req,
          gw_FirmwareVersion = cr_FirmwareVersion req, gw_Provisioned = False,
          gw_CertPEM = [], gw_PrivateKeyPEM = [], gw_EncryptionKey = zero_EncryptionKey,
          gw_SendFrequencyMs = freq, gw_Status = Provisioning, gw_TenantID = '''',
          gw_CreatedAt = now\<rparr>)"

definition CreateAndStart ::
  "'x libs_scheme \<Rightarrow> 's store_ops \<Rightarrow> CreateGatewayRequest \<Rightarrow> 's GatewayRegistry
     \<Rightarrow> (SimGateway result \<times> 's GatewayRegistry) go" where
  "CreateAndStart L ops req r =
     (let (now, r) = registry_Now r
      in runProvisioningSaga L ops (requested_gateway (rg_cfg r) req now) r)"

definition resolveBulkFactoryIDs :: "string list \<Rightarrow> string list" where
  "resolveBulkFactoryIDs raw = filter (\<lambda>s. s \<noteq> '''') (map TrimSpace raw)"

definition bulk_request :: "BulkCreateRequest \<Rightarrow> string \<Rightarrow> CreateGatewayRequest" where
  "bulk_request req fid =
     \<lparr>cr_FactoryID = fid, cr_FactoryKey = br_FactoryKey req, cr_Model = br_Model req,
      cr_FirmwareVersion = br_FirmwareVersion req, cr_SendFrequencyMs = br_SendFrequencyMs req\<rparr>"

text \<open>
  The goroutines of \<^verbatim>\<open>BulkCreateGateways\<close> in the order \<open>schedule\<close> in which they run; each
  writes its own slot of the two result slices.
\<close>

fun bulk_run ::
  "'x libs_scheme \<Rightarrow> 's store_ops \<Rightarrow> BulkCreateRequest \<Rightarrow> string list \<Rightarrow> nat list
     \<Rightarrow> (SimGateway result option list \<times> 's GatewayRegistry)
     \<Rightarrow> (SimGateway result option list \<times> 's GatewayRegistry) go" where
  "bulk_run L ops req ids [] s = Return s"
| "bulk_run L ops req ids (i # is) (slots, r) =
     go_bind (CreateAndStart L ops (bulk_request req (ids ! i)) r)
       (\<lambda>(res, r). bulk_run L ops req ids is (slots[i := Some res], r))"

definition BulkCreateGateways ::
  "'x libs_scheme \<Rightarrow> 's store_ops \<Rightarrow> nat list \<Rightarrow> BulkCreateRequest \<Rightarrow> 's GatewayRegistry
     \<Rightarrow> (SimGateway result option list \<times> 's GatewayRegistry) go" where
  "BulkCreateGateways L ops schedule req r =
     (let ids = resolveBulkFactoryIDs (br_FactoryIDs req)
      in bulk_run L ops req ids schedule (replicate (length ids) None, r))"

definition registry_Start ::
  "'x libs_scheme \<Rightarrow> 's store_ops \<Rightarrow> uuid \<Rightarrow> 's GatewayRegistry \<Rightarrow> (unit result \<times> 's GatewayRegistry) go" where
  "registry_Start L ops u r =
     (case map_of (rg_workers r) u of
        None \<Rightarrow> Return (Inl (notFound L u), r)
      | Some w \<Rightarrow>
          if worker_IsRunning w then Return (Inr (), r)
          else go_bind (worker_Start w) (\<lambda>w'.
                 Return (on_store (op_UpdateStatus ops (gw_ID (w_gateway w)) Online)
                   (r\<lparr>rg_workers := map_put u w' (rg_workers r)\<rparr>))))"

definition registry_Stop ::
  "'x libs_scheme \<Rightarrow> 's store_ops \<Rightarrow> uuid \<Rightarrow> 's GatewayRegistry \<Rightarrow> unit result \<times> 's GatewayRegistry" where
  "registry_Stop L ops u r =
     (case map_of (rg_workers r) u of
        None \<Rightarrow> (Inl (notFound L u), r)
      | Some w \<Rightarrow>
          let (w', r) = stop_worker w r
          in on_store (op_UpdateStatus ops (gw_ID (w_gateway w)) Offline)
               (r\<lparr>rg_workers := map_put u w' (rg_workers r)\<rparr>))"

definition registry_Delete ::
  "'x libs_scheme \<Rightarrow> 's store_ops \<Rightarrow> uuid \<Rightarrow> 's GatewayRegistry \<Rightarrow> unit result \<times> 's GatewayRegistry" where
  "registry_Delete L ops u r =
     (case map_of (rg_workers r) u of
        None \<Rightarrow> (Inl (notFound L u), r)
      | Some w \<Rightarrow>
          let r = r\<lparr>rg_workers := map_del u (rg_workers r)\<rparr>;
              (_, r) = stop_worker w r
          in case on_store (op_DeleteGateway ops (gw_ID (w_gateway w))) r of
               (Inl err, r) \<Rightarrow> (Inl (Wrap ''delete gateway from store: '' err ''''), r)
             | (Inr _, r) \<Rightarrow> (Inr (), inc_running (- 1) r))"

definition registry_ListGateways ::
  "'s store_ops \<Rightarrow> 's GatewayRegistry \<Rightarrow> SimGateway list result \<times> 's GatewayRegistry" where
  "registry_ListGateways ops = on_store (op_ListGateways ops)"

definition registry_GetGateway ::
  "'x libs_scheme \<Rightarrow> 's store_ops \<Rightarrow> uuid \<Rightarrow> 's GatewayRegistry \<Rightarrow> SimGateway result \<times> 's GatewayRegistry" where
  "registry_GetGateway L ops u r =
     (case on_store (op_GetGatewayByManagementID ops u) r of
        (Inl err, r) \<Rightarrow> (Inl (gateway_lookup_error L u err), r)
      | (Inr gw, r) \<Rightarrow> (Inr gw, r))"

subsection \<open>SensorManagementService\<close>

text \<open>
  The fields the registry assigns, and the part after the row is stored: a registered worker
  gets the sensor and a generator of its own.
\<close>

definition stamp_sensor ::
  "uuid \<Rightarrow> SimGateway \<Rightarrow> SimSensor \<Rightarrow> 's GatewayRegistry \<Rightarrow> SimSensor \<times> 's GatewayRegistry" where
  "stamp_sensor u gw sensor r =
     (let (sid, e) = uuid_New (rg_env r);
          (now, r) = registry_Now (r\<lparr>rg_env := e\<rparr>)
      in (sensor\<lparr>sn_SensorID := sid, sn_GatewayID := gw_ID gw,
                 sn_ManagementGatewayID := u, sn_CreatedAt := now\<rparr>, r))"

definition attach_to_worker ::
  "uuid \<Rightarrow> SimSensor \<Rightarrow> 's GatewayRegistry \<Rightarrow> SimSensor result \<times> 's GatewayRegistry" where
  "attach_to_worker u sensor r =
     (case map_of (rg_workers r) u of
        None \<Rightarrow> (Inr sensor, r)
      | Some w \<Rightarrow>
          let (gen, e) = factory_New sensor (rg_env r);
              r = r\<lparr>rg_env := e\<rparr>
          in case AttachSensor sensor gen w of
               (Inl err, _) \<Rightarrow> (Inl (Wrap ''failed to attach sensor to worker: '' err ''''), r)
             | (Inr _, w) \<Rightarrow> (Inr sensor, r\<lparr>rg_workers := map_put u w (rg_workers r)\<rparr>))"

definition AddSensor ::
  "'x libs_scheme \<Rightarrow> 's store_ops \<Rightarrow> uuid \<Rightarrow> SimSensor \<Rightarrow> 's GatewayRegistry
     \<Rightarrow> SimSensor result \<times> 's GatewayRegistry" where
  "AddSensor L ops u sensor r =
     (if sn_MaxRange sensor \<le> sn_MinRange sensor then (Inl (invalidSensorRange sensor), r)
      else
        case on_store (op_GetGatewayByManagementID ops u) r of
          (Inl err, r) \<Rightarrow> (Inl (gateway_lookup_error L u err), r)
        | (Inr gw, r) \<Rightarrow>
            let (sensor, r) = stamp_sensor u gw sensor r
            in case on_store (op_CreateSensor ops sensor) r of
                 (Inl err, r) \<Rightarrow> (Inl (Wrap ''create sensor in store: '' err ''''), r)
               | (Inr i, r) \<Rightarrow> attach_to_worker u (sensor\<lparr>sn_ID := i\<rparr>) r)"

definition registry_ListSensors ::
  "'x libs_scheme \<Rightarrow> 's store_ops \<Rightarrow> uuid \<Rightarrow> 's GatewayRegistry \<Rightarrow> SimSensor list result \<times> 's GatewayRegistry" where
  "registry_ListSensors L ops u r =
     (case on_store (op_GetGatewayByManagementID ops u) r of
        (Inl err, r) \<Rightarrow> (Inl (gateway_lookup_error L u err), r)
      | (Inr gw, r) \<Rightarrow>
          (case on_store (op_ListSensors ops (gw_ID gw)) r of
             (Inl err, r) \<Rightarrow> (Inl err, r)
           | (Inr sensors, r) \<Rightarrow> (Inr (map (\<lambda>n. n\<lparr>sn_ManagementGatewayID := u\<rparr>) sensors), r)))"

definition registry_DeleteSensor ::
  "'s store_ops \<Rightarrow> uuid \<Rightarrow> 's GatewayRegistry \<Rightarrow> unit result \<times> 's GatewayRegistry" where
  "registry_DeleteSensor ops sensorID r =
     (case on_store (op_GetSensorBySensorID ops sensorID) r of
        (Inl err, r) \<Rightarrow> (Inl err, r)
      | (Inr sensor, r) \<Rightarrow> on_store (op_DeleteSensor ops (sn_ID sensor)) r)"

subsection \<open>SimulatorControlService\<close>

definition UpdateConfig ::
  "'x libs_scheme \<Rightarrow> uuid \<Rightarrow> GatewayConfigUpdate \<Rightarrow> 's GatewayRegistry \<Rightarrow> unit result \<times> 's GatewayRegistry" where
  "UpdateConfig L u update r =
     (case map_of (rg_workers r) u of
        None \<Rightarrow> (Inl (notFound L u), r)
      | Some w \<Rightarrow>
          (case try_send update (w_configCh w) of
             Some c \<Rightarrow> (Inr (), r\<lparr>rg_workers := map_put u (w\<lparr>w_configCh := c\<rparr>) (rg_workers r)\<rparr>)
           | None \<Rightarrow> (Inl (Plain (''config channel full for gateway '' @ uuid_String L u)), r)))"

definition InjectGatewayAnomaly ::
  "'x libs_scheme \<Rightarrow> uuid \<Rightarrow> GatewayAnomalyCommand \<Rightarrow> 's GatewayRegistry \<Rightarrow> unit result \<times> 's GatewayRegistry" where
  "InjectGatewayAnomaly L u cmd r =
     (case map_of (rg_workers r) u of
        None \<Rightarrow> (Inl (notFound L u), r)
      | Some w \<Rightarrow>
          (case try_send cmd (w_anomalyCh w) of
             Some c \<Rightarrow> (Inr (), r\<lparr>rg_workers := map_put u (w\<lparr>w_anomalyCh := c\<rparr>) (rg_workers r)\<rparr>)
           | None \<Rightarrow> (Inl (Plain (''anomaly channel full for gateway '' @ uuid_String L u)), r)))"

definition InjectSensorOutlier ::
  "'x libs_scheme \<Rightarrow> 's store_ops \<Rightarrow> uuid \<Rightarrow> float64 option \<Rightarrow> 's GatewayRegistry
     \<Rightarrow> unit result \<times> 's GatewayRegistry" where
  "InjectSensorOutlier L ops sensorID v r =
     (case on_store (op_GetSensorBySensorID ops sensorID) r of
        (Inl err, r) \<Rightarrow>
          (if err_is err ErrSensorNotFound
           then Inl (Wrap '''' (Sentinel ErrSensorNotFound) ('': sensor '' @ uuid_String L sensorID))
           else Inl (Wrap ''get sensor: '' err ''''), r)
      | (Inr sensor, r) \<Rightarrow>
          (case List.find (\<lambda>(_, w). gw_ID (w_gateway w) = sn_GatewayID sensor) (rg_workers r) of
             None \<Rightarrow> (Inl (Wrap '''' (Sentinel ErrGatewayNotFound)
                         ('': gateway for sensor '' @ uuid_String L sensorID)), r)
           | Some (u, w) \<Rightarrow>
               (case try_send \<lparr>oc_SensorID = sn_SensorID sensor, oc_Value = v\<rparr> (w_outlierCh w) of
                  Some c \<Rightarrow> (Inr (), r\<lparr>rg_workers := map_put u (w\<lparr>w_outlierCh := c\<rparr>) (rg_workers r)\<rparr>)
                | None \<Rightarrow> (Inl (Plain (''outlier channel full for sensor '' @ uuid_String L sensorID)), r))))"

subsection \<open>Restoring, decommissioning and shutting down\<close>

definition restoreGateway ::
  "'x libs_scheme \<Rightarrow> 's store_ops \<Rightarrow> SimGateway \<Rightarrow> 's GatewayRegistry
     \<Rightarrow> (unit result \<times> 's GatewayRegistry) go" where
  "restoreGateway L ops gw r =
     (case on_store (op_ListSensors ops (gw_ID gw)) r of
        (Inl err, r) \<Rightarrow>
          Return (Inl (Wrap (''list sensors for gateway '' @ fmt_d (sint (gw_ID gw)) @ '': '') err ''''), r)
      | (Inr sensors, r) \<Rightarrow>
          (case connector_Connect (gw_CertPEM gw) (gw_PrivateKeyPEM gw) (gw_TenantID gw)
                  (gw_ManagementGatewayID gw) r of
             (Inl err, r) \<Rightarrow> Return (Inl (Wrap ''connect to NATS: '' err ''''), r)
           | (Inr pub, r) \<Rightarrow> go_bind (startWorker L ops gw sensors pub r) (\<lambda>r. Return (Inr (), r))))"

fun restore_each ::
  "'x libs_scheme \<Rightarrow> 's store_ops \<Rightarrow> SimGateway list \<Rightarrow> 's GatewayRegistry \<Rightarrow> 's GatewayRegistry go" where
  "restore_each L ops [] r = Return r"
| "restore_each L ops (gw # gws) r =
     (if \<not> gw_Provisioned gw then restore_each L ops gws r
      else go_bind (restoreGateway L ops gw r) (\<lambda>(_, r). restore_each L ops gws r))"

definition RestoreAll ::
  "'x libs_scheme \<Rightarrow> 's store_ops \<Rightarrow> 's GatewayRegistry \<Rightarrow> (unit result \<times> 's GatewayRegistry) go" where
  "RestoreAll L ops r =
     (case on_store (op_ListGateways ops) r of
        (Inl err, r) \<Rightarrow> Return (Inl (Wrap ''list gateways from store: '' err ''''), r)
      | (Inr gws, r) \<Rightarrow> go_bind (restore_each L ops gws r) (\<lambda>r. Return (Inr (), r)))"

definition HandleDecommission ::
  "'x libs_scheme \<Rightarrow> 's store_ops \<Rightarrow> string \<Rightarrow> string \<Rightarrow> 's GatewayRegistry \<Rightarrow> 's GatewayRegistry" where
  "HandleDecommission L ops tenantID managementGatewayID r =
     (case uuid_Parse L managementGatewayID of
        None \<Rightarrow> r
      | Some u \<Rightarrow>
          (case map_of (rg_workers r) u of
             None \<Rightarrow> r
           | Some w \<Rightarrow>
               if gw_TenantID (w_gateway w) \<noteq> tenantID then r
               else
                 let r = r\<lparr>rg_workers := map_del u (rg_workers r)\<rparr>;
                     (_, r) = stop_worker w r;
                     (_, r) = on_store (op_DeleteGateway ops (gw_ID (w_gateway w))) r
                 in inc_running (- 1) r))"

fun stop_each :: "(uuid \<times> GatewayWorker) list \<Rightarrow> 's GatewayRegistry \<Rightarrow> 's GatewayRegistry" where
  "stop_each [] r = r"
| "stop_each ((u, w) # ws) r =
     (let (w', r) = stop_worker w r
      in stop_each ws (r\<lparr>rg_workers := map_put u w' (rg_workers r)\<rparr>))"

definition StopAll :: "'s GatewayRegistry \<Rightarrow> 's GatewayRegistry" where
  "StopAll r = stop_each (rg_workers r) r"

end
