(* ===== verification/Registry_Facts.thy ===== *)
theory Registry_Facts
  imports Registry Sqlite_Store
begin

text \<open>
  The registry's invariant, which ties the map of workers to the store, to the open connections
  and to the gauge, and the provisioning saga: it either hands over a running worker with its row, or
  leaves no trace. The lemmas hold for every store that satisfies the relational contract.
\<close>

subsection \<open>The invariant\<close>

definition worker_registered :: "(int64 \<Rightarrow> SimGateway option) \<Rightarrow> uuid \<Rightarrow> GatewayWorker \<Rightarrow> bool" where
  "worker_registered G u w \<longleftrightarrow>
     worker_ok w \<and> gw_ManagementGatewayID (w_gateway w) = u \<and>
     (\<exists>g. G (gw_ID (w_gateway w)) = Some g \<and> gw_ManagementGatewayID g = u \<and>
        gw_TenantID g = gw_TenantID (w_gateway w)) \<and>
     w_publisherClosed w = w_connClosed w \<and>
     (\<not> w_isRunning w \<longrightarrow> w_connClosed w \<and> \<not> w_pumpRunning w)"

text \<open>An invariant of the oracles: keys come out of provisioning through \<^verbatim>\<open>NewEncryptionKey\<close>.\<close>

definition onboard_lawful :: "env \<Rightarrow> bool" where
  "onboard_lawful e \<longleftrightarrow>
     (\<forall>n a b c d p. env_onboard e n a b c d = Inr p \<longrightarrow> key_ok (pr_AESKey p))"

definition open_conns :: "(uuid \<times> GatewayWorker) list \<Rightarrow> nat" where
  "open_conns ws = length (filter (\<lambda>(_, w). \<not> w_connClosed w) ws)"

definition open_subs :: "(uuid \<times> GatewayWorker) list \<Rightarrow> nat" where
  "open_subs ws = length (filter (\<lambda>(_, w). w_pumpRunning w) ws)"

text \<open>
  What calls that are under way hold besides the map of workers: connections and subscriptions that no
  registered worker owns, the difference they still owe the gauge, and the rows of gateways that are
  being created or deleted and have no registered worker. A deletion whose store operation fails leaves
  the gauge one too high for good, so between calls the gauge is only known to be high enough; where
  these deletions are counted too, \<^verbatim>\<open>held_exact\<close> says that the difference is exact.
\<close>

record held =
  held_conns :: nat
  held_subs :: nat
  held_gauge :: int
  held_rows :: "SimGateway list"
  held_exact :: bool

definition nothing_held :: held where
  "nothing_held = \<lparr>held_conns = 0, held_subs = 0, held_gauge = 0, held_rows = [], held_exact = False\<rparr>"

lemma nothing_held_simps [simp]:
  "held_conns nothing_held = 0" "held_subs nothing_held = 0" "held_gauge nothing_held = 0"
  "held_rows nothing_held = []" "\<not> held_exact nothing_held"
  by (simp_all add: nothing_held_def)

definition has_row :: "(int64 \<Rightarrow> SimGateway option) \<Rightarrow> SimGateway \<Rightarrow> bool" where
  "has_row G gw \<longleftrightarrow> (\<exists>g. G (gw_ID gw) = Some g \<and>
     gw_ManagementGatewayID g = gw_ManagementGatewayID gw \<and> gw_TenantID g = gw_TenantID gw)"

definition rows_held ::
  "(int64 \<Rightarrow> SimGateway option) \<Rightarrow> (uuid \<times> GatewayWorker) list \<Rightarrow> SimGateway list \<Rightarrow> bool" where
  "rows_held G ws gs \<longleftrightarrow>
     list_all (has_row G) gs \<and> distinct (map gw_ManagementGatewayID gs) \<and>
     gw_ManagementGatewayID ` set gs \<inter> fst ` set ws = {}"

lemma rows_held_Nil [simp]: "rows_held G ws []"
  by (simp add: rows_held_def)

definition registry_holds ::
  "held \<Rightarrow> ('s \<Rightarrow> int64 \<Rightarrow> SimGateway option) \<Rightarrow> ('s \<Rightarrow> bool) \<Rightarrow> 's GatewayRegistry \<Rightarrow> bool" where
  "registry_holds H G ok r \<longleftrightarrow>
     ok (rg_store r) \<and> config_ok (rg_cfg r) \<and> onboard_lawful (rg_env r) \<and>
     distinct (map fst (rg_workers r)) \<and>
     (\<forall>u w. map_of (rg_workers r) u = Some w \<longrightarrow> worker_registered (G (rg_store r)) u w) \<and>
     rg_conns r = held_conns H + open_conns (rg_workers r) \<and> rg_subs r = held_subs H + open_subs (rg_workers r) \<and>
     int (length (rg_workers r)) \<le> GatewaysRunning (rg_metrics r) + held_gauge H \<and>
     (held_exact H \<longrightarrow> GatewaysRunning (rg_metrics r) + held_gauge H \<le> int (length (rg_workers r))) \<and>
     rows_held (G (rg_store r)) (rg_workers r) (held_rows H)"

text \<open>The invariant between calls.\<close>

abbreviation registry_ok ::
  "('s \<Rightarrow> int64 \<Rightarrow> SimGateway option) \<Rightarrow> ('s \<Rightarrow> bool) \<Rightarrow> 's GatewayRegistry \<Rightarrow> bool" where
  "registry_ok \<equiv> registry_holds nothing_held"

lemma NewGatewayRegistry_ok [inv_intros]:
  "ok s \<Longrightarrow> config_ok cfg \<Longrightarrow> onboard_lawful e \<Longrightarrow> 0 \<le> GatewaysRunning m \<Longrightarrow>
   registry_ok G ok (NewGatewayRegistry s e cfg m)"
  by (simp add: registry_holds_def NewGatewayRegistry_def open_conns_def open_subs_def)

subsection \<open>Counting over the map of workers\<close>

lemma count_put_new:
  "u \<notin> fst ` set ws \<Longrightarrow> length (filter P (map_put u w ws)) = length (filter P ws) + (if P (u, w) then 1 else 0)"
  by (induction u w ws rule: map_put.induct) auto

lemma count_put_old:
  "distinct (map fst ws) \<Longrightarrow> map_of ws u = Some v \<Longrightarrow>
   length (filter P (map_put u w ws)) + (if P (u, v) then 1 else 0) = length (filter P ws) + (if P (u, w) then 1 else 0)"
proof (induction u w ws rule: map_put.induct)
  case (2 k v' k' v'' m)
  then show ?case by (cases "k = k'") (auto simp: image_iff split: if_splits)
qed simp

lemma count_del:
  "distinct (map fst ws) \<Longrightarrow> map_of ws u = Some v \<Longrightarrow>
   length (filter P (map_del u ws)) + (if P (u, v) then 1 else 0) = length (filter P ws)"
proof (induction ws)
  case (Cons p ws)
  obtain k x where p: "p = (k, x)" by (cases p)
  have del: "map_del u (p # ws) = (if k = u then map_del u ws else p # map_del u ws)"
    by (simp add: map_del_def p)
  show ?case
  proof (cases "k = u")
    case True
    then have "map_del u ws = ws" using Cons.prems(1) by (intro map_del_idem) (simp add: p)
    then show ?thesis using True Cons.prems(2) unfolding del by (simp add: p)
  next
    case False
    then show ?thesis using Cons.IH Cons.prems unfolding del by (simp add: p)
  qed
qed simp

lemma open_put_new:
  assumes "u \<notin> fst ` set ws"
  shows "open_conns (map_put u w ws) = open_conns ws + (if w_connClosed w then 0 else 1)"
    and "open_subs (map_put u w ws) = open_subs ws + (if w_pumpRunning w then 1 else 0)"
    and "length (map_put u w ws) = Suc (length ws)"
  using assms by (simp_all add: open_conns_def open_subs_def count_put_new length_map_put_new)

lemma open_put_old:
  assumes "distinct (map fst ws)" and "map_of ws u = Some v"
  shows "open_conns (map_put u w ws) + (if w_connClosed v then 0 else 1) = open_conns ws + (if w_connClosed w then 0 else 1)"
    and "open_subs (map_put u w ws) + (if w_pumpRunning v then 1 else 0) = open_subs ws + (if w_pumpRunning w then 1 else 0)"
    and "length (map_put u w ws) = length ws"
proof -
  have "u \<in> fst ` set ws" using assms(2) by (metis map_of_SomeD fst_conv image_eqI)
  then show "length (map_put u w ws) = length ws" by (rule length_map_put_old)
  show "open_conns (map_put u w ws) + (if w_connClosed v then 0 else 1) = open_conns ws + (if w_connClosed w then 0 else 1)"
    and "open_subs (map_put u w ws) + (if w_pumpRunning v then 1 else 0) = open_subs ws + (if w_pumpRunning w then 1 else 0)"
    using count_put_old [OF assms, of "\<lambda>(_, w). \<not> w_connClosed w" w] count_put_old [OF assms, of "\<lambda>(_, w). w_pumpRunning w" w]
    by (simp_all add: open_conns_def open_subs_def split: if_splits)
qed

lemma open_del:
  assumes "distinct (map fst ws)" and "map_of ws u = Some v"
  shows "open_conns (map_del u ws) + (if w_connClosed v then 0 else 1) = open_conns ws"
    and "open_subs (map_del u ws) + (if w_pumpRunning v then 1 else 0) = open_subs ws"
    and "Suc (length (map_del u ws)) = length ws"
proof -
  have "u \<in> fst ` set ws" using assms(2) by (metis map_of_SomeD fst_conv image_eqI)
  then show "Suc (length (map_del u ws)) = length ws" by (rule length_map_del [OF assms(1)])
  show "open_conns (map_del u ws) + (if w_connClosed v then 0 else 1) = open_conns ws"
    and "open_subs (map_del u ws) + (if w_pumpRunning v then 1 else 0) = open_subs ws"
    using count_del [OF assms, of "\<lambda>(_, w). \<not> w_connClosed w"] count_del [OF assms, of "\<lambda>(_, w). w_pumpRunning w"]
    by (simp_all add: open_conns_def open_subs_def split: if_splits)
qed

subsection \<open>Frames of the helpers\<close>

lemma on_storeD:
  assumes "on_store f r = (x, r')"
  shows "f (rg_store r) = (x, rg_store r')" and "rg_workers r' = rg_workers r" and "rg_metrics r' = rg_metrics r"
    and "rg_env r' = rg_env r" and "rg_cfg r' = rg_cfg r" and "rg_conns r' = rg_conns r" and "rg_subs r' = rg_subs r"
  using assms by (auto simp: on_store_def split: prod.splits)

lemma inc_simps [simp]:
  "rg_workers (inc_errors r) = rg_workers r" "rg_store (inc_errors r) = rg_store r" "rg_env (inc_errors r) = rg_env r"
  "rg_cfg (inc_errors r) = rg_cfg r" "rg_conns (inc_errors r) = rg_conns r" "rg_subs (inc_errors r) = rg_subs r"
  "GatewaysRunning (rg_metrics (inc_errors r)) = GatewaysRunning (rg_metrics r)"
  "rg_workers (inc_success r) = rg_workers r" "rg_store (inc_success r) = rg_store r" "rg_env (inc_success r) = rg_env r"
  "rg_cfg (inc_success r) = rg_cfg r" "rg_conns (inc_success r) = rg_conns r" "rg_subs (inc_success r) = rg_subs r"
  "GatewaysRunning (rg_metrics (inc_success r)) = GatewaysRunning (rg_metrics r)"
  "rg_workers (inc_running d r) = rg_workers r" "rg_store (inc_running d r) = rg_store r"
  "rg_env (inc_running d r) = rg_env r"
  "rg_cfg (inc_running d r) = rg_cfg r" "rg_conns (inc_running d r) = rg_conns r" "rg_subs (inc_running d r) = rg_subs r"
  "GatewaysRunning (rg_metrics (inc_running d r)) = GatewaysRunning (rg_metrics r) + d"
  "ProvisioningErrors (rg_metrics (inc_errors r)) = Suc (ProvisioningErrors (rg_metrics r))"
  "ProvisioningSuccess (rg_metrics (inc_errors r)) = ProvisioningSuccess (rg_metrics r)"
  "ProvisioningSuccess (rg_metrics (inc_success r)) = Suc (ProvisioningSuccess (rg_metrics r))"
  "ProvisioningErrors (rg_metrics (inc_success r)) = ProvisioningErrors (rg_metrics r)"
  "ProvisioningErrors (rg_metrics (inc_running d r)) = ProvisioningErrors (rg_metrics r)"
  "ProvisioningSuccess (rg_metrics (inc_running d r)) = ProvisioningSuccess (rg_metrics r)"
  by (simp_all add: inc_errors_def inc_success_def inc_running_def)

lemma onboard_lawful_tick [simp]: "onboard_lawful (env_tick e) = onboard_lawful e"
  by (simp add: onboard_lawful_def)

lemma onboard_lawful_oracles: "oracles e = oracles e' \<Longrightarrow> onboard_lawful e = onboard_lawful e'"
  by (drule oracles_eqD(6)) (simp add: onboard_lawful_def)

lemma registry_NowD:
  "registry_Now r = (t, r') \<Longrightarrow> r' = r\<lparr>rg_env := env_tick (rg_env r)\<rparr> \<and> t = env_clock (rg_env r) (env_pos (rg_env r))"
  by (auto simp: registry_Now_def clock_Now_eq)

lemma factory_New_frame: "factory_New n e = (g, e') \<Longrightarrow> oracles e' = oracles e"
  by (auto simp: factory_New_def NewSineWaveGenerator_def clock_Now_eq Let_def split: if_splits)

lemma new_generators_frame:
  "new_generators ns e = (gs, e') \<Longrightarrow> length gs = length ns \<and> oracles e' = oracles e"
proof (induction ns arbitrary: e gs e')
  case (Cons n ns)
  obtain g e1 where g: "factory_New n e = (g, e1)" by force
  obtain gs1 e2 where gs: "new_generators ns e1 = (gs1, e2)" by force
  from Cons.IH [OF gs] Cons.prems g gs factory_New_frame [OF g] show ?case by auto
qed simp

text \<open>Reading the environment and moving the store within its invariant.\<close>

lemma registry_ok_env:
  "registry_holds H G ok r \<Longrightarrow> oracles e = oracles (rg_env r) \<Longrightarrow> registry_holds H G ok (r\<lparr>rg_env := e\<rparr>)"
  using onboard_lawful_oracles [of e "rg_env r"] by (simp add: registry_holds_def)

text \<open>The tables agree on who each gateway is.\<close>

definition same_gateways :: "(int64 \<Rightarrow> SimGateway option) \<Rightarrow> (int64 \<Rightarrow> SimGateway option) \<Rightarrow> bool" where
  "same_gateways G G' \<longleftrightarrow>
     (\<forall>i. map_option (\<lambda>g. (gw_ManagementGatewayID g, gw_TenantID g)) (G i) =
          map_option (\<lambda>g. (gw_ManagementGatewayID g, gw_TenantID g)) (G' i))"

lemma same_gateways_refl: "same_gateways G G"
  by (simp add: same_gateways_def)

lemma same_gateways_trans: "same_gateways G H \<Longrightarrow> same_gateways H K \<Longrightarrow> same_gateways G K"
  by (simp add: same_gateways_def)

lemma same_gateways_update:
  "G i = Some g \<Longrightarrow> gw_ManagementGatewayID g' = gw_ManagementGatewayID g \<Longrightarrow> gw_TenantID g' = gw_TenantID g \<Longrightarrow>
   same_gateways G (G(i \<mapsto> g'))"
  by (simp add: same_gateways_def)

text \<open>Every row is still there, with the same identity.\<close>

definition rows_kept :: "(int64 \<Rightarrow> SimGateway option) \<Rightarrow> (int64 \<Rightarrow> SimGateway option) \<Rightarrow> bool" where
  "rows_kept G G' \<longleftrightarrow> (\<forall>i g. G i = Some g \<longrightarrow> (\<exists>g'. G' i = Some g' \<and>
     gw_ManagementGatewayID g' = gw_ManagementGatewayID g \<and> gw_TenantID g' = gw_TenantID g))"

lemma rows_kept_same: "same_gateways G G' \<Longrightarrow> rows_kept G G'"
  unfolding rows_kept_def
proof (intro allI impI)
  fix i g
  assume "same_gateways G G'" and "G i = Some g"
  then show "\<exists>g'. G' i = Some g' \<and> gw_ManagementGatewayID g' = gw_ManagementGatewayID g \<and> gw_TenantID g' = gw_TenantID g"
    unfolding same_gateways_def by (cases "G' i") (force dest!: spec [of _ i])+
qed

lemma rows_kept_new: "G i = None \<Longrightarrow> rows_kept G (G(i \<mapsto> g))"
  by (auto simp: rows_kept_def)

lemma rows_kept_refl: "rows_kept G G"
  by (simp add: rows_kept_def)

lemma has_row_kept: "rows_kept G G' \<Longrightarrow> has_row G gw \<Longrightarrow> has_row G' gw"
  unfolding rows_kept_def has_row_def by metis

lemmas has_row_same = has_row_kept [OF rows_kept_same]

lemma worker_registered_kept: "rows_kept G G' \<Longrightarrow> worker_registered G u w \<Longrightarrow> worker_registered G' u w"
  unfolding rows_kept_def worker_registered_def by metis

lemma rows_held_kept: "rows_kept G G' \<Longrightarrow> rows_held G ws gs \<Longrightarrow> rows_held G' ws gs"
  using has_row_kept by (auto simp: rows_held_def list_all_iff)

lemmas rows_held_same = rows_held_kept [OF rows_kept_same]

lemma rows_held_add:
  "rows_held G ws gs \<Longrightarrow> u \<notin> gw_ManagementGatewayID ` set gs \<Longrightarrow> rows_held G (map_put u w ws) gs"
  by (auto simp: rows_held_def)

lemma rows_held_put: "map_of ws u = Some v \<Longrightarrow> rows_held G ws gs \<Longrightarrow> rows_held G (map_put u w ws) gs"
  using map_of_SomeD [of ws u v] by (force simp: rows_held_def)

lemma rows_held_del: "rows_held G ws gs \<Longrightarrow> rows_held G (map_del u ws) gs"
  by (auto simp: rows_held_def fst_set_map_del)

lemma registry_ok_store:
  assumes "registry_holds H G ok r" and "ok (rg_store r')" and "same_gateways (G (rg_store r)) (G (rg_store r'))"
    and "rg_workers r' = rg_workers r" and "rg_cfg r' = rg_cfg r" and "rg_env r' = rg_env r"
    and "rg_conns r' = rg_conns r" and "rg_subs r' = rg_subs r"
    and "GatewaysRunning (rg_metrics r') = GatewaysRunning (rg_metrics r)"
  shows "registry_holds H G ok r'"
  using assms worker_registered_kept [OF rows_kept_same [OF assms(3)]] rows_held_same [OF assms(3)] by (simp add: registry_holds_def)

text \<open>Replacing a worker by itself after a step.\<close>

lemma registry_ok_put:
  assumes "registry_holds H G ok r" and "map_of (rg_workers r) u = Some v"
    and "worker_registered (G (rg_store r)) u v \<Longrightarrow> worker_registered (G (rg_store r)) u w"
    and "w_connClosed w = w_connClosed v" and "w_pumpRunning w = w_pumpRunning v"
  shows "registry_holds H G ok (r\<lparr>rg_workers := map_put u w (rg_workers r)\<rparr>)"
proof -
  have d: "distinct (map fst (rg_workers r))" using assms(1) by (simp add: registry_holds_def)
  from open_put_old [OF d assms(2), of w] assms
  show ?thesis by (auto simp: registry_holds_def distinct_map_put rows_held_put split: if_splits)
qed

lemma worker_registered_keeps:
  assumes "worker_registered G u w" and "keeps w w'"
  shows "worker_registered G u w'"
  using assms by (auto simp: worker_registered_def keeps_def worker_identity_def)

end
