(* ===== verification/Registry_Saga.thy ===== *)
theory Registry_Saga
  imports Registry_Facts
begin

text \<open>
  The provisioning saga over any relational store: what a success hands over, and that a
  failure at any stage leaves the workers, the connections and the gauge as they were, and the tables
  too unless the compensating deletion itself fails.
\<close>

lemma NewMessageBufferD:
  assumes "NewMessageBuffer n subject g = Return b" and "0 < sint n"
  shows "buffer_ok b" "mb_subject b = subject" "mb_gatewayID b = g" "mb_capacity b = nat (sint n)"
  using assms NewMessageBuffer_ok [OF assms(2,1)] by (auto simp: NewMessageBuffer_Return)

lemma connector_ConnectD:
  assumes "connector_Connect cert key tenant u r = (res, r')"
  shows "rg_workers r' = rg_workers r" "rg_store r' = rg_store r" "rg_cfg r' = rg_cfg r"
    "rg_metrics r' = rg_metrics r" "oracles (rg_env r') = oracles (rg_env r)"
    "rg_conns r' = rg_conns r + (if isl res then 0 else 1)" "rg_subs r' = rg_subs r + (if isl res then 0 else 1)"
    "res = Inr pub \<Longrightarrow> pub_js pub \<and> pub_log pub = []"
  using assms by (auto simp: connector_Connect_def Let_def split: sum.splits)

lemma worker_Start_fresh:
  assumes "worker_Start (NewGatewayWorker d) = Return w"
  shows "w_gateway w = wd_Gateway d" "w_sensors w = wd_Sensors d" "w_generators w = wd_Generators d"
    "w_buffer w = wd_Buffer d" "w_publisher w = wd_Publisher d" "w_isRunning w" "\<not> w_connClosed w"
    "\<not> w_publisherClosed w" "worker_ok w = worker_ok (NewGatewayWorker d)"
    "w_activeAnomaly w = None" "w_anomalyCommandBuffer w = []"
    "ch_buf (w_configCh w) = []"
  using assms
  by (auto simp: worker_Start_def NewGatewayWorker_def Let_def go_bind_eq_Return worker_ok_def split: if_splits)

text \<open>The new worker and what else \<^verbatim>\<open>startWorker\<close> does.\<close>

lemma startWorkerD:
  assumes "startWorker L ops gw sensors pub r = Return r'" and "config_ok (rg_cfg r)"
  obtains w where "rg_workers r' = map_put (gw_ManagementGatewayID gw) w (rg_workers r)"
    "w_gateway w = gw" "w_sensors w = sensors" "w_publisher w = pub" "worker_ok w" "w_isRunning w"
    "\<not> w_connClosed w" "\<not> w_publisherClosed w" "w_pumpRunning w"
    "mb_subject (w_buffer w) = telemetry_subject L gw"
    "mb_capacity (w_buffer w) = nat (sint (cf_GatewayBufferSize (rg_cfg r)))"
    "rg_store r' = snd (op_UpdateStatus ops (gw_ID gw) Online (rg_store r))"
    "rg_cfg r' = rg_cfg r" "oracles (rg_env r') = oracles (rg_env r)" "rg_conns r' = rg_conns r" "rg_subs r' = rg_subs r"
    "GatewaysRunning (rg_metrics r') = GatewaysRunning (rg_metrics r) + 1"
    "ProvisioningErrors (rg_metrics r') = ProvisioningErrors (rg_metrics r)"
    "ProvisioningSuccess (rg_metrics r') = ProvisioningSuccess (rg_metrics r)"
proof -
  obtain gens e where g: "new_generators sensors (rg_env r) = (gens, e)" by force
  from assms(2) have size: "0 < sint (cf_GatewayBufferSize (rg_cfg r))" by (simp add: config_ok_def)
  obtain b where made: "NewMessageBuffer (cf_GatewayBufferSize (rg_cfg r)) (telemetry_subject L gw)
      (uuid_String L (gw_ManagementGatewayID gw)) = Return b"
    using assms(1) by (auto simp: startWorker_def g go_bind_eq_Return)
  note b = made NewMessageBufferD [OF made size]
  define d where "d = \<lparr>wd_Gateway = gw, wd_Sensors = sensors, wd_Generators = gens, wd_Publisher = pub, wd_Buffer = b\<rparr>"
  from assms(1) obtain w where w: "worker_Start (NewGatewayWorker d) = Return w"
    by (cases "worker_Start (NewGatewayWorker d)") (auto simp: startWorker_def g b d_def)
  define w' where "w' = w\<lparr>w_pumpRunning := True\<rparr>"
  have r': "r' = snd (on_store (op_UpdateStatus ops (gw_ID gw) Online) (inc_running 1
      (r\<lparr>rg_env := e, rg_workers := map_put (gw_ManagementGatewayID gw) w' (rg_workers r)\<rparr>)))"
    using assms(1) w by (auto simp: startWorker_def g b d_def w'_def split: prod.splits)
  note f = worker_Start_fresh [OF w] and gf = new_generators_frame [OF g]
  have "worker_ok (NewGatewayWorker d)" using gf b by (intro NewGatewayWorker_ok) (simp_all add: d_def)
  then have "worker_ok w'" using f(9) by (simp add: w'_def worker_ok_def)
  then show thesis
    using f gf b by (intro that [of w']) (simp_all add: r' on_store_def w'_def d_def Let_def case_prod_unfold)
qed

text \<open>
  The tables after a failure with the error \<open>err\<close>: as before, or the compensating deletion of the row
  that was just created was tried and failed itself, and just this row is left. The deletion is the store
  operation right after the creation, or after the listing of the sensors when that is what failed.
\<close>

fun listing_failed :: "go_error \<Rightarrow> bool" where
  "listing_failed (Wrap t err z) \<longleftrightarrow> t = ''list sensors: ''"
| "listing_failed err \<longleftrightarrow> False"

definition store_rolled_back ::
  "'s store_ops \<Rightarrow> ('s \<Rightarrow> int64 \<Rightarrow> SimGateway option) \<Rightarrow> ('s \<Rightarrow> int64 \<Rightarrow> SimSensor option) \<Rightarrow> ('s \<Rightarrow> bool)
     \<Rightarrow> go_error \<Rightarrow> 's \<Rightarrow> 's \<Rightarrow> bool" where
  "store_rolled_back ops gws sns ok err s s' \<longleftrightarrow> ok s' \<and> sns s' = sns s \<and>
     (gws s' = gws s \<or>
      (\<exists>g i s1 e. op_CreateGateway ops g s = (Inr i, s1) \<and> gws s i = None \<and> gws s' = (gws s)(i \<mapsto> g\<lparr>gw_ID := i\<rparr>) \<and>
         op_DeleteGateway ops i (if listing_failed err then snd (op_ListSensors ops i s1) else s1) = (Inl e, s')))"

text \<open>Nothing but the metrics and the environment's position has changed in the registry.\<close>

definition left_no_trace ::
  "'s store_ops \<Rightarrow> ('s \<Rightarrow> int64 \<Rightarrow> SimGateway option) \<Rightarrow> ('s \<Rightarrow> int64 \<Rightarrow> SimSensor option) \<Rightarrow> ('s \<Rightarrow> bool)
     \<Rightarrow> go_error \<Rightarrow> 's GatewayRegistry \<Rightarrow> 's GatewayRegistry \<Rightarrow> bool" where
  "left_no_trace ops gws sns ok err r r' \<longleftrightarrow>
     rg_workers r' = rg_workers r \<and> rg_conns r' = rg_conns r \<and> rg_subs r' = rg_subs r \<and>
     rg_cfg r' = rg_cfg r \<and> oracles (rg_env r') = oracles (rg_env r) \<and>
     GatewaysRunning (rg_metrics r') = GatewaysRunning (rg_metrics r) \<and>
     ProvisioningErrors (rg_metrics r') = Suc (ProvisioningErrors (rg_metrics r)) \<and>
     ProvisioningSuccess (rg_metrics r') = ProvisioningSuccess (rg_metrics r) \<and>
     store_rolled_back ops gws sns ok err (rg_store r) (rg_store r')"

text \<open>What a successful creation hands over.\<close>

definition gateway_handed_over ::
  "'x libs_scheme \<Rightarrow> ('s \<Rightarrow> int64 \<Rightarrow> SimGateway option) \<Rightarrow> SimGateway \<Rightarrow> 's GatewayRegistry \<Rightarrow> 's GatewayRegistry
     \<Rightarrow> bool" where
  "gateway_handed_over L gws gw r r' \<longleftrightarrow>
     map_of (rg_workers r) (gw_ManagementGatewayID gw) = None \<and>
     (\<exists>w. rg_workers r' = map_put (gw_ManagementGatewayID gw) w (rg_workers r) \<and>
        worker_ok w \<and> w_isRunning w \<and> w_pumpRunning w \<and> \<not> w_connClosed w \<and> pub_js (w_publisher w) \<and>
        gw_ID (w_gateway w) = gw_ID gw \<and> mb_subject (w_buffer w) = telemetry_subject L gw) \<and>
     gw_Provisioned gw \<and> gw_Status gw = Online \<and>
     (\<exists>st. gws (rg_store r') = (gws (rg_store r))(gw_ID gw \<mapsto> gw\<lparr>gw_Status := st\<rparr>)) \<and>
     gws (rg_store r) (gw_ID gw) = None \<and>
     rg_conns r' = Suc (rg_conns r) \<and> rg_subs r' = Suc (rg_subs r) \<and>
     GatewaysRunning (rg_metrics r') = GatewaysRunning (rg_metrics r) + 1 \<and>
     ProvisioningSuccess (rg_metrics r') = Suc (ProvisioningSuccess (rg_metrics r)) \<and>
     ProvisioningErrors (rg_metrics r') = ProvisioningErrors (rg_metrics r)"

context relational_store
begin

abbreviation rolled_back :: "go_error \<Rightarrow> 'a \<Rightarrow> 'a \<Rightarrow> bool" where
  "rolled_back \<equiv> store_rolled_back ops gws sns ok"

abbreviation no_trace :: "go_error \<Rightarrow> 'a GatewayRegistry \<Rightarrow> 'a GatewayRegistry \<Rightarrow> bool" where
  "no_trace \<equiv> left_no_trace ops gws sns ok"

abbreviation handed_over :: "'x libs_scheme \<Rightarrow> SimGateway \<Rightarrow> 'a GatewayRegistry \<Rightarrow> 'a GatewayRegistry \<Rightarrow> bool" where
  "handed_over L \<equiv> gateway_handed_over L gws"

lemma UpdateStatus_frame:
  assumes "ok s" and "op_UpdateStatus ops i st s = (x, s')"
  shows "ok s'" and "same_gateways (gws s) (gws s')" and "sns s' = sns s"
    and "gws s' = gws s \<or> (\<exists>g. gws s i = Some g \<and> gws s' = (gws s)(i \<mapsto> g\<lparr>gw_Status := st\<rparr>))"
proof -
  note u = UpdateStatus [OF assms]
  from u show "ok s'" "sns s' = sns s" by simp_all
  show d: "gws s' = gws s \<or> (\<exists>g. gws s i = Some g \<and> gws s' = (gws s)(i \<mapsto> g\<lparr>gw_Status := st\<rparr>))"
    using u by (cases x) auto
  then show "same_gateways (gws s) (gws s')"
    by (elim disjE exE conjE) (simp_all add: same_gateways_refl same_gateways_update)
qed

lemma compensate_store:
  assumes "ok s" and "key_ok (gw_EncryptionKey g)" and "op_CreateGateway ops g s = (Inr i, s1)"
    and "ok (rg_store r)" and "gws (rg_store r) = gws s1" and "sns (rg_store r) = sns s1"
    and "stage = stageStore \<or> stage = stageConnect"
    and "r' = compensate ops (g\<lparr>gw_ID := i\<rparr>) stage conn r"
    and "rg_store r = (if listing_failed err then snd (op_ListSensors ops i s1) else s1)"
  shows "rolled_back err s (rg_store r')"
proof -
  obtain x s2 where d: "op_DeleteGateway ops i (rg_store r) = (x, s2)" by force
  have s2: "rg_store r' = s2"
    using assms(7,8) d by (auto simp: compensate_def on_store_def)
  note c = CreateGateway [OF assms(1-3)]
  show ?thesis
  proof (cases x)
    case (Inl e)
    with d assms(9) have "op_DeleteGateway ops i (if listing_failed err then snd (op_ListSensors ops i s1) else s1) = (Inl e, s2)"
      by simp
    moreover have "ok s2" "sns s2 = sns s" "gws s2 = (gws s)(i \<mapsto> g\<lparr>gw_ID := i\<rparr>)" "gws s i = None"
      using DeleteGateway [OF assms(4) d] c assms(5,6) Inl by simp_all
    ultimately show ?thesis using assms(3) unfolding store_rolled_back_def s2 by blast
  next
    case (Inr v)
    then show ?thesis
      using create_delete_all [OF assms(1-6), of v s2] d by (simp add: store_rolled_back_def s2)
  qed
qed

lemma compensate_frame:
  "rg_workers (compensate ops g stage conn r) = rg_workers r" "rg_cfg (compensate ops g stage conn r) = rg_cfg r"
  "rg_env (compensate ops g stage conn r) = rg_env r" "rg_metrics (compensate ops g stage conn r) = rg_metrics r"
  "rg_conns (compensate ops g stage conn r) = rg_conns r - (if stage = stageConnect \<and> conn then 1 else 0)"
  "rg_subs (compensate ops g stage conn r) = rg_subs r - (if stage = stageConnect \<and> conn then 1 else 0)"
  by (simp_all add: compensate_def on_store_def Let_def split: provisioningStage.split prod.split)

text \<open>Stages 3 and 4, when the row has just been created in the store.\<close>

lemma saga_connect_failure:
  assumes "ok s" and "key_ok (gw_EncryptionKey g)" and "op_CreateGateway ops g s = (Inr i, rg_store r)"
    and "saga_connect L ops (g\<lparr>gw_ID := i\<rparr>) r = Return (Inl err, r')"
  shows "rolled_back err s (rg_store r')" and "rg_workers r' = rg_workers r" and "rg_conns r' = rg_conns r"
    and "rg_subs r' = rg_subs r" and "rg_cfg r' = rg_cfg r" and "oracles (rg_env r') = oracles (rg_env r)"
    and "GatewaysRunning (rg_metrics r') = GatewaysRunning (rg_metrics r)"
    and "ProvisioningErrors (rg_metrics r') = Suc (ProvisioningErrors (rg_metrics r))"
    and "ProvisioningSuccess (rg_metrics r') = ProvisioningSuccess (rg_metrics r)"
proof -
  let ?g = "g\<lparr>gw_ID := i\<rparr>"
  note c = CreateGateway [OF assms(1-3)]
  obtain x r1 where con: "connector_Connect (gw_CertPEM ?g) (gw_PrivateKeyPEM ?g) (gw_TenantID ?g)
      (gw_ManagementGatewayID ?g) r = (x, r1)" by force
  note cf = connector_ConnectD [OF con]
  have "rolled_back err s (rg_store r') \<and> rg_workers r' = rg_workers r \<and> rg_conns r' = rg_conns r \<and>
    rg_subs r' = rg_subs r \<and> rg_cfg r' = rg_cfg r \<and> oracles (rg_env r') = oracles (rg_env r) \<and>
    GatewaysRunning (rg_metrics r') = GatewaysRunning (rg_metrics r) \<and>
    ProvisioningErrors (rg_metrics r') = Suc (ProvisioningErrors (rg_metrics r)) \<and>
    ProvisioningSuccess (rg_metrics r') = ProvisioningSuccess (rg_metrics r)"
  proof (cases x)
    case (Inl e)
    then have r': "r' = inc_errors (compensate ops ?g stageStore False r1)"
      and err: "\<not> listing_failed err" using assms(4) con by (auto simp: saga_connect_def)
    have "rolled_back err s (rg_store (compensate ops ?g stageStore False r1))"
      using c cf(2) err by (intro compensate_store [OF assms(1-3) _ _ _ _ refl]) simp_all
    then show ?thesis using cf Inl by (simp add: r' compensate_frame)
  next
    case (Inr pub)
    obtain y r2 where ls: "on_store (op_ListSensors ops i) r1 = (y, r2)" by force
    note lf = on_storeD [OF ls]
    show ?thesis
    proof (cases y)
      case (Inl e)
      then have r': "r' = inc_errors (compensate ops ?g stageConnect True r2)"
        and err: "listing_failed err" using assms(4) con ls Inr by (auto simp: saga_connect_def)
      have l: "ok (rg_store r2)" "gws (rg_store r2) = gws (rg_store r)" "sns (rg_store r2) = sns (rg_store r)"
        using ListSensors [OF _ lf(1)] c cf(2) by simp_all
      moreover have "rg_store r2 = snd (op_ListSensors ops i (rg_store r))" using lf(1) cf(2) by simp
      ultimately have "rolled_back err s (rg_store (compensate ops ?g stageConnect True r2))"
        using err c by (intro compensate_store [OF assms(1-3) _ _ _ _ refl]) simp_all
      then show ?thesis using cf lf Inr by (simp add: r' compensate_frame)
    next
      case (Inr sensors)
      then show ?thesis
        using assms(4) con ls \<open>x = Inr pub\<close> by (auto simp: saga_connect_def go_bind_eq_Return)
    qed
  qed
  then show "rolled_back err s (rg_store r')" and "rg_workers r' = rg_workers r" and "rg_conns r' = rg_conns r"
    and "rg_subs r' = rg_subs r" and "rg_cfg r' = rg_cfg r" and "oracles (rg_env r') = oracles (rg_env r)"
    and "GatewaysRunning (rg_metrics r') = GatewaysRunning (rg_metrics r)"
    and "ProvisioningErrors (rg_metrics r') = Suc (ProvisioningErrors (rg_metrics r))"
    and "ProvisioningSuccess (rg_metrics r') = ProvisioningSuccess (rg_metrics r)" by blast+
qed

subsection \<open>The whole saga\<close>

lemma saga_failure:
  assumes "ok (rg_store r)" and "onboard_lawful (rg_env r)"
    and "runProvisioningSaga L ops gw r = Return (Inl err, r')"
  shows "no_trace err r r'"
proof -
  obtain x r1 where o: "provisioner_Onboard (gw_FactoryID gw) (gw_FactoryKey gw) (gw_SendFrequencyMs gw)
      (gw_FirmwareVersion gw) r = (x, r1)" by force
  then have r1: "r1 = r\<lparr>rg_env := env_tick (rg_env r)\<rparr>"
    and x: "x = env_onboard (rg_env r) (env_pos (rg_env r)) (gw_FactoryID gw) (gw_FactoryKey gw)
      (gw_SendFrequencyMs gw) (gw_FirmwareVersion gw)"
    by (auto simp: provisioner_Onboard_def Let_def)
  have same: "rolled_back err (rg_store r) (rg_store r1)" using assms(1) by (simp add: r1 store_rolled_back_def)
  show ?thesis
  proof (cases x)
    case (Inl e)
    then show ?thesis using assms(3) o same by (auto simp: runProvisioningSaga_def left_no_trace_def r1)
  next
    case (Inr res)
    show ?thesis
    proof (cases "uuid_Parse L (pr_GatewayID res)")
      case None
      then show ?thesis using assms(3) o Inr same by (auto simp: runProvisioningSaga_def left_no_trace_def r1)
    next
      case (Some u)
      define g where "g = provisioned_gateway u res gw"
      have "env_onboard (rg_env r) (env_pos (rg_env r)) (gw_FactoryID gw) (gw_FactoryKey gw)
          (gw_SendFrequencyMs gw) (gw_FirmwareVersion gw) = Inr res" using Inr x by simp
      then have key: "key_ok (gw_EncryptionKey g)"
        using assms(2) unfolding onboard_lawful_def g_def provisioned_gateway_def by simp
      obtain y r2 where c: "on_store (op_CreateGateway ops g) r1 = (y, r2)" by force
      note cf = on_storeD [OF c]
      show ?thesis
      proof (cases y)
        case (Inl e)
        have "op_CreateGateway ops g (rg_store r) = (Inl e, rg_store r2)" using cf(1) Inl by (simp add: r1)
        from create_failed [OF assms(1) key this] have "rolled_back err (rg_store r) (rg_store r2)"
          by (simp add: store_rolled_back_def)
        moreover have "r' = inc_errors r2"
          using assms(3) o Some \<open>x = Inr res\<close> c Inl by (simp add: runProvisioningSaga_def Let_def g_def)
        ultimately show ?thesis using cf by (simp add: left_no_trace_def r1)
      next
        case (Inr i)
        have c': "op_CreateGateway ops g (rg_store r) = (Inr i, rg_store r2)" using cf(1) Inr by (simp add: r1)
        have s: "saga_connect L ops (g\<lparr>gw_ID := i\<rparr>) r2 = Return (Inl err, r')"
          using assms(3) o Some \<open>x = Inr res\<close> c Inr by (simp add: runProvisioningSaga_def Let_def g_def)
        from saga_connect_failure [OF assms(1) key c' s] cf show ?thesis by (simp add: left_no_trace_def r1)
      qed
    qed
  qed
qed

lemma CreateAndStart_failure:
  assumes "registry_holds H gws ok r" and "CreateAndStart L ops req r = Return (Inl err, r')"
  shows "no_trace err r r'"
proof -
  obtain now r1 where n: "registry_Now r = (now, r1)" by force
  note r1 = registry_NowD [OF n]
  from assms(2) n obtain gw where "runProvisioningSaga L ops gw r1 = Return (Inl err, r')"
    by (auto simp: CreateAndStart_def Let_def)
  from saga_failure [OF _ _ this] have "no_trace err r1 r'" using assms(1) r1 by (simp add: registry_holds_def)
  then show ?thesis using r1 by (simp add: left_no_trace_def)
qed

lemma no_trace_kept: "no_trace err r r' \<Longrightarrow> rows_kept (gws (rg_store r)) (gws (rg_store r'))"
  by (auto simp: left_no_trace_def store_rolled_back_def rows_kept_refl rows_kept_new)

lemma no_trace_ok:
  assumes "registry_holds H gws ok r" and "no_trace err r r'"
  shows "registry_holds H gws ok r'"
  using assms onboard_lawful_oracles [of "rg_env r'" "rg_env r"] worker_registered_kept [OF no_trace_kept [OF assms(2)]]
    rows_held_kept [OF no_trace_kept [OF assms(2)]]
  by (simp add: registry_holds_def left_no_trace_def store_rolled_back_def)

text \<open>
  A new management id has no row yet, so no worker either, and no call that is under way holds a row with
  that id.
\<close>

lemma no_row_yet:
  assumes "ok s" and "key_ok (gw_EncryptionKey g)" and "op_CreateGateway ops g s = (Inr i, s')"
    and "gws s j = Some h"
  shows "gw_ManagementGatewayID h \<noteq> gw_ManagementGatewayID g"
  using create_taken [OF assms(1,2) ranI [of "gws s" j h]] assms(3,4) by auto

lemma no_worker_yet:
  assumes "registry_holds H gws ok r" and "ok s" and "gws s = gws (rg_store r)" and "key_ok (gw_EncryptionKey g)"
    and "op_CreateGateway ops g s = (Inr i, s')"
  shows "map_of (rg_workers r) (gw_ManagementGatewayID g) = None"
    and "gw_ManagementGatewayID g \<notin> gw_ManagementGatewayID ` set (held_rows H)"
proof -
  note none = no_row_yet [OF assms(2,4,5), unfolded assms(3)]
  show "map_of (rg_workers r) (gw_ManagementGatewayID g) = None"
  proof (cases "map_of (rg_workers r) (gw_ManagementGatewayID g)")
    case (Some w)
    with assms(1) have "worker_registered (gws (rg_store r)) (gw_ManagementGatewayID g) w"
      by (simp add: registry_holds_def)
    with none show ?thesis by (auto simp: worker_registered_def)
  qed simp
  from assms(1) have "list_all (has_row (gws (rg_store r))) (held_rows H)"
    by (simp add: registry_holds_def rows_held_def)
  with none show "gw_ManagementGatewayID g \<notin> gw_ManagementGatewayID ` set (held_rows H)"
    by (fastforce simp: list_all_iff has_row_def)
qed

text \<open>Adding a worker for a row of the store.\<close>

lemma registry_ok_add:
  assumes "registry_holds H gws ok r" and "map_of (rg_workers r) u = None" and "worker_registered (gws (rg_store r')) u w"
    and "rows_kept (gws (rg_store r)) (gws (rg_store r'))" and "u \<notin> gw_ManagementGatewayID ` set (held_rows H)"
    and "ok (rg_store r')" and "rg_workers r' = map_put u w (rg_workers r)" and "rg_cfg r' = rg_cfg r"
    and "oracles (rg_env r') = oracles (rg_env r)" and "\<not> w_connClosed w" and "w_pumpRunning w"
    and "rg_conns r' = Suc (rg_conns r)" and "rg_subs r' = Suc (rg_subs r)"
    and "GatewaysRunning (rg_metrics r') = GatewaysRunning (rg_metrics r) + 1"
  shows "registry_holds H gws ok r'"
proof -
  have new: "u \<notin> fst ` set (rg_workers r)" using assms(2) by (simp add: map_of_eq_None_iff)
  have "rows_held (gws (rg_store r')) (rg_workers r') (held_rows H)"
    using assms(1,5,7) rows_held_kept [OF assms(4)] rows_held_add by (simp add: registry_holds_def)
  then show ?thesis
    using assms open_put_new [OF new] onboard_lawful_oracles [OF assms(9)] distinct_map_put
      worker_registered_kept [OF assms(4)]
    by (auto simp: registry_holds_def)
qed

lemma saga_connect_success:
  assumes "registry_holds H gws ok r0" and "ok s" and "gws s = gws (rg_store r0)" and "sns s = sns (rg_store r0)"
    and "key_ok (gw_EncryptionKey g)" and "op_CreateGateway ops g s = (Inr i, rg_store r)"
    and "rg_workers r = rg_workers r0" and "rg_conns r = rg_conns r0" and "rg_subs r = rg_subs r0"
    and "rg_cfg r = rg_cfg r0" and "oracles (rg_env r) = oracles (rg_env r0)" and "rg_metrics r = rg_metrics r0"
    and "gw_Provisioned g"
    and "saga_connect L ops (g\<lparr>gw_ID := i\<rparr>) r = Return (Inr gw, r')"
  shows "registry_holds H gws ok r' \<and> handed_over L gw r0 r' \<and> gw = g\<lparr>gw_ID := i, gw_Status := Online\<rparr>"
proof -
  let ?g = "g\<lparr>gw_ID := i\<rparr>" and ?u = "gw_ManagementGatewayID g"
  note c = CreateGateway [OF assms(2,5,6)]
  note new = no_worker_yet [OF assms(1,2,3,5,6)]
  obtain x r1 where con: "connector_Connect (gw_CertPEM ?g) (gw_PrivateKeyPEM ?g) (gw_TenantID ?g)
      (gw_ManagementGatewayID ?g) r = (x, r1)" by force
  note cf = connector_ConnectD [OF con]
  from assms(14) con obtain pub where x: "x = Inr pub" by (cases x) (auto simp: saga_connect_def)
  obtain y r2 where ls: "on_store (op_ListSensors ops i) r1 = (y, r2)" by force
  note lf = on_storeD [OF ls]
  from assms(14) con ls x obtain sensors where y: "y = Inr sensors" by (cases y) (auto simp: saga_connect_def)
  from assms(14) con ls x y obtain r3 where st: "startWorker L ops ?g sensors pub r2 = Return r3"
    and gw: "gw = ?g\<lparr>gw_Status := Online\<rparr>" and r': "r' = inc_success r3"
    by (auto simp: saga_connect_def go_bind_eq_Return)
  have cfg: "config_ok (rg_cfg r2)" using assms(1,10) cf(3) lf(5) by (simp add: registry_holds_def)
  from startWorkerD [OF st cfg] obtain w where w: "rg_workers r3 = map_put (gw_ManagementGatewayID ?g) w (rg_workers r2)"
    "w_gateway w = ?g" "w_publisher w = pub" "worker_ok w" "w_isRunning w" "\<not> w_connClosed w"
    "\<not> w_publisherClosed w" "w_pumpRunning w" "mb_subject (w_buffer w) = telemetry_subject L ?g"
    and r3: "rg_store r3 = snd (op_UpdateStatus ops (gw_ID ?g) Online (rg_store r2))" "rg_cfg r3 = rg_cfg r2"
    "oracles (rg_env r3) = oracles (rg_env r2)" "rg_conns r3 = rg_conns r2" "rg_subs r3 = rg_subs r2"
    "GatewaysRunning (rg_metrics r3) = GatewaysRunning (rg_metrics r2) + 1"
    "ProvisioningErrors (rg_metrics r3) = ProvisioningErrors (rg_metrics r2)"
    "ProvisioningSuccess (rg_metrics r3) = ProvisioningSuccess (rg_metrics r2)"
    by metis
  have okr: "ok (rg_store r1)" using c cf(2) by simp
  have l: "ok (rg_store r2)" "gws (rg_store r2) = gws (rg_store r)" "sns (rg_store r2) = sns (rg_store r)"
    using ListSensors [OF okr lf(1)] cf(2) by simp_all
  obtain z s4 where u: "op_UpdateStatus ops i Online (rg_store r2) = (z, s4)" by force
  note uf = UpdateStatus_frame [OF l(1) u]
  have s4: "rg_store r3 = s4" using r3(1) u by simp
  have G: "gws (rg_store r) = (gws (rg_store r0))(i \<mapsto> ?g)" and fresh: "gws (rg_store r0) i = None"
    using c assms(3) by simp_all
  obtain st where st4: "gws s4 = (gws (rg_store r0))(i \<mapsto> gw\<lparr>gw_Status := st\<rparr>)"
  proof (cases "gws s4 = gws (rg_store r2)")
    case True
    then have "gws s4 = (gws (rg_store r0))(i \<mapsto> gw\<lparr>gw_Status := gw_Status ?g\<rparr>)"
      using l G gw by simp
    then show thesis by (rule that)
  next
    case False
    with uf(4) obtain h where "gws (rg_store r2) i = Some h" "gws s4 = (gws (rg_store r2))(i \<mapsto> h\<lparr>gw_Status := Online\<rparr>)"
      by auto
    then have "gws s4 = (gws (rg_store r0))(i \<mapsto> gw\<lparr>gw_Status := Online\<rparr>)"
      using l(2) G gw by (auto simp: fun_eq_iff)
    then show thesis by (rule that)
  qed
  have reg: "worker_registered (gws s4) ?u w"
    using w by (simp add: worker_registered_def st4 gw)
  have keep: "rows_kept (gws (rg_store r0)) (gws s4)"
    using fresh by (simp add: st4 rows_kept_new)
  have "registry_holds H gws ok r'"
    by (rule registry_ok_add [OF assms(1) new(1), where w = w])
       (use reg keep new(2) w r3 cf lf x assms(7-12) uf(1) in \<open>simp_all add: r' s4\<close>)
  moreover have "pub_js pub" using cf(8) x by simp
  moreover have "handed_over L gw r0 r'"
    using new(1) w r3 cf lf x assms(7-13) fresh st4 gw \<open>pub_js pub\<close>
    by (auto simp: gateway_handed_over_def r' s4 telemetry_subject_def)
  ultimately show ?thesis by (simp add: gw)
qed

lemma CreateAndStart_success:
  assumes "registry_holds H gws ok r" and "CreateAndStart L ops req r = Return (Inr gw, r')"
  shows "registry_holds H gws ok r'" and "handed_over L gw r r'"
    and "gw_FactoryID gw = cr_FactoryID req \<and> gw_FirmwareVersion gw = cr_FirmwareVersion req \<and>
      gw_Model gw = cr_Model req \<and> gw_SendFrequencyMs gw =
        (if sint (cr_SendFrequencyMs req) \<le> 0 then cf_DefaultSendFrequencyMs (rg_cfg r) else cr_SendFrequencyMs req)"
proof -
  obtain now r1 where n: "registry_Now r = (now, r1)" by force
  note r1 = registry_NowD [OF n]
  define g0 where "g0 = requested_gateway (rg_cfg r) req now"
  have saga: "runProvisioningSaga L ops g0 r1 = Return (Inr gw, r')"
    using assms(2) n r1 by (simp add: CreateAndStart_def g0_def)
  obtain x r2 where o: "provisioner_Onboard (gw_FactoryID g0) (gw_FactoryKey g0) (gw_SendFrequencyMs g0)
      (gw_FirmwareVersion g0) r1 = (x, r2)" by force
  then have r2: "r2 = r1\<lparr>rg_env := env_tick (rg_env r1)\<rparr>"
    and x: "x = env_onboard (rg_env r1) (env_pos (rg_env r1)) (gw_FactoryID g0) (gw_FactoryKey g0)
      (gw_SendFrequencyMs g0) (gw_FirmwareVersion g0)"
    by (auto simp: provisioner_Onboard_def Let_def)
  from saga o obtain res where res: "x = Inr res" by (cases x) (auto simp: runProvisioningSaga_def)
  from saga o res obtain u where u: "uuid_Parse L (pr_GatewayID res) = Some u"
    by (cases "uuid_Parse L (pr_GatewayID res)") (auto simp: runProvisioningSaga_def)
  define g where "g = provisioned_gateway u res g0"
  have env1: "onboard_lawful (rg_env r1)" using assms(1) r1 by (simp add: registry_holds_def)
  have "env_onboard (rg_env r1) (env_pos (rg_env r1)) (gw_FactoryID g0) (gw_FactoryKey g0)
          (gw_SendFrequencyMs g0) (gw_FirmwareVersion g0) = Inr res" using res x by simp
  then have key: "key_ok (gw_EncryptionKey g)" using env1 unfolding onboard_lawful_def g_def provisioned_gateway_def by simp
  obtain y r3 where c: "on_store (op_CreateGateway ops g) r2 = (y, r3)" by force
  note cf = on_storeD [OF c]
  from saga o res u c obtain i where y: "y = Inr i"
    by (cases y) (auto simp: runProvisioningSaga_def Let_def g_def)
  have s: "saga_connect L ops (g\<lparr>gw_ID := i\<rparr>) r3 = Return (Inr gw, r')"
    using saga o res u c y by (simp add: runProvisioningSaga_def Let_def g_def)
  have cr: "op_CreateGateway ops g (rg_store r) = (Inr i, rg_store r3)" using cf(1) y r1 by (simp add: r2)
  have okr: "ok (rg_store r)" using assms(1) by (simp add: registry_holds_def)
  have "gw_Provisioned g" by (simp add: g_def provisioned_gateway_def)
  then have fin: "registry_holds H gws ok r' \<and> handed_over L gw r r' \<and> gw = g\<lparr>gw_ID := i, gw_Status := Online\<rparr>"
    by (intro saga_connect_success [OF assms(1) okr refl refl key cr]) (use s cf r1 in \<open>simp_all add: r2\<close>)
  then show "registry_holds H gws ok r'" and "handed_over L gw r r'" by blast+
  show "gw_FactoryID gw = cr_FactoryID req \<and> gw_FirmwareVersion gw = cr_FirmwareVersion req \<and>
      gw_Model gw = cr_Model req \<and> gw_SendFrequencyMs gw =
        (if sint (cr_SendFrequencyMs req) \<le> 0 then cf_DefaultSendFrequencyMs (rg_cfg r) else cr_SendFrequencyMs req)"
    using fin by (simp add: g_def g0_def provisioned_gateway_def requested_gateway_def)
qed

end

end
