(* ===== verification/Nats_Subscriber.thy ===== *)
theory Nats_Subscriber
  imports Worker
begin

text \<open>
  \<^verbatim>\<open>internal/adapters/nats/subscriber.go\<close> and the command pump of \<^verbatim>\<open>startWorker\<close> in
  \<^verbatim>\<open>internal/app/registry.go\<close>: the way of a command from the broker to the channel of the worker. The
  publisher is the one the worker uses, a shared pointer, so that it is threaded through. The answer of
  the handler to the broker is a \<open>disposition\<close>; that the broker may not receive it is only logged.
\<close>

record NATSGatewaySubscriber =
  sb_ch :: "IncomingCommand chan"
  sb_closed :: bool
  sb_ackSubject :: string

text \<open>\<^verbatim>\<open>subscribe subject durable\<close> is the answer of \<^verbatim>\<open>js.Subscribe\<close>.\<close>

definition NewNATSGatewaySubscriber ::
  "(string \<Rightarrow> string \<Rightarrow> unit result) \<Rightarrow> string \<Rightarrow> string \<Rightarrow> NATSGatewaySubscriber result" where
  "NewNATSGatewaySubscriber subscribe tenantID managementGatewayID =
     (case subscribe (''command.gw.'' @ tenantID @ ''.'' @ managementGatewayID) (''gw-'' @ managementGatewayID) of
        Inl err \<Rightarrow> Inl err
      | Inr _ \<Rightarrow> Inr \<lparr>sb_ch = make_chan 8, sb_closed = False,
          sb_ackSubject = ''command.ack.'' @ tenantID @ ''.'' @ managementGatewayID\<rparr>)"

definition subscriber_Close :: "NATSGatewaySubscriber \<Rightarrow> NATSGatewaySubscriber go" where
  "subscriber_Close s = (if sb_closed s then Panic ''close of closed channel'' else Return (s\<lparr>sb_closed := True\<rparr>))"

datatype disposition = Term | Ack | Nak

definition command_expired :: "time \<Rightarrow> IncomingCommand \<Rightarrow> bool" where
  "command_expired now cmd \<longleftrightarrow> sint (60 * Second) < sint (time_Sub now (ic_IssuedAt cmd))"

definition expired_ack :: "IncomingCommand \<Rightarrow> time \<Rightarrow> CommandACK" where
  "expired_ack cmd t =
     \<lparr>ack_CommandID = ic_CommandID cmd, ack_Status = Expired, ack_Message = None, ack_Timestamp = t\<rparr>"

text \<open>
  A send on a closed channel panics, in a \<^verbatim>\<open>select\<close> with a \<^verbatim>\<open>default\<close> too.
\<close>

definition handleMsg ::
  "'x libs_scheme \<Rightarrow> bytes \<Rightarrow> NATSGatewaySubscriber \<times> NATSGatewayPublisher \<times> env
     \<Rightarrow> (disposition \<times> NATSGatewaySubscriber \<times> NATSGatewayPublisher \<times> env) go" where
  "handleMsg L data spe =
     (let (s, p, e) = spe
      in case unmarshal_IncomingCommand L (json_parse L data) of
           Inl _ \<Rightarrow> Return (Term, s, p, e)
         | Inr cmd \<Rightarrow>
             let (now, e) = clock_Now e
             in if command_expired now cmd then
                  let (t, e) = clock_Now e
                  in case marshal_CommandACK L (expired_ack cmd t) of
                       Inl _ \<Rightarrow> Return (Ack, s, p, e)
                     | Inr ackBytes \<Rightarrow>
                         go_bind (publisher_Publish (sb_ackSubject s) ackBytes p e)
                           (\<lambda>(_, p, e). Return (Ack, s, p, e))
                else if sb_closed s then Panic ''send on closed channel''
                else (case try_send cmd (sb_ch s) of
                        Some c \<Rightarrow> Return (Ack, s\<lparr>sb_ch := c\<rparr>, p, e)
                      | None \<Rightarrow> Return (Nak, s, p, e)))"

text \<open>
  The pump: one receive from \<^verbatim>\<open>Messages()\<close>, and the worker's channel afterwards with whether the
  command went into it. None when there is nothing to receive.
\<close>

definition pump_command ::
  "IncomingCommand chan \<Rightarrow> IncomingCommand chan
     \<Rightarrow> (IncomingCommand \<times> bool \<times> IncomingCommand chan \<times> IncomingCommand chan) option" where
  "pump_command messages commandCh =
     (case try_recv messages of
        None \<Rightarrow> None
      | Some (cmd, messages) \<Rightarrow>
          (case try_send cmd commandCh of
             Some c \<Rightarrow> Some (cmd, True, messages, c)
           | None \<Rightarrow> Some (cmd, False, messages, commandCh)))"

subsection \<open>What the handler does with a message\<close>

text \<open>The saturation of \<^verbatim>\<open>Sub\<close> does not matter for the limit of a minute.\<close>

lemma command_expired_iff: "command_expired now cmd \<longleftrightarrow> 60000000000 < now - ic_IssuedAt cmd"
proof -
  have "sint (60 * Second) = 60000000000" using sint_times_Second [of 60] by simp
  then show ?thesis by (auto simp: command_expired_def sint_time_Sub)
qed

text \<open>A command without \<^verbatim>\<open>issued_at\<close> carries the zero time, so that it counts as expired.\<close>

lemma unissued_expired: "60000000000 < now \<Longrightarrow> ic_IssuedAt cmd = 0 \<Longrightarrow> command_expired now cmd"
  by (simp add: command_expired_iff)

lemma handleMsg_undecodable:
  "unmarshal_IncomingCommand L (json_parse L data) = Inl err \<Longrightarrow> handleMsg L data (s, p, e) = Return (Term, s, p, e)"
  by (simp add: handleMsg_def)

lemma handleMsg_fresh:
  assumes "unmarshal_IncomingCommand L (json_parse L data) = Inr cmd"
    and "env_clock e (env_pos e) - ic_IssuedAt cmd \<le> 60000000000" and "\<not> sb_closed s"
  shows "handleMsg L data (s, p, e) =
    (if length (ch_buf (sb_ch s)) < ch_cap (sb_ch s)
     then Return (Ack, s\<lparr>sb_ch := Chan (ch_cap (sb_ch s)) (ch_buf (sb_ch s) @ [cmd])\<rparr>, p, env_tick e)
     else Return (Nak, s, p, env_tick e))"
  using assms by (simp add: handleMsg_def clock_Now_def command_expired_iff try_send_def)

text \<open>What a handler that returned has done, by the kind of message.\<close>

lemma handleMsg_cases:
  assumes "handleMsg L data (s, p, e) = Return (d, s', p', e')"
  obtains (bad) err where "unmarshal_IncomingCommand L (json_parse L data) = Inl err" "d = Term" "s' = s" "p' = p"
  | (old) cmd where "unmarshal_IncomingCommand L (json_parse L data) = Inr cmd"
      "60000000000 < env_clock e (env_pos e) - ic_IssuedAt cmd" "d = Ack" "s' = s"
  | (room) cmd where "unmarshal_IncomingCommand L (json_parse L data) = Inr cmd"
      "env_clock e (env_pos e) - ic_IssuedAt cmd \<le> 60000000000" "\<not> sb_closed s" "d = Ack"
      "try_send cmd (sb_ch s) = Some (sb_ch s')" "s' = s\<lparr>sb_ch := sb_ch s'\<rparr>" "p' = p"
  | (full) cmd where "unmarshal_IncomingCommand L (json_parse L data) = Inr cmd"
      "env_clock e (env_pos e) - ic_IssuedAt cmd \<le> 60000000000" "d = Nak"
      "try_send cmd (sb_ch s) = None" "s' = s" "p' = p"
  using assms
  by (auto simp: handleMsg_def clock_Now_def command_expired_iff Let_def go_bind_eq_Return
      split: sum.splits if_splits option.splits)

subsection \<open>The way of the commands\<close>

text \<open>
  The broker, the handler, the pump and the loop as steps. The stream holds the messages that are published and not
  settled, each with the number of its deliveries. The subscription asks for at most three deliveries and settles
  by hand (\<^verbatim>\<open>nats.MaxDeliver(3)\<close>, \<^verbatim>\<open>nats.ManualAck()\<close>): the broker may deliver any message that has
  not had three, in any order; one that is acknowledged or terminated leaves the stream if the broker
  hears of it (\<open>heard\<close>), all others stay and are delivered again, up to the third time.

  The histories: the published messages, what the handler put into the channel of
  the subscriber, what the pump did with each command, and what the loop took; and the number of
  acknowledgements that the broker did not hear. The publisher and the
  environment move in other ways too (\<open>path_other\<close>).
\<close>

definition max_deliver :: nat where
  "max_deliver = 3"

record command_path =
  cd_sub :: NATSGatewaySubscriber
  cd_commandCh :: "IncomingCommand chan"
  cd_pub :: NATSGatewayPublisher
  cd_env :: env
  cd_accepted :: "IncomingCommand list"
  cd_pumped :: "(IncomingCommand \<times> bool) list"
  cd_taken :: "IncomingCommand list"
  cd_stream :: "(bytes \<times> nat) list"
  cd_published :: "bytes list"
  cd_unheard :: nat

inductive path_step :: "'x libs_scheme \<Rightarrow> command_path \<Rightarrow> command_path \<Rightarrow> bool" for L where
  path_publish:
  "path_step L k (k\<lparr>cd_stream := cd_stream k @ [(data, 0)], cd_published := cd_published k @ [data]\<rparr>)"
| path_message:
  "i < length (cd_stream k) \<Longrightarrow> cd_stream k ! i = (data, n) \<Longrightarrow> n < max_deliver \<Longrightarrow>
   handleMsg L data (cd_sub k, cd_pub k, cd_env k) = Return (d, s, p, e) \<Longrightarrow>
   path_step L k (k\<lparr>cd_sub := s, cd_pub := p, cd_env := e,
     cd_stream := (if d \<noteq> Nak \<and> heard then take i (cd_stream k) @ drop (Suc i) (cd_stream k)
       else (cd_stream k)[i := (data, Suc n)]),
     cd_unheard := (if d \<noteq> Nak \<and> \<not> heard then Suc (cd_unheard k) else cd_unheard k),
     cd_accepted := cd_accepted k @ drop (length (ch_buf (sb_ch (cd_sub k)))) (ch_buf (sb_ch s))\<rparr>)"
| path_pump:
  "pump_command (sb_ch (cd_sub k)) (cd_commandCh k) = Some (cmd, ok, m, c) \<Longrightarrow>
   path_step L k (k\<lparr>cd_sub := (cd_sub k)\<lparr>sb_ch := m\<rparr>, cd_commandCh := c, cd_pumped := cd_pumped k @ [(cmd, ok)]\<rparr>)"
| path_loop:
  "try_recv (cd_commandCh k) = Some (cmd, c) \<Longrightarrow>
   path_step L k (k\<lparr>cd_commandCh := c, cd_taken := cd_taken k @ [cmd]\<rparr>)"
| path_close:
  "subscriber_Close (cd_sub k) = Return s \<Longrightarrow> path_step L k (k\<lparr>cd_sub := s\<rparr>)"
| path_other:
  "path_step L k (k\<lparr>cd_pub := p, cd_env := e\<rparr>)"

inductive path_reachable :: "'x libs_scheme \<Rightarrow> command_path \<Rightarrow> command_path \<Rightarrow> bool" for L k0 where
  path_start: "path_reachable L k0 k0"
| path_more: "path_reachable L k0 k \<Longrightarrow> path_step L k k' \<Longrightarrow> path_reachable L k0 k'"

definition fresh_path :: "NATSGatewaySubscriber \<Rightarrow> NATSGatewayPublisher \<Rightarrow> env \<Rightarrow> command_path" where
  "fresh_path s p e =
     \<lparr>cd_sub = s, cd_commandCh = make_chan 10, cd_pub = p, cd_env = e, cd_accepted = [], cd_pumped = [], cd_taken = [],
      cd_stream = [], cd_published = [], cd_unheard = 0\<rparr>"

definition path_ok :: "command_path \<Rightarrow> bool" where
  "path_ok k \<longleftrightarrow>
     cd_accepted k = map fst (cd_pumped k) @ ch_buf (sb_ch (cd_sub k)) \<and>
     map fst (filter snd (cd_pumped k)) = cd_taken k @ ch_buf (cd_commandCh k) \<and>
     chan_ok (sb_ch (cd_sub k)) \<and> ch_cap (sb_ch (cd_sub k)) = 8 \<and>
     chan_ok (cd_commandCh k) \<and> ch_cap (cd_commandCh k) = 10"

text \<open>What the stream and the accepted commands have to do with the published messages.\<close>

definition stream_ok :: "'x libs_scheme \<Rightarrow> command_path \<Rightarrow> bool" where
  "stream_ok L k \<longleftrightarrow>
     (\<forall>(data, n) \<in> set (cd_stream k). data \<in> set (cd_published k) \<and> n \<le> max_deliver) \<and>
     (\<forall>cmd \<in> set (cd_accepted k). \<exists>data \<in> set (cd_published k).
        unmarshal_IncomingCommand L (json_parse L data) = Inr cmd) \<and>
     length (cd_accepted k) + length (cd_stream k) \<le> length (cd_published k) + cd_unheard k"

lemma path_ok_fresh [inv_intros]:
  "NewNATSGatewaySubscriber subscribe tenant gid = Inr s \<Longrightarrow> path_ok (fresh_path s p e)"
  by (auto simp: NewNATSGatewaySubscriber_def path_ok_def fresh_path_def chan_ok_def split: sum.splits)

lemma stream_ok_fresh [inv_intros]: "stream_ok L (fresh_path s p e)"
  by (simp add: stream_ok_def fresh_path_def)

lemma path_ok_step: "path_step L k k' \<Longrightarrow> path_ok k \<Longrightarrow> path_ok k'"
proof (induction rule: path_step.induct)
  case (path_publish k data)
  then show ?case by (simp add: path_ok_def)
next
  case (path_message i k data n d s p e heard)
  from path_message(4,5) show ?case
    by (cases rule: handleMsg_cases) (auto simp: path_ok_def go_chan.send_Some chan_ok_def)
next
  case (path_pump k cmd okay m c)
  then obtain m1 where r: "try_recv (sb_ch (cd_sub k)) = Some (cmd, m1)"
    by (auto simp: pump_command_def split: option.splits)
  with path_pump show ?case
    by (auto simp: pump_command_def path_ok_def go_chan.recv_Some go_chan.send_Some chan_ok_def split: option.splits)
next
  case (path_loop k cmd c)
  then show ?case by (auto simp: path_ok_def go_chan.recv_Some chan_ok_def)
next
  case (path_close k s)
  then show ?case by (auto simp: path_ok_def subscriber_Close_def split: if_splits)
next
  case (path_other k p e)
  then show ?case by (simp add: path_ok_def)
qed

text \<open>What a delivery adds to the accepted commands.\<close>

lemma handleMsg_accepts:
  assumes "handleMsg L data (s, p, e) = Return (d, s', p', e')"
  obtains "drop (length (ch_buf (sb_ch s))) (ch_buf (sb_ch s')) = []"
  | cmd where "drop (length (ch_buf (sb_ch s))) (ch_buf (sb_ch s')) = [cmd]" "d = Ack"
      "unmarshal_IncomingCommand L (json_parse L data) = Inr cmd"
  using assms by (cases rule: handleMsg_cases) (auto simp: go_chan.send_Some)

lemma stream_ok_step: "path_step L k k' \<Longrightarrow> stream_ok L k \<Longrightarrow> stream_ok L k'"
proof (induction rule: path_step.induct)
  case (path_publish k data)
  then show ?case by (auto simp: stream_ok_def)
next
  case (path_message i k data n d s p e heard)
  let ?new = "drop (length (ch_buf (sb_ch (cd_sub k)))) (ch_buf (sb_ch s))"
    and ?stream = "if d \<noteq> Nak \<and> heard then take i (cd_stream k) @ drop (Suc i) (cd_stream k)
       else (cd_stream k)[i := (data, Suc n)]"
  have "(data, n) \<in> set (cd_stream k)" using path_message(1,2) by (metis nth_mem)
  then have data: "data \<in> set (cd_published k)" using path_message(5) by (auto simp: stream_ok_def)
  have sub: "set ?stream \<subseteq> insert (data, Suc n) (set (cd_stream k))"
    using set_take_subset [of i "cd_stream k"] set_drop_subset [of "Suc i" "cd_stream k"]
      set_update_subset_insert [of "cd_stream k" i "(data, Suc n)"] by auto
  have len: "length ?stream = length (cd_stream k) - (if d \<noteq> Nak \<and> heard then 1 else 0)"
    using path_message(1) by simp
  have 1: "\<forall>(data, n) \<in> set ?stream. data \<in> set (cd_published k) \<and> n \<le> max_deliver"
    using sub path_message(3,5) data by (fastforce simp: stream_ok_def)
  from path_message(4) have "(\<forall>cmd \<in> set ?new. unmarshal_IncomingCommand L (json_parse L data) = Inr cmd) \<and>
      length ?new \<le> (if d \<noteq> Nak then 1 else 0)"
    by (cases rule: handleMsg_accepts) auto
  with 1 len path_message(1,5) data show ?case
    by (auto simp: stream_ok_def split: if_splits)
next
  case (path_pump k cmd okay m c)
  then show ?case by (simp add: stream_ok_def)
next
  case (path_loop k cmd c)
  then show ?case by (simp add: stream_ok_def)
next
  case (path_close k s)
  then show ?case by (simp add: stream_ok_def)
next
  case (path_other k p e)
  then show ?case by (simp add: stream_ok_def)
qed

lemma path_reachable_ok: "path_reachable L k0 k \<Longrightarrow> path_ok k0 \<Longrightarrow> path_ok k"
  by (induction rule: path_reachable.induct) (auto intro: path_ok_step)

lemma stream_reachable_ok: "path_reachable L k0 k \<Longrightarrow> stream_ok L k0 \<Longrightarrow> stream_ok L k"
  by (induction rule: path_reachable.induct) (auto intro: stream_ok_step)

end
