(* ===== verification/Worker_System.thy ===== *)
theory Worker_System
  imports Worker_Ticks Nats_Subscriber
begin

text \<open>
  The life of a worker as a step relation: the cases of its loop, the flusher of its buffer, and
  what other goroutines do to it (the command pump and the API put values into its channels, the
  subscriber publishes the ACKs of expired commands through the worker's publisher, the API
  attaches sensors, starts and stops it, and everything else moves the store, the metrics and the
  clock). \<open>wk_received\<close> is the history of the commands the loop has taken from the channel,
  \<open>wk_expired\<close> that of the commands the subscriber has found to be too old. The
  invariant says that the former are answered exactly once each, in the order in which they came, anomalies
  or not, and that the other messages on the ACK subject are those of the latter.
\<close>

record 's worker_sys =
  wk_worker :: GatewayWorker
  wk_store :: 's
  wk_metrics :: metrics
  wk_env :: env
  wk_received :: "IncomingCommand list"
  wk_expired :: "IncomingCommand list"

text \<open>The command in a message that is older than a minute when the handler looks at it, if any.\<close>

definition expired_in :: "'x libs_scheme \<Rightarrow> bytes \<Rightarrow> env \<Rightarrow> IncomingCommand list" where
  "expired_in L data e =
     (case unmarshal_IncomingCommand L (json_parse L data) of
        Inl _ \<Rightarrow> []
      | Inr cmd \<Rightarrow> if command_expired (env_clock e (env_pos e)) cmd then [cmd] else [])"

text \<open>
  The subscriber and the worker are made for the same gateway, so that they share the ACK subject. The
  queue of the subscriber is not part of the state: \<open>pump\<close> may bring any command, and
  \<open>subscriber_message\<close> is the handler with any message and any queue.
\<close>

inductive worker_step :: "'x libs_scheme \<Rightarrow> 's store_ops \<Rightarrow> 's worker_sys \<Rightarrow> 's worker_sys \<Rightarrow> bool"
  for L ops where
  loop_config:
  "w_isRunning (wk_worker k) \<Longrightarrow>
   sensorLoop_case L ops Config_case (wk_worker k, wk_store k, wk_metrics k, wk_env k)
     = Some (Return (w, s, m, e)) \<Longrightarrow>
   worker_step L ops k (k\<lparr>wk_worker := w, wk_store := s, wk_metrics := m, wk_env := e\<rparr>)"
| loop_command:
  "w_isRunning (wk_worker k) \<Longrightarrow> ch_buf (w_commandCh (wk_worker k)) = cmd # cmds \<Longrightarrow>
   sensorLoop_case L ops Command_case (wk_worker k, wk_store k, wk_metrics k, wk_env k)
     = Some (Return (w, s, m, e)) \<Longrightarrow>
   worker_step L ops k (k\<lparr>wk_worker := w, wk_store := s, wk_metrics := m, wk_env := e,
     wk_received := wk_received k @ [cmd]\<rparr>)"
| loop_tick:
  "w_isRunning (wk_worker k) \<Longrightarrow>
   sensorLoop_case L ops Tick_case (wk_worker k, wk_store k, wk_metrics k, wk_env k)
     = Some (Return (w, s, m, e)) \<Longrightarrow>
   worker_step L ops k (k\<lparr>wk_worker := w, wk_store := s, wk_metrics := m, wk_env := e\<rparr>)"
| flusher:
  "Flush_iteration False False (w_buffer (wk_worker k), w_publisher (wk_worker k), wk_metrics k, wk_env k)
     = Return (Flush_loops (b, p, m, e)) \<Longrightarrow>
   worker_step L ops k (k\<lparr>wk_worker := (wk_worker k)\<lparr>w_buffer := b, w_publisher := p\<rparr>, wk_metrics := m,
     wk_env := e\<rparr>)"
| pump:
  "try_send cmd (w_commandCh (wk_worker k)) = Some c \<Longrightarrow>
   worker_step L ops k (k\<lparr>wk_worker := (wk_worker k)\<lparr>w_commandCh := c\<rparr>\<rparr>)"
| subscriber_message:
  "sb_ackSubject s = ack_subject L (wk_worker k) \<Longrightarrow>
   handleMsg L data (s, w_publisher (wk_worker k), wk_env k) = Return (d, s', p, e) \<Longrightarrow>
   worker_step L ops k (k\<lparr>wk_worker := (wk_worker k)\<lparr>w_publisher := p\<rparr>, wk_env := e,
     wk_expired := wk_expired k @ expired_in L data (wk_env k)\<rparr>)"
| api_config:
  "try_send cfg (w_configCh (wk_worker k)) = Some c \<Longrightarrow>
   worker_step L ops k (k\<lparr>wk_worker := (wk_worker k)\<lparr>w_configCh := c\<rparr>\<rparr>)"
| api_anomaly:
  "try_send a (w_anomalyCh (wk_worker k)) = Some c \<Longrightarrow>
   worker_step L ops k (k\<lparr>wk_worker := (wk_worker k)\<lparr>w_anomalyCh := c\<rparr>\<rparr>)"
| api_outlier:
  "try_send a (w_outlierCh (wk_worker k)) = Some c \<Longrightarrow>
   worker_step L ops k (k\<lparr>wk_worker := (wk_worker k)\<lparr>w_outlierCh := c\<rparr>\<rparr>)"
| api_sensor:
  "AttachSensor n g (wk_worker k) = (r, w) \<Longrightarrow> worker_step L ops k (k\<lparr>wk_worker := w\<rparr>)"
| api_start:
  "worker_Start (wk_worker k) = Return w \<Longrightarrow> worker_step L ops k (k\<lparr>wk_worker := w\<rparr>)"
| api_stop:
  "worker_step L ops k (k\<lparr>wk_worker := worker_Stop (wk_worker k)\<rparr>)"
| others:
  "worker_step L ops k (k\<lparr>wk_store := s, wk_metrics := m, wk_env := (wk_env k)\<lparr>env_pos := n\<rparr>\<rparr>)"

inductive worker_reachable ::
  "'x libs_scheme \<Rightarrow> 's store_ops \<Rightarrow> 's worker_sys \<Rightarrow> 's worker_sys \<Rightarrow> bool" for L ops k0 where
  worker_start: "worker_reachable L ops k0 k0"
| worker_more: "worker_reachable L ops k0 k \<Longrightarrow> worker_step L ops k k' \<Longrightarrow> worker_reachable L ops k0 k'"

text \<open>A new worker, before its loop has taken anything.\<close>

definition fresh_worker :: "WorkerDeps \<Rightarrow> 's \<Rightarrow> metrics \<Rightarrow> env \<Rightarrow> 's worker_sys" where
  "fresh_worker d s m e =
     \<lparr>wk_worker = NewGatewayWorker d, wk_store = s, wk_metrics = m, wk_env = e, wk_received = [],
      wk_expired = []\<rparr>"

subsection \<open>Answers\<close>

text \<open>A message on the ACK subject that answers the command.\<close>

definition is_answer :: "'x libs_scheme \<Rightarrow> string \<Rightarrow> IncomingCommand \<Rightarrow> string \<times> bytes \<Rightarrow> bool" where
  "is_answer L subject cmd msg \<longleftrightarrow>
     (\<exists>status message t. status \<in> {ACK, NACK} \<and> fst msg = subject \<and>
        marshal_CommandACK L \<lparr>ack_CommandID = ic_CommandID cmd, ack_Status = status, ack_Message = message,
          ack_Timestamp = t\<rparr> = Inr (snd msg))"

text \<open>A message on the ACK subject that says that the command expired.\<close>

definition is_expired_ack :: "'x libs_scheme \<Rightarrow> string \<Rightarrow> IncomingCommand \<Rightarrow> string \<times> bytes \<Rightarrow> bool" where
  "is_expired_ack L subject cmd msg \<longleftrightarrow>
     (\<exists>t. fst msg = subject \<and> marshal_CommandACK L (expired_ack cmd t) = Inr (snd msg))"

text \<open>What the broker accepted on the ACK subject through the worker's publisher.\<close>

definition answers :: "'x libs_scheme \<Rightarrow> GatewayWorker \<Rightarrow> (string \<times> bytes) list" where
  "answers L w = filter (\<lambda>m. fst m = ack_subject L w) (pub_log (w_publisher w))"

text \<open>
  The environment of the claim: the broker accepts every message, and the clock shows a time
  that JSON can hold.
\<close>

definition broker_up :: "env \<Rightarrow> bool" where
  "broker_up e \<longleftrightarrow> (\<forall>n. env_publish e n = None)"

definition clock_sane :: "env \<Rightarrow> bool" where
  "clock_sane e \<longleftrightarrow> (\<forall>n. 0 \<le> env_clock e n \<and> env_clock e n < 315537897600000000000)"

lemma env_hyps_oracles:
  "oracles e = oracles e' \<Longrightarrow> broker_up e = broker_up e'"
  "oracles e = oracles e' \<Longrightarrow> clock_sane e = clock_sane e'"
  by (drule oracles_eqD(1), simp add: broker_up_def) (drule oracles_eqD(2), simp add: clock_sane_def)

lemma encode_clock: "clock_sane e \<Longrightarrow> encode_time L (env_clock e n) = Inr (JStr (time_text L (env_clock e n)))"
  unfolding clock_sane_def encode_time_def by (drule spec [of _ n]) simp

lemma sendACK_answers:
  assumes "sendACK L (ic_CommandID cmd) ans (w, e) = Return (w', e')" and "broker_up e" and "clock_sane e"
    and "fst ans \<in> {ACK, NACK}"
  shows "\<exists>msg. is_answer L (ack_subject L w) cmd msg \<and> pub_log (w_publisher w') = pub_log (w_publisher w) @ [msg]"
proof -
  define a where "a = \<lparr>ack_CommandID = ic_CommandID cmd, ack_Status = fst ans, ack_Message = snd ans,
    ack_Timestamp = env_clock e (env_pos e)\<rparr>"
  obtain payload where p: "marshal_CommandACK L a = Inr payload"
    using encode_clock [OF assms(3), of L "env_pos e"] by (simp add: marshal_CommandACK_def a_def)
  have "publisher_Publish (ack_subject L w) payload (w_publisher w) (env_tick e) =
      Return (Inr (), (w_publisher w)\<lparr>pub_log := pub_log (w_publisher w) @ [(ack_subject L w, payload)]\<rparr>,
        env_tick (env_tick e))" if "pub_js (w_publisher w)"
    using assms(2) that by (simp add: publisher_Publish_def broker_up_def)
  then have "pub_log (w_publisher w') = pub_log (w_publisher w) @ [(ack_subject L w, payload)]"
    using assms(1) p
    by (cases "pub_js (w_publisher w)") (auto simp: sendACK_def clock_Now_eq a_def publish_closed_panics)
  moreover have "is_answer L (ack_subject L w) cmd (ack_subject L w, payload)"
    using p assms(4) by (auto simp: is_answer_def a_def)
  ultimately show ?thesis by blast
qed

lemma ack_subject_cong: "w_gateway w' = w_gateway w \<Longrightarrow> ack_subject L w' = ack_subject L w"
  by (simp add: ack_subject_def)

lemma answer_answers:
  assumes "answer L ops cmd (w, s, e) = Return (w', s', e')" and "broker_up e" and "clock_sane e"
  shows "\<exists>msg. is_answer L (ack_subject L w) cmd msg \<and> pub_log (w_publisher w') = pub_log (w_publisher w) @ [msg]"
proof -
  obtain ans w1 s1 where p: "processIncomingCommand ops cmd (w, s) = (ans, w1, s1)"
    by (metis prod_cases3)
  from assms p have a: "sendACK L (ic_CommandID cmd) ans (w1, e) = Return (w', e')"
    by (auto simp: answer_def go_bind_eq_Return)
  have "w_gateway w1 = w_gateway w" "w_publisher w1 = w_publisher w" "fst ans \<in> {ACK, NACK}"
    using processIncoming_frame [OF p] by auto
  with sendACK_answers [OF a assms(2,3)] ack_subject_cong [of w1 w L] show ?thesis by simp
qed

lemma answer_all_answers:
  assumes "answer_all L ops cmds (w, s, e) = Return (w', s', e')" and "broker_up e" and "clock_sane e"
  shows "\<exists>msgs. list_all2 (is_answer L (ack_subject L w)) cmds msgs \<and>
    pub_log (w_publisher w') = pub_log (w_publisher w) @ msgs"
  using assms
proof (induction cmds arbitrary: w s e)
  case Nil
  then show ?case by simp
next
  case (Cons cmd cmds)
  then obtain w1 s1 e1 where a: "answer L ops cmd (w, s, e) = Return (w1, s1, e1)"
    and b: "answer_all L ops cmds (w1, s1, e1) = Return (w', s', e')"
    by (auto simp: go_bind_eq_Return)
  note f = answer_frame [OF a]
  have g: "ack_subject L w1 = ack_subject L w" by (rule ack_subject_cong) (rule answered_toD(1) [OF f(2)])
  have e1: "broker_up e1" "clock_sane e1" using Cons.prems(2,3) env_hyps_oracles [OF f(1)] by simp_all
  from answer_answers [OF a Cons.prems(2,3)] obtain msg where
    "is_answer L (ack_subject L w) cmd msg" "pub_log (w_publisher w1) = pub_log (w_publisher w) @ [msg]" by blast
  moreover from Cons.IH [OF b e1] g obtain msgs where
    "list_all2 (is_answer L (ack_subject L w)) cmds msgs" "pub_log (w_publisher w') = pub_log (w_publisher w1) @ msgs"
    by auto
  ultimately show ?case by (intro exI [of _ "msg # msgs"]) simp
qed

lemma filter_answers:
  "list_all2 (is_answer L subj) cmds msgs \<Longrightarrow> filter (\<lambda>m. fst m = subj) msgs = msgs"
  by (induction rule: list_all2_induct) (auto simp: is_answer_def)

lemma filter_expired:
  "list_all2 (is_expired_ack L subj) cmds msgs \<Longrightarrow> filter (\<lambda>m. fst m = subj) msgs = msgs"
  by (induction rule: list_all2_induct) (auto simp: is_expired_ack_def)

lemma handleMsg_oracles: "handleMsg L data (s, p, e) = Return (d, s', p', e') \<Longrightarrow> oracles e' = oracles e"
  by (auto simp: handleMsg_def clock_Now_eq publisher_Publish_def Let_def go_bind_eq_Return
      split: sum.splits if_splits option.splits)

lemma handleMsg_expired:
  assumes "handleMsg L data (s, p, e) = Return (d, s', p', e')" and "broker_up e" and "clock_sane e"
  shows "\<exists>msgs. list_all2 (is_expired_ack L (sb_ackSubject s)) (expired_in L data e) msgs \<and>
    pub_log p' = pub_log p @ msgs"
  using assms(1)
proof (cases rule: handleMsg_cases)
  case (old cmd)
  define t where "t = env_clock e (Suc (env_pos e))"
  obtain msg where m: "marshal_CommandACK L (expired_ack cmd t) = Inr msg"
    using encode_clock [OF assms(3), of L "Suc (env_pos e)"] by (simp add: marshal_CommandACK_def expired_ack_def t_def)
  with old assms(1,2) have "pub_log p' = pub_log p @ [(sb_ackSubject s, msg)]"
    by (auto simp: handleMsg_def clock_Now_def env_tick_def command_expired_iff t_def [symmetric] go_bind_eq_Return
        publisher_Publish_def broker_up_def split: if_splits)
  moreover have "is_expired_ack L (sb_ackSubject s) cmd (sb_ackSubject s, msg)" using m by (auto simp: is_expired_ack_def)
  ultimately show ?thesis
    using old by (intro exI [of _ "[(sb_ackSubject s, msg)]"]) (simp add: expired_in_def command_expired_iff)
qed (simp_all add: expired_in_def command_expired_iff)

text \<open>Two histories that grow at their ends.\<close>

lemma shuffles_append_left: "zs \<in> shuffles xs ys \<Longrightarrow> zs @ ws \<in> shuffles (xs @ ws) ys"
proof (induction zs arbitrary: xs ys)
  case (Cons z zs)
  then show ?case by (auto simp: Cons_in_shuffles_iff)
qed simp

lemma shuffles_append_right: "zs \<in> shuffles xs ys \<Longrightarrow> zs @ ws \<in> shuffles xs (ys @ ws)"
  using shuffles_append_left [of zs ys xs ws] by (simp add: shuffles_commutes)

subsection \<open>The invariant\<close>

definition telemetry_apart :: "'x libs_scheme \<Rightarrow> GatewayWorker \<Rightarrow> bool" where
  "telemetry_apart L w \<longleftrightarrow> mb_subject (w_buffer w) \<noteq> ack_subject L w"

definition answered_in_order ::
  "'x libs_scheme \<Rightarrow> IncomingCommand list \<Rightarrow> GatewayWorker \<Rightarrow> IncomingCommand list \<Rightarrow> bool" where
  "answered_in_order L expired w received \<longleftrightarrow>
     (\<exists>past given late. received = past @ w_anomalyCommandBuffer w \<and>
        list_all2 (is_answer L (ack_subject L w)) past given \<and>
        list_all2 (is_expired_ack L (ack_subject L w)) expired late \<and> answers L w \<in> shuffles given late)"

definition worker_inv :: "'x libs_scheme \<Rightarrow> 's worker_sys \<Rightarrow> bool" where
  "worker_inv L k \<longleftrightarrow>
     worker_ok (wk_worker k) \<and> broker_up (wk_env k) \<and> clock_sane (wk_env k) \<and>
     telemetry_apart L (wk_worker k) \<and> answered_in_order L (wk_expired k) (wk_worker k) (wk_received k)"

lemma identity_subjects:
  assumes "worker_identity w' = worker_identity w"
  shows "ack_subject L w' = ack_subject L w" and "telemetry_apart L w' = telemetry_apart L w"
  using assms by (auto simp: worker_identity_def ack_subject_def telemetry_apart_def)

text \<open>Steps that leave the publisher and the buffered commands alone.\<close>

lemma answered_in_order_same:
  assumes "worker_identity w' = worker_identity w" and "w_publisher w' = w_publisher w"
    and "w_anomalyCommandBuffer w' = w_anomalyCommandBuffer w"
  shows "answered_in_order L x w' r = answered_in_order L x w r"
  using assms identity_subjects(1) [OF assms(1), of L] by (simp add: answered_in_order_def answers_def)

lemma answered_in_order_keeps:
  "keeps w w' \<Longrightarrow> answered_in_order L x w' r = answered_in_order L x w r"
  by (rule answered_in_order_same) (simp_all add: keeps_def)

text \<open>Answering commands that have been received and wait at the front.\<close>

lemma answered_in_order_answer:
  assumes "list_all2 (is_answer L (ack_subject L w)) past given"
    and "list_all2 (is_expired_ack L (ack_subject L w)) x late" and "answers L w \<in> shuffles given late"
    and "worker_identity w' = worker_identity w"
    and "list_all2 (is_answer L (ack_subject L w)) cmds msgs"
    and "pub_log (w_publisher w') = pub_log (w_publisher w) @ msgs"
    and "r = past @ cmds @ w_anomalyCommandBuffer w'"
  shows "answered_in_order L x w' r"
proof -
  have "answers L w' = answers L w @ msgs"
    using assms(6) identity_subjects(1) [OF assms(4), of L] filter_answers [OF assms(5)] by (simp add: answers_def)
  then have "answers L w' \<in> shuffles (given @ msgs) late" using shuffles_append_left [OF assms(3)] by simp
  then show ?thesis
    using list_all2_appendI [OF assms(1,5)] assms(2,7) identity_subjects(1) [OF assms(4), of L]
    unfolding answered_in_order_def by (metis append.assoc)
qed

text \<open>An expired command's ACK, whatever the loop is doing.\<close>

lemma answered_in_order_expired:
  assumes "answered_in_order L x w r" and "list_all2 (is_expired_ack L (ack_subject L w)) cmds msgs"
    and "pub_log p = pub_log (w_publisher w) @ msgs"
  shows "answered_in_order L (x @ cmds) (w\<lparr>w_publisher := p\<rparr>) r"
proof -
  from assms(1) obtain past given late where o: "r = past @ w_anomalyCommandBuffer w"
    "list_all2 (is_answer L (ack_subject L w)) past given" "list_all2 (is_expired_ack L (ack_subject L w)) x late"
    "answers L w \<in> shuffles given late" by (auto simp: answered_in_order_def)
  have s: "ack_subject L (w\<lparr>w_publisher := p\<rparr>) = ack_subject L w" by (rule ack_subject_cong) simp
  then have "answers L (w\<lparr>w_publisher := p\<rparr>) = answers L w @ msgs"
    using assms(3) filter_expired [OF assms(2)] by (simp add: answers_def)
  then have "answers L (w\<lparr>w_publisher := p\<rparr>) \<in> shuffles given (late @ msgs)"
    using shuffles_append_right [OF o(4)] by simp
  then show ?thesis
    using o(1,2) list_all2_appendI [OF o(3) assms(2)] s by (auto simp: answered_in_order_def)
qed

lemma checkAnomalyExpiry_order:
  assumes "checkAnomalyExpiry L ops (w, s, e) = Return (w', s', e')"
    and "broker_up e" and "clock_sane e" and "answered_in_order L x w r"
  shows "answered_in_order L x w' r"
  using assms(1)
proof (cases rule: checkAnomalyExpiry_cases)
  case still
  then show ?thesis using assms(4) by simp
next
  case (expired w1 e1)
  let ?w0 = "w\<lparr>w_activeAnomaly := None\<rparr>"
  from answer_all_frame [OF expired(3)] have f: "answered_to ?w0 w1" by blast
  have e1: "broker_up e1" "clock_sane e1" using assms(2,3) env_hyps_oracles [OF expired(2)] by simp_all
  have subj: "ack_subject L ?w0 = ack_subject L w" by (rule ack_subject_cong) simp
  from answer_all_answers [OF expired(3) e1] subj obtain msgs where
    msgs: "list_all2 (is_answer L (ack_subject L w)) (w_anomalyCommandBuffer w) msgs"
      "pub_log (w_publisher w1) = pub_log (w_publisher w) @ msgs" by auto
  from assms(4) obtain past given late where "r = past @ w_anomalyCommandBuffer w"
    and d: "list_all2 (is_answer L (ack_subject L w)) past given"
    "list_all2 (is_expired_ack L (ack_subject L w)) x late" "answers L w \<in> shuffles given late"
    by (auto simp: answered_in_order_def)
  then have r: "r = past @ w_anomalyCommandBuffer w @ w_anomalyCommandBuffer w'"
    using expired(4) by simp
  have "worker_identity w' = worker_identity w"
    using answered_to_identity [OF f] expired(4) by (simp add: worker_identity_def)
  then show ?thesis by (rule answered_in_order_answer [OF d _ msgs(1) _ r]) (simp add: expired(4) msgs(2))
qed

lemma processTick_order:
  assumes "processTick L ops (w, s, m, e) = Return (w', s', m', e')"
    and "broker_up e" and "clock_sane e" and "answered_in_order L x w r"
  shows "answered_in_order L x w' r"
proof -
  from assms(1) obtain w1 e1 w2 e2 where p: "drainControlChannels (w, e) = Return (w1, e1)"
    "checkAnomalyExpiry L ops (w1, s, e1) = Return (w2, s', e2)"
    "publishSensorData L (w2, m, e2) = Return (w', m', e')" by (rule processTick_parts)
  note d = drainControlChannels_keeps [OF p(1)]
  have e1: "broker_up e1" "clock_sane e1" using assms(2,3) env_hyps_oracles [OF d(2)] by simp_all
  have "answered_in_order L x w1 r" using assms(4) answered_in_order_keeps [OF d(1)] by blast
  from checkAnomalyExpiry_order [OF p(2) e1 this] show ?thesis
    using publishSensorData_keeps [OF p(3)] answered_in_order_keeps by blast
qed

lemma handleIncoming_order:
  assumes "handleIncomingCommand L ops cmd (w, s, e) = Return (w', s', e')"
    and "worker_ok w" and "broker_up e" and "clock_sane e" and "answered_in_order L x w r"
  shows "worker_ok w' \<and> worker_identity w' = worker_identity w \<and> oracles e' = oracles e \<and>
    answered_in_order L x w' (r @ [cmd])"
proof (cases "w_activeAnomaly w")
  case (Some a)
  then have w': "w' = w\<lparr>w_anomalyCommandBuffer := w_anomalyCommandBuffer w @ [cmd]\<rparr>" "e' = e"
    using assms(1) by (auto simp: handleIncomingCommand_def)
  have id: "worker_identity w' = worker_identity w" by (simp add: w' worker_identity_def)
  then show ?thesis
    using assms(2,5) Some identity_subjects(1) [OF id, of L]
    by (auto simp: w' worker_ok_def answered_in_order_def answers_def)
next
  case None
  then have a: "answer L ops cmd (w, s, e) = Return (w', s', e')"
    using assms(1) by (simp add: handleIncomingCommand_def)
  note f = answer_frame [OF a]
  have empty: "w_anomalyCommandBuffer w = []" using None assms(2) by (auto simp: worker_ok_def)
  from answer_answers [OF a assms(3,4)] obtain msg where
    m: "is_answer L (ack_subject L w) cmd msg" "pub_log (w_publisher w') = pub_log (w_publisher w) @ [msg]" by blast
  from assms(5) empty obtain given late where d: "list_all2 (is_answer L (ack_subject L w)) r given"
    "list_all2 (is_expired_ack L (ack_subject L w)) x late" "answers L w \<in> shuffles given late"
    by (auto simp: answered_in_order_def)
  have "answered_in_order L x w' (r @ [cmd])"
    by (rule answered_in_order_answer [OF d answered_to_identity [OF f(2)], of "[cmd]" "[msg]"])
       (use m empty answered_toD [OF f(2)] in simp_all)
  then show ?thesis using f answered_to_identity answered_to_ok assms(2) by blast
qed

subsection \<open>Every step keeps the invariant\<close>

lemma config_case_keeps:
  assumes "sensorLoop_case L ops Config_case (w, s, m, e) = Some (Return (w', s', m', e'))"
  shows "keeps w w' \<and> s' = s \<and> m' = m \<and> e' = e"
proof -
  from assms have tk: "w_ticker w = None" by (auto simp: sensorLoop_case_def split: if_splits)
  then obtain cfg ch where x: "try_recv (w_configCh w) = Some (cfg, ch)"
    using assms by (auto simp: sensorLoop_case_def split: option.splits)
  define w1 where "w1 = w\<lparr>w_configCh := ch\<rparr>"
  have k: "keeps w w1" using recv_config_keeps [OF x] by (simp add: w1_def)
  show ?thesis
  proof (cases "\<exists>f. cu_SendFrequencyMs cfg = Some f \<and> 0 < sint f")
    case True
    then obtain f where f: "cu_SendFrequencyMs cfg = Some f" "0 < sint f" by blast
    then obtain d where d: "w1\<lparr>w_gateway := (w_gateway w1)\<lparr>gw_SendFrequencyMs := f\<rparr>, w_ticker := Some d\<rparr> = w'"
      "s' = s" "m' = m" "e' = e"
      using assms tk x by (cases "NewTicker f") (auto simp: sensorLoop_case_def w1_def)
    then show ?thesis using keeps_trans [OF k keeps_fields(2) [of w1 "Some d" f]] by simp
  next
    case False
    then have "w' = w1 \<and> s' = s \<and> m' = m \<and> e' = e"
      using assms tk x by (auto simp: sensorLoop_case_def w1_def Let_def split: option.splits)
    then show ?thesis using k by simp
  qed
qed

lemma channel_steps_keep:
  "try_send cmd (w_commandCh w) = Some c \<Longrightarrow> keeps w (w\<lparr>w_commandCh := c\<rparr>)"
  "try_send cfg (w_configCh w) = Some c' \<Longrightarrow> keeps w (w\<lparr>w_configCh := c'\<rparr>)"
  "try_send a (w_anomalyCh w) = Some c'' \<Longrightarrow> keeps w (w\<lparr>w_anomalyCh := c''\<rparr>)"
  "try_send u (w_outlierCh w) = Some d \<Longrightarrow> keeps w (w\<lparr>w_outlierCh := d\<rparr>)"
  "try_recv (w_commandCh w) = Some (cmd, c) \<Longrightarrow> keeps w (w\<lparr>w_commandCh := c\<rparr>)"
  by (auto simp: keeps_def worker_identity_def worker_ok_def go_chan.send_Some go_chan.recv_Some chan_ok_def)

lemma worker_inv_keeps:
  assumes "worker_inv L k" and "keeps (wk_worker k) w" and "oracles e = oracles (wk_env k)"
  shows "worker_inv L (k\<lparr>wk_worker := w, wk_store := s, wk_metrics := m, wk_env := e\<rparr>)"
proof -
  have id: "worker_identity w = worker_identity (wk_worker k)" using assms(2) by (simp add: keeps_def)
  show ?thesis
    using assms identity_subjects(2) [OF id, of L] answered_in_order_keeps [OF assms(2), of L]
      env_hyps_oracles [OF assms(3)]
    by (simp add: worker_inv_def keeps_def)
qed

lemma worker_inv_keeps_w:
  "worker_inv L k \<Longrightarrow> keeps (wk_worker k) w \<Longrightarrow> worker_inv L (k\<lparr>wk_worker := w\<rparr>)"
  using worker_inv_keeps [where k = k and w = w and e = "wk_env k" and s = "wk_store k" and m = "wk_metrics k"]
  by simp

text \<open>The flusher publishes on the telemetry subject only.\<close>

lemma flusher_inv:
  assumes "worker_inv L k"
    and "Flush_iteration cd pd (w_buffer (wk_worker k), w_publisher (wk_worker k), wk_metrics k, wk_env k)
      = Return (Flush_loops (b, p, m, e))"
  shows "worker_inv L (k\<lparr>wk_worker := (wk_worker k)\<lparr>w_buffer := b, w_publisher := p\<rparr>, wk_metrics := m, wk_env := e\<rparr>)"
proof -
  let ?w = "wk_worker k"
  from assms(2) obtain x xs where x: "mb_contents (w_buffer ?w) = x # xs" "pub_js (w_publisher ?w)" "\<not> (cd \<and> pd)"
    by (rule Flush_iteration_loopsD)
  note eq = Flush_iteration_loops [OF x, of "wk_metrics k" "wk_env k"]
  have b: "b = (w_buffer ?w)\<lparr>mb_ch := Chan (mb_capacity (w_buffer ?w)) xs\<rparr>" and e: "e = env_tick (wk_env k)"
    and p: "pub_log p = pub_log (w_publisher ?w) @ (if env_publish (wk_env k) (env_pos (wk_env k)) = None
        then [(mb_subject (w_buffer ?w), x)] else [])"
    using assms(2) unfolding eq by (auto simp: Let_def split: if_splits)
  let ?w' = "?w\<lparr>w_buffer := b, w_publisher := p\<rparr>"
  from assms(1) have inv: "worker_ok ?w" "broker_up (wk_env k)" "clock_sane (wk_env k)" "telemetry_apart L ?w"
    "answered_in_order L (wk_expired k) ?w (wk_received k)" by (auto simp: worker_inv_def)
  have id: "worker_identity ?w' = worker_identity ?w" by (simp add: worker_identity_def b)
  have "worker_ok ?w'" using inv(1) x(1) by (auto simp: worker_ok_def b buffer_ok_def chan_ok_def)
  moreover have "answers L ?w' = answers L ?w"
    using inv(4) identity_subjects(1) [OF id, of L] by (auto simp: answers_def p telemetry_apart_def)
  then have "answered_in_order L (wk_expired k) ?w' (wk_received k)"
    using inv(5) identity_subjects(1) [OF id, of L] by (simp add: answered_in_order_def)
  ultimately show ?thesis
    using inv(2-4) identity_subjects(2) [OF id, of L] env_hyps_oracles [of e "wk_env k"]
    by (simp add: worker_inv_def e)
qed

lemma start_stop_facts:
  "worker_Start w = Return w' \<Longrightarrow> worker_identity w' = worker_identity w \<and> worker_ok w' = worker_ok w \<and>
     w_publisher w' = w_publisher w \<and> w_anomalyCommandBuffer w' = w_anomalyCommandBuffer w"
  "worker_identity (worker_Stop w) = worker_identity w" "worker_ok (worker_Stop w) = worker_ok w"
  "pub_log (w_publisher (worker_Stop w)) = pub_log (w_publisher w)"
  "w_anomalyCommandBuffer (worker_Stop w) = w_anomalyCommandBuffer w"
  by (auto simp: worker_Start_def worker_Stop_def worker_identity_def worker_ok_def Let_def
      go_bind_eq_Return split: if_splits)

lemma worker_inv_same:
  assumes "worker_inv L k" and "worker_identity w = worker_identity (wk_worker k)"
    and "worker_ok w" and "pub_log (w_publisher w) = pub_log (w_publisher (wk_worker k))"
    and "w_anomalyCommandBuffer w = w_anomalyCommandBuffer (wk_worker k)"
  shows "worker_inv L (k\<lparr>wk_worker := w\<rparr>)"
  using assms identity_subjects [OF assms(2), of L]
  by (simp add: worker_inv_def answered_in_order_def answers_def)

lemma command_case_inv:
  assumes "worker_inv L k" and "ch_buf (w_commandCh (wk_worker k)) = cmd # cmds"
    and "sensorLoop_case L ops Command_case (wk_worker k, wk_store k, wk_metrics k, wk_env k)
      = Some (Return (w, s, m, e))"
  shows "worker_inv L (k\<lparr>wk_worker := w, wk_store := s, wk_metrics := m, wk_env := e,
      wk_received := wk_received k @ [cmd]\<rparr>)"
proof -
  let ?w = "wk_worker k"
  obtain c where c: "try_recv (w_commandCh ?w) = Some (cmd, c)"
    using assms(2) by (simp add: try_recv_def)
  let ?w1 = "?w\<lparr>w_commandCh := c\<rparr>"
  from assms(3) c have h: "handleIncomingCommand L ops cmd (?w1, wk_store k, wk_env k) = Return (w, s, e)"
    by (auto simp: sensorLoop_case_def go_bind_eq_Return)
  note k1 = channel_steps_keep(5) [OF c]
  from assms(1) have inv: "worker_ok ?w" "broker_up (wk_env k)" "clock_sane (wk_env k)" "telemetry_apart L ?w"
    "answered_in_order L (wk_expired k) ?w (wk_received k)" by (auto simp: worker_inv_def)
  have w1: "worker_ok ?w1" "answered_in_order L (wk_expired k) ?w1 (wk_received k)"
    using k1 inv(1,5) answered_in_order_keeps [OF k1, of L] by (simp_all add: keeps_def)
  from handleIncoming_order [OF h w1(1) inv(2,3) w1(2)] have r: "worker_ok w"
    "worker_identity w = worker_identity ?w1" "oracles e = oracles (wk_env k)"
    "answered_in_order L (wk_expired k) w (wk_received k @ [cmd])" by blast+
  have "worker_identity w = worker_identity ?w" using r(2) k1 by (simp add: keeps_def)
  from identity_subjects(2) [OF this, of L] show ?thesis
    using r inv(2-4) env_hyps_oracles [OF r(3)] by (simp add: worker_inv_def)
qed

lemma tick_case_inv:
  assumes "worker_inv L k"
    and "sensorLoop_case L ops Tick_case (wk_worker k, wk_store k, wk_metrics k, wk_env k)
      = Some (Return (w, s, m, e))"
  shows "worker_inv L (k\<lparr>wk_worker := w, wk_store := s, wk_metrics := m, wk_env := e\<rparr>)"
proof -
  from assms(2) have t: "processTick L ops (wk_worker k, wk_store k, wk_metrics k, wk_env k) = Return (w, s, m, e)"
    by (auto simp: sensorLoop_case_def split: if_splits)
  from assms(1) have inv: "worker_ok (wk_worker k)" "broker_up (wk_env k)" "clock_sane (wk_env k)"
    "telemetry_apart L (wk_worker k)" "answered_in_order L (wk_expired k) (wk_worker k) (wk_received k)"
    by (auto simp: worker_inv_def)
  note f = processTick_ok [OF t]
  from processTick_order [OF t inv(2,3,5)] show ?thesis
    using f(1) [OF inv(1)] inv(2-4) identity_subjects(2) [OF f(3), of L] env_hyps_oracles [OF f(2)]
    by (simp add: worker_inv_def)
qed

lemma subscriber_inv:
  assumes "worker_inv L k" and "sb_ackSubject s = ack_subject L (wk_worker k)"
    and "handleMsg L data (s, w_publisher (wk_worker k), wk_env k) = Return (d, s', p, e)"
  shows "worker_inv L (k\<lparr>wk_worker := (wk_worker k)\<lparr>w_publisher := p\<rparr>, wk_env := e,
      wk_expired := wk_expired k @ expired_in L data (wk_env k)\<rparr>)"
proof -
  let ?w' = "(wk_worker k)\<lparr>w_publisher := p\<rparr>"
  from assms(1) have inv: "worker_ok (wk_worker k)" "broker_up (wk_env k)" "clock_sane (wk_env k)"
    "telemetry_apart L (wk_worker k)" "answered_in_order L (wk_expired k) (wk_worker k) (wk_received k)"
    by (auto simp: worker_inv_def)
  from handleMsg_expired [OF assms(3) inv(2,3)] assms(2) obtain msgs where
    m: "list_all2 (is_expired_ack L (ack_subject L (wk_worker k))) (expired_in L data (wk_env k)) msgs"
    "pub_log p = pub_log (w_publisher (wk_worker k)) @ msgs" by auto
  have id: "worker_identity ?w' = worker_identity (wk_worker k)" by (simp add: worker_identity_def)
  have "worker_ok ?w'" using inv(1) by (simp add: worker_ok_def)
  then show ?thesis
    using answered_in_order_expired [OF inv(5) m] inv(2-4) identity_subjects(2) [OF id, of L]
      env_hyps_oracles [OF handleMsg_oracles [OF assms(3)]]
    by (simp add: worker_inv_def)
qed

lemma worker_step_inv:
  assumes "worker_step L ops k k'" and "worker_inv L k"
  shows "worker_inv L k'"
  using assms
proof (induction rule: worker_step.induct)
  case (loop_config k w s m e)
  then show ?case using config_case_keeps [OF loop_config(2)] by (simp add: worker_inv_keeps_w)
next
  case (loop_command k cmd cmds w s m e)
  then show ?case by (blast intro: command_case_inv)
next
  case (loop_tick k w s m e)
  then show ?case by (blast intro: tick_case_inv)
next
  case (flusher k b p m e)
  then show ?case by (blast intro: flusher_inv)
next
  case (pump cmd k c)
  then show ?case by (blast intro: worker_inv_keeps_w channel_steps_keep)
next
  case (subscriber_message s k data d s' p e)
  then show ?case by (blast intro: subscriber_inv)
next
  case (api_config cfg k c)
  then show ?case by (blast intro: worker_inv_keeps_w channel_steps_keep)
next
  case (api_anomaly a k c)
  then show ?case by (blast intro: worker_inv_keeps_w channel_steps_keep)
next
  case (api_outlier a k c)
  then show ?case by (blast intro: worker_inv_keeps_w channel_steps_keep)
next
  case (api_sensor n g k r w)
  have "worker_ok w" using AttachSensor_ok api_sensor by (auto simp: worker_inv_def)
  then show ?case using api_sensor
    by (intro worker_inv_same) (auto simp: AttachSensor_def worker_identity_def split: if_splits)
next
  case (api_start k w)
  then show ?case using start_stop_facts(1) [OF api_start(1)]
    by (intro worker_inv_same) (auto simp: worker_inv_def)
next
  case (api_stop k)
  then show ?case by (intro worker_inv_same) (auto simp: start_stop_facts worker_inv_def)
next
  case (others k n m s)
  then show ?case
    using worker_inv_keeps [OF others keeps_refl, where e = "(wk_env k)\<lparr>env_pos := n\<rparr>" and s = s and m = m]
    by simp
qed

lemma worker_reachable_inv:
  "worker_reachable L ops k0 k \<Longrightarrow> worker_inv L k0 \<Longrightarrow> worker_inv L k"
  by (induction rule: worker_reachable.induct) (auto intro: worker_step_inv)

lemma fresh_worker_inv:
  assumes "length (wd_Generators d) = length (wd_Sensors d)" and "buffer_ok (wd_Buffer d)"
    and "pub_log (wd_Publisher d) = []" and "broker_up e" and "clock_sane e"
    and "mb_subject (wd_Buffer d) \<noteq> ack_subject L (NewGatewayWorker d)"
  shows "worker_inv L (fresh_worker d s m e)"
  using assms NewGatewayWorker_ok [OF assms(1,2)]
  by (simp add: worker_inv_def fresh_worker_def telemetry_apart_def answered_in_order_def answers_def)
     (simp add: NewGatewayWorker_def)

end
