(* ===== verification/Registry_System.thy ===== *)
theory Registry_System
  imports Registry_Saga Worker_System
begin

text \<open>
  Every operation of the registry, and every step of a registered worker, keeps the registry's
  invariant: the map of workers, the store, the open connections and the gauge stay in step.
\<close>

subsection \<open>A step of a worker's loop, seen from the registry\<close>

text \<open>What a step of the loop keeps of a worker.\<close>

definition loop_frame :: "GatewayWorker \<Rightarrow> GatewayWorker \<Rightarrow> bool" where
  "loop_frame w w' \<longleftrightarrow>
     worker_identity w' = worker_identity w \<and> (worker_ok w \<longrightarrow> worker_ok w') \<and>
     w_isRunning w' = w_isRunning w \<and> w_connClosed w' = w_connClosed w \<and>
     w_publisherClosed w' = w_publisherClosed w"

lemma keeps_loop_frame: "keeps w w' \<Longrightarrow> loop_frame w w'"
  by (simp add: keeps_def loop_frame_def)

lemma answered_loop_frame: "answered_to w w' \<Longrightarrow> loop_frame w w'"
  using answered_to_identity answered_to_ok answered_toD by (simp add: loop_frame_def)

lemma loop_frame_trans: "loop_frame w w1 \<Longrightarrow> loop_frame w1 w2 \<Longrightarrow> loop_frame w w2"
  by (simp add: loop_frame_def)

lemma loop_frame_registered: "worker_registered G u w \<Longrightarrow> loop_frame w w' \<Longrightarrow> worker_registered G u w'"
  by (auto simp: worker_registered_def loop_frame_def worker_identity_def)

lemma handleIncoming_frame:
  assumes "handleIncomingCommand L ops cmd (w, s, e) = Return (w', s', e')"
  shows "loop_frame w w'" and "oracles e' = oracles e"
proof -
  have "loop_frame w w' \<and> oracles e' = oracles e"
  proof (cases "w_activeAnomaly w")
    case None
    then have "answer L ops cmd (w, s, e) = Return (w', s', e')"
      using assms by (simp add: handleIncomingCommand_def)
    from answer_frame [OF this] show ?thesis by (simp add: answered_loop_frame)
  next
    case (Some a)
    then show ?thesis using assms
      by (auto simp: handleIncomingCommand_def loop_frame_def worker_identity_def worker_ok_def)
  qed
  then show "loop_frame w w'" and "oracles e' = oracles e" by simp_all
qed

lemma sendSensor_gauge:
  assumes "sendSensorTelemetry L n g (w, m, e) = (g', w', m', e')"
  shows "GatewaysRunning m' = GatewaysRunning m"
proof -
  obtain xs e1 where x: "tick_readings L w [(n, g)] e = (xs, e1)" by force
  obtain b m1 where s: "Send_all xs (w_buffer w, m) = (b, m1)" by force
  have "GatewaysRunning m2 = GatewaysRunning m" if "Send_all xs (b0, m) = (b2, m2)" for xs b0 b2 m m2
    using that
  proof (induction xs arbitrary: b0 m)
    case (Cons p ps)
    obtain b3 m3 where "Send p (b0, m) = (b3, m3)" by force
    with Cons Send_frame(4) [OF this] show ?case by auto
  qed simp
  from this [OF s] show ?thesis using assms x s by (simp add: sendSensor_eq)
qed

lemma publish_from_gauge:
  "publish_from L i ns (w, m, e) = Return (w', m', e') \<Longrightarrow> GatewaysRunning m' = GatewaysRunning m"
proof (induction ns arbitrary: i w m e)
  case (Cons n ns)
  obtain g1 w1 m1 e1 where s: "sendSensorTelemetry L n (w_generators w ! i) (w, m, e) = (g1, w1, m1, e1)"
    by (metis prod_cases4)
  from Cons.prems s have "publish_from L (Suc i) ns (w1\<lparr>w_generators := (w_generators w1)[i := g1]\<rparr>, m1, e1)
      = Return (w', m', e')" by (simp split: if_splits)
  from Cons.IH [OF this] sendSensor_gauge [OF s] show ?case by simp
qed simp

lemma processTick_gauge:
  assumes "processTick L ops (w, s, m, e) = Return (w', s', m', e')"
  shows "GatewaysRunning m' = GatewaysRunning m"
proof -
  from assms obtain w1 e1 w2 e2 where "drainControlChannels (w, e) = Return (w1, e1)"
    "checkAnomalyExpiry L ops (w1, s, e1) = Return (w2, s', e2)"
    and p: "publishSensorData L (w2, m, e2) = Return (w', m', e')" by (rule processTick_parts)
  from p show ?thesis by (auto simp: publishSensorData_def split: if_splits dest: publish_from_gauge)
qed

lemma loop_case_frame:
  assumes "sensorLoop_case L ops c (w, s, m, e) = Some (Return (w', s', m', e'))"
  shows "loop_frame w w'" and "oracles e' = oracles e" and "GatewaysRunning m' = GatewaysRunning m"
proof -
  have "loop_frame w w' \<and> oracles e' = oracles e \<and> GatewaysRunning m' = GatewaysRunning m"
  proof (cases c)
    case Config_case
    with assms have "keeps w w' \<and> s' = s \<and> m' = m \<and> e' = e"
      by (intro config_case_keeps [of L ops]) simp
    then show ?thesis by (simp add: keeps_loop_frame)
  next
    case Command_case
    then obtain cmd ch where x: "try_recv (w_commandCh w) = Some (cmd, ch)"
      and h: "handleIncomingCommand L ops cmd (w\<lparr>w_commandCh := ch\<rparr>, s, e) = Return (w', s', e')" and "m' = m"
      using assms by (auto simp: sensorLoop_case_def go_bind_eq_Return split: option.splits)
    then show ?thesis
      using loop_frame_trans [OF keeps_loop_frame [OF channel_steps_keep(5) [OF x]]] handleIncoming_frame [OF h]
      by simp
  next
    case Tick_case
    then have t: "processTick L ops (w, s, m, e) = Return (w', s', m', e')"
      using assms by (auto simp: sensorLoop_case_def split: if_splits)
    show ?thesis using processTick_ok [OF t] processTick_gauge [OF t] by (simp add: loop_frame_def)
  qed
  then show "loop_frame w w'" and "oracles e' = oracles e" and "GatewaysRunning m' = GatewaysRunning m"
    by blast+
qed

text \<open>A step of the flusher.\<close>

lemma flush_frame:
  assumes "Flush_iteration False False (w_buffer w, w_publisher w, m, e) = Return (Flush_loops (b, p, m', e'))"
  shows "loop_frame w (w\<lparr>w_buffer := b, w_publisher := p\<rparr>)" and "oracles e' = oracles e"
    and "GatewaysRunning m' = GatewaysRunning m"
proof -
  from assms obtain x xs where x: "mb_contents (w_buffer w) = x # xs" "pub_js (w_publisher w)" "\<not> (False \<and> False)"
    by (rule Flush_iteration_loopsD)
  note eq = Flush_iteration_loops [OF x, of m e]
  have b: "b = (w_buffer w)\<lparr>mb_ch := Chan (mb_capacity (w_buffer w)) xs\<rparr>" and e: "e' = env_tick e"
    and m: "GatewaysRunning m' = GatewaysRunning m"
    using assms unfolding eq by (auto simp: Let_def)
  show "loop_frame w (w\<lparr>w_buffer := b, w_publisher := p\<rparr>)"
    using x(1) by (auto simp: loop_frame_def worker_identity_def worker_ok_def b buffer_ok_def chan_ok_def)
  show "oracles e' = oracles e" and "GatewaysRunning m' = GatewaysRunning m" using e m by simp_all
qed

subsection \<open>The store under the handlers\<close>

context row_store
begin

text \<open>A step of the store that keeps its invariant, its sensors and who its gateways are.\<close>

definition store_step :: "'s \<Rightarrow> 's \<Rightarrow> bool" where
  "store_step s s' \<longleftrightarrow> (ok s \<longrightarrow> ok s' \<and> same_gateways (gws s) (gws s') \<and> sns s' = sns s)"

lemma store_step_refl: "store_step s s"
  by (simp add: store_step_def same_gateways_refl)

lemma store_step_trans: "store_step s s1 \<Longrightarrow> store_step s1 s2 \<Longrightarrow> store_step s s2"
  unfolding store_step_def by (metis same_gateways_trans)

lemma update_store_step:
  assumes "ok s \<Longrightarrow> ok s' \<and> sns s' = sns s \<and> (case x of Inl _ \<Rightarrow> gws s' = gws s
    | Inr _ \<Rightarrow> \<exists>g. gws s i = Some g \<and> gws s' = (gws s)(i \<mapsto> f g))"
    and "\<And>g. gw_ManagementGatewayID (f g) = gw_ManagementGatewayID g \<and> gw_TenantID (f g) = gw_TenantID g"
  shows "store_step s s'"
proof (cases x)
  case (Inl e)
  then show ?thesis using assms(1) by (simp add: store_step_def same_gateways_refl)
next
  case (Inr v)
  show ?thesis unfolding store_step_def
  proof
    assume "ok s"
    from assms(1) [OF this] Inr obtain g where "ok s'" "sns s' = sns s" "gws s i = Some g" "gws s' = (gws s)(i \<mapsto> f g)"
      by auto
    with same_gateways_update [of "gws s" i g "f g"] assms(2)
    show "ok s' \<and> same_gateways (gws s) (gws s') \<and> sns s' = sns s" by simp
  qed
qed

lemma UpdateStatus_step: "op_UpdateStatus ops i st s = (x, s') \<Longrightarrow> store_step s s'"
  by (rule update_store_step [where f = "\<lambda>g. g\<lparr>gw_Status := st\<rparr>"], erule (1) UpdateStatus, simp)

lemma UpdateFrequency_step: "op_UpdateFrequency ops i n s = (x, s') \<Longrightarrow> store_step s s'"
  by (rule update_store_step [where f = "\<lambda>g. g\<lparr>gw_SendFrequencyMs := n\<rparr>"], erule (1) UpdateFrequency, simp)

lemma UpdateFirmware_step: "op_UpdateFirmwareVersion ops i v s = (x, s') \<Longrightarrow> store_step s s'"
  by (rule update_store_step [where f = "\<lambda>g. g\<lparr>gw_FirmwareVersion := v\<rparr>"], erule (1) UpdateFirmwareVersion, simp)

lemmas updates_step = UpdateStatus_step UpdateFrequency_step UpdateFirmware_step

lemma processIncoming_store:
  assumes "processIncomingCommand ops cmd (w, s) = (ans, w', s')"
  shows "store_step s s'"
proof -
  have "store_step s s'" if "handleConfigUpdateCommand ops p (w, s) = (ans, w', s')" for p
    using that
    by (auto simp: handleConfigUpdateCommand_def Let_def store_step_refl
        intro: updates_step store_step_trans split: sum.splits option.splits prod.splits if_splits)
  moreover have "store_step s s'" if "handleFirmwarePushCommand ops p (w, s) = (ans, w', s')" for p
    using that
    by (auto simp: handleFirmwarePushCommand_def Let_def store_step_refl
        intro: updates_step split: sum.splits prod.splits if_splits)
  ultimately show ?thesis
    using assms by (auto simp: processIncomingCommand_def store_step_refl split: if_splits)
qed

lemma answer_store:
  assumes "answer L ops cmd (w, s, e) = Return (w', s', e')"
  shows "store_step s s'"
proof -
  obtain ans w1 s1 where p: "processIncomingCommand ops cmd (w, s) = (ans, w1, s1)" by (metis prod_cases3)
  with assms have "s' = s1" by (auto simp: answer_def go_bind_eq_Return)
  then show ?thesis using processIncoming_store [OF p] by simp
qed

lemma answer_all_store:
  "answer_all L ops cmds (w, s, e) = Return (w', s', e') \<Longrightarrow> store_step s s'"
proof (induction cmds arbitrary: w s e)
  case (Cons cmd cmds)
  then obtain w1 s1 e1 where a: "answer L ops cmd (w, s, e) = Return (w1, s1, e1)"
    and b: "answer_all L ops cmds (w1, s1, e1) = Return (w', s', e')"
    by (auto simp: go_bind_eq_Return)
  from store_step_trans [OF answer_store [OF a] Cons.IH [OF b]] show ?case .
qed (simp add: store_step_refl)

lemma checkAnomalyExpiry_store:
  assumes "checkAnomalyExpiry L ops (w, s, e) = Return (w', s', e')"
  shows "store_step s s'"
  using assms by (cases rule: checkAnomalyExpiry_cases) (auto simp: store_step_refl dest: answer_all_store)

lemma loop_case_store:
  assumes "sensorLoop_case L ops c (w, s, m, e) = Some (Return (w', s', m', e'))"
  shows "store_step s s'"
proof (cases c)
  case Config_case
  with assms have "keeps w w' \<and> s' = s \<and> m' = m \<and> e' = e"
    by (intro config_case_keeps [of L ops]) simp
  then show ?thesis by (simp add: store_step_refl)
next
  case Command_case
  then obtain cmd ch where "handleIncomingCommand L ops cmd (w\<lparr>w_commandCh := ch\<rparr>, s, e) = Return (w', s', e')"
    using assms by (auto simp: sensorLoop_case_def go_bind_eq_Return split: option.splits)
  then show ?thesis
    by (auto simp: handleIncomingCommand_def store_step_refl split: if_splits dest: answer_store)
next
  case Tick_case
  then have t: "processTick L ops (w, s, m, e) = Return (w', s', m', e')"
    using assms by (auto simp: sensorLoop_case_def split: if_splits)
  then obtain w1 e1 w2 e2 where "drainControlChannels (w, e) = Return (w1, e1)"
    and c: "checkAnomalyExpiry L ops (w1, s, e1) = Return (w2, s', e2)"
    and "publishSensorData L (w2, m, e2) = Return (w', m', e')" by (rule processTick_parts)
  from c show ?thesis by (rule checkAnomalyExpiry_store)
qed

end

subsection \<open>The steps of the registry\<close>

text \<open>
  Calls of the API, decommission events, the shutdown, and what goes on in the workers: their
  loops, their flushers, the pumps that hand them commands, the handlers of their subscribers, and the
  passage of time. A call that
  panics is not a step. A deletion is a step of its own below: when the store fails, it alone takes a
  worker out without counting it down.
\<close>

inductive registry_step ::
  "'x libs_scheme \<Rightarrow> 's store_ops \<Rightarrow> 's GatewayRegistry \<Rightarrow> 's GatewayRegistry \<Rightarrow> bool" for L ops where
  step_create: "CreateAndStart L ops req r = Return (x, r') \<Longrightarrow> registry_step L ops r r'"
| step_start: "registry_Start L ops u r = Return (y, r') \<Longrightarrow> registry_step L ops r r'"
| step_stop: "registry_Stop L ops u r = (y, r') \<Longrightarrow> registry_step L ops r r'"

| step_list: "registry_ListGateways ops r = (gs, r') \<Longrightarrow> registry_step L ops r r'"
| step_get: "registry_GetGateway L ops u r = (x, r') \<Longrightarrow> registry_step L ops r r'"
| step_add_sensor: "AddSensor L ops u n r = (z, r') \<Longrightarrow> registry_step L ops r r'"
| step_list_sensors: "registry_ListSensors L ops u r = (ns, r') \<Longrightarrow> registry_step L ops r r'"
| step_delete_sensor: "registry_DeleteSensor ops u r = (y, r') \<Longrightarrow> registry_step L ops r r'"
| step_config: "UpdateConfig L u cfg r = (y, r') \<Longrightarrow> registry_step L ops r r'"
| step_anomaly: "InjectGatewayAnomaly L u a r = (y, r') \<Longrightarrow> registry_step L ops r r'"
| step_outlier: "InjectSensorOutlier L ops u v r = (y, r') \<Longrightarrow> registry_step L ops r r'"
| step_decommission: "registry_step L ops r (HandleDecommission L ops tenant i r)"
| step_shutdown: "registry_step L ops r (StopAll r)"
| step_loop:
  "map_of (rg_workers r) u = Some w \<Longrightarrow> w_isRunning w \<Longrightarrow>
   sensorLoop_case L ops c (w, rg_store r, rg_metrics r, rg_env r) = Some (Return (w', s', m', e')) \<Longrightarrow>
   registry_step L ops r (r\<lparr>rg_workers := map_put u w' (rg_workers r), rg_store := s', rg_metrics := m', rg_env := e'\<rparr>)"
| step_flush:
  "map_of (rg_workers r) u = Some w \<Longrightarrow>
   Flush_iteration False False (w_buffer w, w_publisher w, rg_metrics r, rg_env r)
     = Return (Flush_loops (b, p, m', e')) \<Longrightarrow>
   registry_step L ops r (r\<lparr>rg_workers := map_put u (w\<lparr>w_buffer := b, w_publisher := p\<rparr>) (rg_workers r),
     rg_metrics := m', rg_env := e'\<rparr>)"
| step_pump:
  "map_of (rg_workers r) u = Some w \<Longrightarrow> w_pumpRunning w \<Longrightarrow> try_send cmd (w_commandCh w) = Some ch \<Longrightarrow>
   registry_step L ops r (r\<lparr>rg_workers := map_put u (w\<lparr>w_commandCh := ch\<rparr>) (rg_workers r)\<rparr>)"
| step_message:
  "map_of (rg_workers r) u = Some w \<Longrightarrow> sb_ackSubject s = ack_subject L w \<Longrightarrow>
   handleMsg L data (s, w_publisher w, rg_env r) = Return (d, s', p, e') \<Longrightarrow>
   registry_step L ops r (r\<lparr>rg_workers := map_put u (w\<lparr>w_publisher := p\<rparr>) (rg_workers r), rg_env := e'\<rparr>)"
| step_time: "registry_step L ops r (r\<lparr>rg_env := (rg_env r)\<lparr>env_pos := k\<rparr>\<rparr>)"

inductive registry_reachable ::
  "'x libs_scheme \<Rightarrow> 's store_ops \<Rightarrow> 's GatewayRegistry \<Rightarrow> 's GatewayRegistry \<Rightarrow> bool" for L ops r0 where
  registry_start: "registry_reachable L ops r0 r0"
| registry_more: "registry_reachable L ops r0 r \<Longrightarrow> registry_step L ops r r' \<Longrightarrow> registry_reachable L ops r0 r'"
| registry_deletion:
  "registry_reachable L ops r0 r \<Longrightarrow> registry_Delete L ops u r = (y, r') \<Longrightarrow> registry_reachable L ops r0 r'"

subsection \<open>Every operation keeps the invariant\<close>

lemma stop_worker_facts:
  assumes "stop_worker w r = (w', r')"
  shows "rg_workers r' = rg_workers r" "rg_store r' = rg_store r" "rg_cfg r' = rg_cfg r" "rg_env r' = rg_env r"
    "rg_metrics r' = rg_metrics r" "w_gateway w' = w_gateway w"
    "\<not> w_isRunning w'" "\<not> w_pumpRunning w'"
    "worker_registered G u w \<Longrightarrow> worker_registered G u w' \<and> w_connClosed w' \<and>
       rg_conns r' = rg_conns r - (if w_connClosed w then 0 else 1) \<and>
       rg_subs r' = rg_subs r - (if w_pumpRunning w then 1 else 0)"
  using assms
  by (auto simp: stop_worker_def worker_Stop_def Let_def worker_registered_def worker_ok_def split: if_splits)

lemma registry_ok_worker:
  "registry_holds H G ok r \<Longrightarrow> map_of (rg_workers r) u = Some w \<Longrightarrow> worker_registered (G (rg_store r)) u w"
  by (simp add: registry_holds_def)

lemma registry_ok_distinct: "registry_holds H G ok r \<Longrightarrow> distinct (map fst (rg_workers r))"
  by (simp add: registry_holds_def)

text \<open>Stopping a registered worker in place.\<close>

lemma registry_ok_stopped:
  assumes "registry_holds H G ok r" and "map_of (rg_workers r) u = Some w" and "stop_worker w r = (w', r')"
  shows "registry_holds H G ok (r'\<lparr>rg_workers := map_put u w' (rg_workers r')\<rparr>)"
proof -
  note f = stop_worker_facts [OF assms(3)]
  note reg = registry_ok_worker [OF assms(1,2)]
  note d = registry_ok_distinct [OF assms(1)]
  have "rg_conns r' = held_conns H + open_conns (map_put u w' (rg_workers r))"
    "rg_subs r' = held_subs H + open_subs (map_put u w' (rg_workers r))"
    using open_put_old [OF d assms(2), of w'] f(8) f(9) [OF reg] assms(1)
    by (auto simp: registry_holds_def split: if_splits)
  then show ?thesis
    using assms(1) f f(9) [OF reg] open_put_old(3) [OF d assms(2), of w'] distinct_map_put [OF d]
    by (simp add: registry_holds_def rows_held_put [OF assms(2)])
qed

subsection \<open>What a call holds that has taken a worker out of the map\<close>

definition held_both :: "held \<Rightarrow> held \<Rightarrow> held" where
  "held_both H K = \<lparr>held_conns = held_conns H + held_conns K, held_subs = held_subs H + held_subs K,
     held_gauge = held_gauge H + held_gauge K, held_rows = held_rows H @ held_rows K,
     held_exact = (held_exact H \<or> held_exact K)\<rparr>"

lemma held_both_simps [simp]:
  "held_conns (held_both H K) = held_conns H + held_conns K" "held_subs (held_both H K) = held_subs H + held_subs K"
  "held_gauge (held_both H K) = held_gauge H + held_gauge K" "held_rows (held_both H K) = held_rows H @ held_rows K"
  "held_exact (held_both H K) \<longleftrightarrow> held_exact H \<or> held_exact K"
  "held_both nothing_held K = K" "held_both H nothing_held = H"
  "held_both (held_both H K) J = held_both H (held_both K J)"
  by (simp_all add: held_both_def)

lemma rows_held_append:
  "rows_held G ws (gs @ hs) \<longleftrightarrow> rows_held G ws gs \<and> rows_held G ws hs \<and>
     gw_ManagementGatewayID ` set gs \<inter> gw_ManagementGatewayID ` set hs = {}"
  by (auto simp: rows_held_def)

definition held_worker :: "GatewayWorker \<Rightarrow> held" where
  "held_worker w = \<lparr>held_conns = (if w_connClosed w then 0 else 1), held_subs = (if w_pumpRunning w then 1 else 0),
     held_gauge = - 1, held_rows = [w_gateway w], held_exact = False\<rparr>"

definition held_only_row :: "int \<Rightarrow> SimGateway \<Rightarrow> held" where
  "held_only_row d gw = \<lparr>held_conns = 0, held_subs = 0, held_gauge = d, held_rows = [gw], held_exact = False\<rparr>"

definition held_only_gauge :: "int \<Rightarrow> held" where
  "held_only_gauge d = \<lparr>held_conns = 0, held_subs = 0, held_gauge = d, held_rows = [], held_exact = False\<rparr>"

lemmas held_defs = held_worker_def held_only_row_def held_only_gauge_def

text \<open>A worker whose flags agree; a registered worker is one with its row.\<close>

definition worker_sound :: "GatewayWorker \<Rightarrow> bool" where
  "worker_sound w \<longleftrightarrow> worker_ok w \<and> w_publisherClosed w = w_connClosed w \<and>
     (\<not> w_isRunning w \<longrightarrow> w_connClosed w \<and> \<not> w_pumpRunning w)"

lemma worker_registered_iff:
  "worker_registered G u w \<longleftrightarrow> worker_sound w \<and> gw_ManagementGatewayID (w_gateway w) = u \<and> has_row G (w_gateway w)"
  by (auto simp: worker_registered_def worker_sound_def has_row_def)

lemma holds_taken:
  assumes "registry_holds H G ok r" and "map_of (rg_workers r) u = Some w"
  shows "registry_holds (held_both (held_worker w) H) G ok (r\<lparr>rg_workers := map_del u (rg_workers r)\<rparr>)"
    and "worker_sound w" and "gw_ManagementGatewayID (w_gateway w) = u"
proof -
  note reg = registry_ok_worker [OF assms, unfolded worker_registered_iff]
  note d = registry_ok_distinct [OF assms(1)]
  from reg show "worker_sound w" "gw_ManagementGatewayID (w_gateway w) = u" by simp_all
  have u: "u \<in> fst ` set (rg_workers r)" using map_of_SomeD [OF assms(2)] by force
  have "rows_held (G (rg_store r)) (map_del u (rg_workers r)) (w_gateway w # held_rows H)"
    using assms(1) reg u by (auto simp: registry_holds_def rows_held_def)
  then show "registry_holds (held_both (held_worker w) H) G ok (r\<lparr>rg_workers := map_del u (rg_workers r)\<rparr>)"
    using assms(1) open_del [OF d assms(2)] distinct_map_del [OF d]
    by (auto simp: registry_holds_def held_defs split: if_splits)
qed

lemma holds_stopped:
  assumes "registry_holds (held_both (held_worker w) H) G ok r" and "worker_sound w" and "stop_worker w r = (w', r')"
  shows "registry_holds (held_both (held_only_row (- 1) (w_gateway w)) H) G ok r'"
  using assms
  by (auto simp: registry_holds_def held_defs stop_worker_def worker_Stop_def worker_sound_def Let_def split: if_splits)

lemma holds_gauge:
  assumes "registry_holds (held_both (held_only_gauge d) H) G ok r"
  shows "registry_holds (held_both (held_only_gauge (d - k)) H) G ok (inc_running k r)"
  using assms by (simp add: registry_holds_def held_defs)

lemma holds_gauge_paid:
  "d \<le> 0 \<Longrightarrow> \<not> held_exact H \<Longrightarrow> registry_holds (held_both (held_only_gauge d) H) G ok r \<Longrightarrow> registry_holds H G ok r"
  by (simp add: registry_holds_def held_defs)

lemma holds_gauge_even: "registry_holds (held_both (held_only_gauge 0) H) G ok r \<Longrightarrow> registry_holds H G ok r"
  by (simp add: registry_holds_def held_defs)

lemma registry_ok_workers_update:
  "rg_workers r = ws \<Longrightarrow> r\<lparr>rg_workers := ws\<rparr> = r"
  by (cases r) simp

context relational_store
begin

lemma registry_ok_read:
  assumes "registry_holds H gws ok r" and "on_store f r = (x, r')" and "ok (rg_store r')"
    and "same_gateways (gws (rg_store r)) (gws (rg_store r'))"
  shows "registry_holds H gws ok r'"
  by (rule registry_ok_store [OF assms(1,3,4)]) (use on_storeD [OF assms(2)] in simp_all)

lemma ok_store: "registry_holds H gws ok r \<Longrightarrow> ok (rg_store r)"
  by (simp add: registry_holds_def)

lemma UpdateStatus_ok:
  assumes "registry_holds H gws ok r" and "on_store (op_UpdateStatus ops i st) r = (x, r')"
  shows "registry_holds H gws ok r'"
  using registry_ok_read [OF assms] UpdateStatus_frame [OF ok_store [OF assms(1)] on_storeD(1) [OF assms(2)]]
  by blast

lemma reads_keep:
  assumes "registry_holds H gws ok r" and "on_store f r = (x, r')"
    and "\<And>y s'. f (rg_store r) = (y, s') \<Longrightarrow> ok s' \<and> gws s' = gws (rg_store r)"
  shows "registry_holds H gws ok r'"
  using registry_ok_read [OF assms(1,2)] assms(3) [OF on_storeD(1) [OF assms(2)]] same_gateways_refl by simp

lemma reads_ok:
  assumes "registry_holds H gws ok r"
  shows "on_store (op_GetGatewayByManagementID ops u) r = (x, r') \<Longrightarrow> registry_holds H gws ok r'"
    and "on_store (op_ListGateways ops) r = (xs, r') \<Longrightarrow> registry_holds H gws ok r'"
    and "on_store (op_ListSensors ops i) r = (ns, r') \<Longrightarrow> registry_holds H gws ok r'"
    and "on_store (op_GetSensorBySensorID ops u) r = (n, r') \<Longrightarrow> registry_holds H gws ok r'"
    and "on_store (op_CreateSensor ops sn) r = (k, r') \<Longrightarrow> registry_holds H gws ok r'"
    and "on_store (op_DeleteSensor ops i) r = (y, r') \<Longrightarrow> registry_holds H gws ok r'"
proof -
  note okr = ok_store [OF assms]
  show "on_store (op_GetGatewayByManagementID ops u) r = (x, r') \<Longrightarrow> registry_holds H gws ok r'"
    by (erule reads_keep [OF assms]) (use GetGatewayByManagementID [OF okr] in blast)
  show "on_store (op_ListGateways ops) r = (xs, r') \<Longrightarrow> registry_holds H gws ok r'"
    by (erule reads_keep [OF assms]) (use ListGateways [OF okr] in blast)
  show "on_store (op_ListSensors ops i) r = (ns, r') \<Longrightarrow> registry_holds H gws ok r'"
    by (erule reads_keep [OF assms]) (use ListSensors [OF okr] in blast)
  show "on_store (op_GetSensorBySensorID ops u) r = (n, r') \<Longrightarrow> registry_holds H gws ok r'"
    by (erule reads_keep [OF assms]) (use GetSensorBySensorID [OF okr] in blast)
  show "on_store (op_CreateSensor ops sn) r = (k, r') \<Longrightarrow> registry_holds H gws ok r'"
    by (erule reads_keep [OF assms]) (use CreateSensor [OF okr] in blast)
  show "on_store (op_DeleteSensor ops i) r = (y, r') \<Longrightarrow> registry_holds H gws ok r'"
    by (erule reads_keep [OF assms]) (use DeleteSensor [OF okr] in blast)
qed

lemma create_ok:
  assumes "registry_holds H gws ok r" and "CreateAndStart L ops req r = Return (x, r')"
  shows "registry_holds H gws ok r'"
proof (cases x)
  case (Inl e)
  then show ?thesis using no_trace_ok CreateAndStart_failure assms by blast
next
  case (Inr gw)
  then show ?thesis using CreateAndStart_success(1) assms by blast
qed

lemma start_ok:
  assumes "registry_holds H gws ok r" and "registry_Start L ops u r = Return (y, r')"
  shows "registry_holds H gws ok r'"
proof (cases "map_of (rg_workers r) u")
  case None
  then show ?thesis using assms by (simp add: registry_Start_def)
next
  case (Some w)
  show ?thesis
  proof (cases "w_isRunning w")
    case True
    then show ?thesis using assms Some by (simp add: registry_Start_def worker_IsRunning_def)
  next
    case False
    then obtain w' where w': "worker_Start w = Return w'"
      and u: "on_store (op_UpdateStatus ops (gw_ID (w_gateway w)) Online)
        (r\<lparr>rg_workers := map_put u w' (rg_workers r)\<rparr>) = (y, r')"
      using assms(2) Some by (auto simp: registry_Start_def worker_IsRunning_def go_bind_eq_Return)
    from w' False have "w' = w\<lparr>w_isRunning := True, w_ticker := w_ticker w'\<rparr>"
      by (auto simp: worker_Start_def Let_def go_bind_eq_Return split: if_splits)
    then obtain t where t: "w' = w\<lparr>w_isRunning := True, w_ticker := t\<rparr>" by blast
    have "registry_holds H gws ok (r\<lparr>rg_workers := map_put u w' (rg_workers r)\<rparr>)"
      by (rule registry_ok_put [OF assms(1) Some]) (auto simp: t worker_registered_def worker_ok_def)
    then show ?thesis by (rule UpdateStatus_ok [OF _ u])
  qed
qed

lemma stop_ok:
  assumes "registry_holds H gws ok r" and "registry_Stop L ops u r = (y, r')"
  shows "registry_holds H gws ok r'"
proof (cases "map_of (rg_workers r) u")
  case None
  then show ?thesis using assms by (simp add: registry_Stop_def)
next
  case (Some w)
  obtain w' r1 where s: "stop_worker w r = (w', r1)" by force
  with assms(2) Some have "on_store (op_UpdateStatus ops (gw_ID (w_gateway w)) Offline)
      (r1\<lparr>rg_workers := map_put u w' (rg_workers r1)\<rparr>) = (y, r')"
    by (simp add: registry_Stop_def)
  then show ?thesis by (rule UpdateStatus_ok [OF registry_ok_stopped [OF assms(1) Some s]])
qed

text \<open>The row of a held gateway may go: no worker and no other call is about it.\<close>

lemma holds_erased:
  assumes "registry_holds (held_both (held_only_row d g) H) gws ok r"
    and "on_store (op_DeleteGateway ops (gw_ID g)) r = (x, r')"
  shows "registry_holds (held_both (held_only_gauge d) H) gws ok r'"
proof -
  note o = on_storeD [OF assms(2)]
  note okr = ok_store [OF assms(1)]
  note del = DeleteGateway [OF okr o(1)]
  have held: "rows_held (gws (rg_store r)) (rg_workers r) (g # held_rows H)"
    using assms(1) by (simp add: registry_holds_def held_defs)
  then obtain h where h: "gws (rg_store r) (gw_ID g) = Some h" "gw_ManagementGatewayID h = gw_ManagementGatewayID g"
    by (auto simp: rows_held_def has_row_def)
  have keep: "gws (rg_store r') i = gws (rg_store r) i" if "i \<noteq> gw_ID g" for i
    using del that by (cases x) auto
  have other: "has_row (gws (rg_store r')) k"
    if "has_row (gws (rg_store r)) k" "gw_ManagementGatewayID k \<noteq> gw_ManagementGatewayID g" for k
  proof -
    have "gw_ID k \<noteq> gw_ID g" using that h by (auto simp: has_row_def)
    with that(1) keep show ?thesis by (simp add: has_row_def)
  qed
  have "worker_registered (gws (rg_store r')) u w" if m: "map_of (rg_workers r) u = Some w" for u w
  proof -
    note reg = registry_ok_worker [OF assms(1) m, unfolded worker_registered_iff]
    have "u \<noteq> gw_ManagementGatewayID g" using held map_of_SomeD [OF m] by (force simp: rows_held_def)
    with reg other show ?thesis by (auto simp: worker_registered_iff)
  qed
  moreover have "has_row (gws (rg_store r')) k" if "k \<in> set (held_rows H)" for k
    using that held by (intro other) (simp_all add: rows_held_def list_all_iff, metis imageI)
  then have "rows_held (gws (rg_store r')) (rg_workers r) (held_rows H)"
    using held by (simp add: rows_held_def list_all_iff)
  moreover have "ok (rg_store r')" using del by simp
  ultimately show ?thesis using assms(1) o(2-7) by (simp add: registry_holds_def held_defs)
qed

lemma removed_ok:
  assumes "registry_holds H gws ok r" and "map_of (rg_workers r) u = Some w"
    and "stop_worker w (r\<lparr>rg_workers := map_del u (rg_workers r)\<rparr>) = (w', r1)"
    and "on_store (op_DeleteGateway ops (gw_ID (w_gateway w))) r1 = (x, r2)"
  shows "\<not> held_exact H \<Longrightarrow> registry_holds H gws ok r2" and "registry_holds H gws ok (inc_running (- 1) r2)"
proof -
  note t = holds_taken [OF assms(1,2)]
  note e = holds_erased [OF holds_stopped [OF t(1,2) assms(3)] assms(4)]
  show "registry_holds H gws ok r2" if "\<not> held_exact H" by (rule holds_gauge_paid [OF _ that e]) simp
  show "registry_holds H gws ok (inc_running (- 1) r2)"
    using holds_gauge [OF e, of "- 1"] by - (rule holds_gauge_even, simp)
qed

lemma delete_ok:
  assumes "registry_holds H gws ok r" and "registry_Delete L ops u r = (y, r')" and "\<not> held_exact H"
  shows "registry_holds H gws ok r'"
proof (cases "map_of (rg_workers r) u")
  case None
  then show ?thesis using assms by (simp add: registry_Delete_def)
next
  case (Some w)
  obtain w' r1 where s: "stop_worker w (r\<lparr>rg_workers := map_del u (rg_workers r)\<rparr>) = (w', r1)" by force
  obtain x r2 where d: "on_store (op_DeleteGateway ops (gw_ID (w_gateway w))) r1 = (x, r2)" by force
  have "r' = r2 \<or> r' = inc_running (- 1) r2"
    using assms(2) Some s d by (cases x) (auto simp: registry_Delete_def Let_def)
  then show ?thesis using removed_ok [OF assms(1) Some s d] assms(3) by auto
qed

lemma decommission_ok:
  assumes "registry_holds H gws ok r"
  shows "registry_holds H gws ok (HandleDecommission L ops tenant i r)"
proof (cases "uuid_Parse L i")
  case None
  then show ?thesis using assms by (simp add: HandleDecommission_def)
next
  case (Some u)
  show ?thesis
  proof (cases "map_of (rg_workers r) u")
    case None
    then show ?thesis using assms Some by (simp add: HandleDecommission_def)
  next
    case w: (Some w)
    obtain w' r1 where s: "stop_worker w (r\<lparr>rg_workers := map_del u (rg_workers r)\<rparr>) = (w', r1)" by force
    obtain x r2 where d: "on_store (op_DeleteGateway ops (gw_ID (w_gateway w))) r1 = (x, r2)" by force
    show ?thesis
      using removed_ok [OF assms w s d] assms Some w s d by (auto simp: HandleDecommission_def)
  qed
qed

lemma stamp_sensor_frame:
  "stamp_sensor u gw n r = (n', r') \<Longrightarrow> r' = r\<lparr>rg_env := env_tick (env_tick (rg_env r))\<rparr> \<and>
     sn_GatewayID n' = gw_ID gw \<and> sn_ManagementGatewayID n' = u \<and> sn_Type n' = sn_Type n \<and>
     sn_MinRange n' = sn_MinRange n \<and> sn_MaxRange n' = sn_MaxRange n \<and> sn_Algorithm n' = sn_Algorithm n"
  by (auto simp: stamp_sensor_def uuid_New_def registry_Now_def clock_Now_eq)

lemma AttachSensor_same:
  assumes "AttachSensor n gen w = (a, w')"
  shows "w_gateway w' = w_gateway w" "w_publisherClosed w' = w_publisherClosed w"
    "w_connClosed w' = w_connClosed w" "w_pumpRunning w' = w_pumpRunning w" "w_isRunning w' = w_isRunning w"
  using assms by (auto simp: AttachSensor_def split: if_splits)

lemma attach_to_worker_ok:
  assumes "registry_holds H gws ok r" and "attach_to_worker u n r = (z, r')"
  shows "registry_holds H gws ok r'"
proof (cases "map_of (rg_workers r) u")
  case None
  then show ?thesis using assms by (simp add: attach_to_worker_def)
next
  case (Some w)
  obtain gen e where f: "factory_New n (rg_env r) = (gen, e)" by force
  obtain a w' where at: "AttachSensor n gen w = (a, w')" by force
  have ok1: "registry_holds H gws ok (r\<lparr>rg_env := e\<rparr>)"
    by (rule registry_ok_env [OF assms(1) factory_New_frame [OF f]])
  have "worker_registered G u w \<Longrightarrow> worker_registered G u w'" for G
    using AttachSensor_ok [OF at] AttachSensor_same [OF at] by (simp add: worker_registered_def)
  then have "registry_holds H gws ok ((r\<lparr>rg_env := e\<rparr>)\<lparr>rg_workers := map_put u w' (rg_workers (r\<lparr>rg_env := e\<rparr>))\<rparr>)"
    by (intro registry_ok_put [OF ok1]) (simp_all add: Some AttachSensor_same [OF at])
  then have "registry_holds H gws ok (r\<lparr>rg_env := e, rg_workers := map_put u w' (rg_workers r)\<rparr>)"
    by simp
  with ok1 show ?thesis
    using assms(2) Some f at by (cases a) (auto simp: attach_to_worker_def)
qed

lemma add_sensor_ok:
  assumes "registry_holds H gws ok r" and "AddSensor L ops u n r = (z, r')"
  shows "registry_holds H gws ok r'"
proof (cases "sn_MaxRange n \<le> sn_MinRange n")
  case True
  then show ?thesis using assms by (simp add: AddSensor_def)
next
  case False
  obtain x r1 where g: "on_store (op_GetGatewayByManagementID ops u) r = (x, r1)" by force
  note ok1 = reads_ok(1) [OF assms(1) g]
  show ?thesis
  proof (cases x)
    case (Inl e)
    then show ?thesis using assms(2) False g ok1 by (simp add: AddSensor_def)
  next
    case (Inr gw)
    obtain n' r2 where st: "stamp_sensor u gw n r1 = (n', r2)" by force
    have ok2: "registry_holds H gws ok r2"
      using registry_ok_env [OF ok1, of "env_tick (env_tick (rg_env r1))"] stamp_sensor_frame [OF st] by simp
    obtain y r3 where c: "on_store (op_CreateSensor ops n') r2 = (y, r3)" by force
    show ?thesis
      using assms(2) False g Inr st c reads_ok(5) [OF ok2 c] attach_to_worker_ok [where r = r3]
      by (cases y) (auto simp: AddSensor_def)
  qed
qed

lemma list_sensors_ok:
  assumes "registry_holds H gws ok r" and "registry_ListSensors L ops u r = (ns, r')"
  shows "registry_holds H gws ok r'"
proof -
  obtain x r1 where g: "on_store (op_GetGatewayByManagementID ops u) r = (x, r1)" by force
  note ok1 = reads_ok(1) [OF assms(1) g]
  show ?thesis
  proof (cases x)
    case (Inl e)
    then show ?thesis using assms(2) g ok1 by (simp add: registry_ListSensors_def)
  next
    case (Inr gw)
    obtain y r2 where l: "on_store (op_ListSensors ops (gw_ID gw)) r1 = (y, r2)" by force
    show ?thesis using assms(2) g Inr l reads_ok(3) [OF ok1 l]
      by (cases y) (auto simp: registry_ListSensors_def)
  qed
qed

lemma delete_sensor_ok:
  assumes "registry_holds H gws ok r" and "registry_DeleteSensor ops u r = (y, r')"
  shows "registry_holds H gws ok r'"
proof -
  obtain x r1 where g: "on_store (op_GetSensorBySensorID ops u) r = (x, r1)" by force
  note ok1 = reads_ok(4) [OF assms(1) g]
  show ?thesis
    using assms(2) g ok1 reads_ok(6) [OF ok1] by (cases x) (auto simp: registry_DeleteSensor_def)
qed

lemma channel_ok:
  assumes "registry_holds H gws ok r" and "map_of (rg_workers r) u = Some w" and "keeps w w'"
  shows "registry_holds H gws ok (r\<lparr>rg_workers := map_put u w' (rg_workers r)\<rparr>)"
  using registry_ok_put [OF assms(1,2), of w'] worker_registered_keeps [OF _ assms(3)] assms(3)
  by (auto simp: keeps_def worker_identity_def)

lemma update_config_ok:
  assumes "registry_holds H gws ok r" and "UpdateConfig L u cfg r = (y, r')"
  shows "registry_holds H gws ok r'"
  using assms channel_ok [OF assms(1) _ channel_steps_keep(2)]
  by (auto simp: UpdateConfig_def split: option.splits)

lemma anomaly_ok:
  assumes "registry_holds H gws ok r" and "InjectGatewayAnomaly L u a r = (y, r')"
  shows "registry_holds H gws ok r'"
  using assms channel_ok [OF assms(1) _ channel_steps_keep(3)]
  by (auto simp: InjectGatewayAnomaly_def split: option.splits)

lemma outlier_ok:
  assumes "registry_holds H gws ok r" and "InjectSensorOutlier L ops u v r = (y, r')"
  shows "registry_holds H gws ok r'"
proof -
  obtain x r1 where g: "on_store (op_GetSensorBySensorID ops u) r = (x, r1)" by force
  note ok1 = reads_ok(4) [OF assms(1) g]
  show ?thesis
  proof (cases x)
    case (Inl e)
    then show ?thesis using assms(2) g ok1 by (simp add: InjectSensorOutlier_def)
  next
    case (Inr n)
    show ?thesis
    proof (cases "List.find (\<lambda>(_, w). gw_ID (w_gateway w) = sn_GatewayID n) (rg_workers r1)")
      case None
      then show ?thesis using assms(2) g ok1 Inr by (simp add: InjectSensorOutlier_def)
    next
      case (Some p)
      obtain k w where p: "p = (k, w)" by (cases p)
      have "(k, w) \<in> set (rg_workers r1)" using find_Some_iff_first [OF Some] p by simp
      then have m: "map_of (rg_workers r1) k = Some w"
        using registry_ok_distinct [OF ok1] by (simp add: map_of_eq_Some_iff)
      show ?thesis
        using assms(2) g ok1 Inr Some p channel_ok [OF ok1 m channel_steps_keep(4)]
        by (auto simp: InjectSensorOutlier_def split: option.splits)
    qed
  qed
qed

lemma stop_each_ok:
  "registry_holds H gws ok r \<Longrightarrow> \<forall>(u, w) \<in> set ws. map_of (rg_workers r) u = Some w \<Longrightarrow> distinct (map fst ws) \<Longrightarrow>
   registry_holds H gws ok (stop_each ws r)"
proof (induction ws arbitrary: r)
  case (Cons p ws)
  obtain u w where p: "p = (u, w)" by (cases p)
  obtain w' r1 where s: "stop_worker w r = (w', r1)" by force
  have m: "map_of (rg_workers r) u = Some w" using Cons.prems(2) p by simp
  note ok1 = registry_ok_stopped [OF Cons.prems(1) m s]
  have "\<forall>(v, x) \<in> set ws. map_of (rg_workers (r1\<lparr>rg_workers := map_put u w' (rg_workers r1)\<rparr>)) v = Some x"
    using Cons.prems(2,3) stop_worker_facts(1) [OF s] p by (fastforce simp: image_iff)
  from Cons.IH [OF ok1 this] Cons.prems(3) show ?case by (simp add: p s)
qed simp

lemma stop_all_ok:
  assumes "registry_holds H gws ok r"
  shows "registry_holds H gws ok (StopAll r)"
  unfolding StopAll_def
  by (rule stop_each_ok [OF assms]) (use registry_ok_distinct [OF assms] in \<open>auto simp: map_of_eq_Some_iff\<close>)

lemma loop_step_ok:
  assumes "registry_holds H gws ok r" and "map_of (rg_workers r) u = Some w"
    and "sensorLoop_case L ops c (w, rg_store r, rg_metrics r, rg_env r) = Some (Return (w', s', m', e'))"
  shows "registry_holds H gws ok
    (r\<lparr>rg_workers := map_put u w' (rg_workers r), rg_store := s', rg_metrics := m', rg_env := e'\<rparr>)"
proof -
  note f = loop_case_frame [OF assms(3)] and st = loop_case_store [OF assms(3)]
  have ok1: "registry_holds H gws ok (r\<lparr>rg_workers := map_put u w' (rg_workers r)\<rparr>)"
    using f(1) loop_frame_registered [OF _ f(1)]
    by (intro registry_ok_put [OF assms(1,2)]) (auto simp: loop_frame_def worker_identity_def)
  have ok2: "registry_holds H gws ok (r\<lparr>rg_workers := map_put u w' (rg_workers r), rg_env := e'\<rparr>)"
    using registry_ok_env [OF ok1, of e'] f(2) by simp
  have "ok s'" "same_gateways (gws (rg_store r)) (gws s')"
    using st ok_store [OF assms(1)] by (simp_all add: store_step_def)
  then show ?thesis
    by (intro registry_ok_store [OF ok2]) (simp_all add: f(3))
qed

lemma flush_step_ok:
  assumes "registry_holds H gws ok r" and "map_of (rg_workers r) u = Some w"
    and "Flush_iteration False False (w_buffer w, w_publisher w, rg_metrics r, rg_env r) = Return (Flush_loops (b, p, m', e'))"
  shows "registry_holds H gws ok
    (r\<lparr>rg_workers := map_put u (w\<lparr>w_buffer := b, w_publisher := p\<rparr>) (rg_workers r), rg_metrics := m', rg_env := e'\<rparr>)"
proof -
  note f = flush_frame [OF assms(3)]
  have ok1: "registry_holds H gws ok (r\<lparr>rg_workers := map_put u (w\<lparr>w_buffer := b, w_publisher := p\<rparr>) (rg_workers r)\<rparr>)"
    using loop_frame_registered [OF _ f(1)] by (intro registry_ok_put [OF assms(1,2)]) simp_all
  have ok2: "registry_holds H gws ok
      (r\<lparr>rg_workers := map_put u (w\<lparr>w_buffer := b, w_publisher := p\<rparr>) (rg_workers r), rg_env := e'\<rparr>)"
    using registry_ok_env [OF ok1, of e'] f(2) by simp
  then show ?thesis
    by (intro registry_ok_store [OF ok2]) (use ok_store [OF assms(1)] in \<open>simp_all add: f(3) same_gateways_refl\<close>)
qed

text \<open>A handler moves the publisher only.\<close>

lemma publisher_loop_frame: "loop_frame w (w\<lparr>w_publisher := p\<rparr>)"
  by (simp add: loop_frame_def worker_identity_def worker_ok_def)

lemma message_step_ok:
  assumes "registry_holds H gws ok r" and "map_of (rg_workers r) u = Some w"
    and "handleMsg L data (s, w_publisher w, rg_env r) = Return (d, s', p, e')"
  shows "registry_holds H gws ok
    (r\<lparr>rg_workers := map_put u (w\<lparr>w_publisher := p\<rparr>) (rg_workers r), rg_env := e'\<rparr>)"
proof -
  have ok1: "registry_holds H gws ok (r\<lparr>rg_workers := map_put u (w\<lparr>w_publisher := p\<rparr>) (rg_workers r)\<rparr>)"
    using loop_frame_registered [OF _ publisher_loop_frame] by (intro registry_ok_put [OF assms(1,2)]) simp_all
  show ?thesis using registry_ok_env [OF ok1, of e'] handleMsg_oracles [OF assms(3)] by simp
qed

lemma registry_step_ok:
  assumes "registry_step L ops r r'" and "registry_holds H gws ok r"
  shows "registry_holds H gws ok r'"
  using assms
proof (induction rule: registry_step.induct)
  case (step_list r gs r')
  then show ?case using reads_ok(2) by (simp add: registry_ListGateways_def)
next
  case (step_get u r x r')
  obtain y r1 where g: "on_store (op_GetGatewayByManagementID ops u) r = (y, r1)" by force
  with step_get have "r' = r1" by (cases y) (auto simp: registry_GetGateway_def)
  with reads_ok(1) [OF step_get(2) g] show ?case by simp
next
  case (step_pump r u w cmd ch)
  then show ?case by (intro channel_ok) (auto intro: channel_steps_keep)
next
  case (step_time r k)
  then show ?case by (intro registry_ok_env) simp_all
qed (blast intro: create_ok start_ok stop_ok add_sensor_ok list_sensors_ok delete_sensor_ok
    update_config_ok anomaly_ok outlier_ok decommission_ok stop_all_ok loop_step_ok flush_step_ok message_step_ok)+

lemma registry_reachable_ok:
  "registry_reachable L ops r0 r \<Longrightarrow> registry_ok gws ok r0 \<Longrightarrow> registry_ok gws ok r"
  by (induction rule: registry_reachable.induct) (auto intro: registry_step_ok delete_ok)

end

end
