(* ===== verification/Example_World.thy ===== *)
theory Example_World
  imports Registry_System Sqlite_Store Worker_System
begin

text \<open>
  A small concrete world in which the examples after the properties are evaluated: decimal
  texts for the identifiers, a clock that advances by a second per read, a broker that accepts
  everything, a provisioning service that returns the factory id as the management id, and one
  registry over an empty database.
\<close>

definition ex_uuid_Parse :: "string \<Rightarrow> uuid option" where
  "ex_uuid_Parse s = (if s = '''' then None else map_option of_int (digits_value 0 s))"

definition ex_libs :: libs where
  "ex_libs =
     \<lparr>uuid_String = (\<lambda>u. digits_of (uint u)), uuid_Parse = ex_uuid_Parse,
      time_text = fmt_d, time_parse = (\<lambda>s. digits_value 0 s),
      json_text = (\<lambda>_. ''{}''), json_parse = (\<lambda>_. None), math_Sin = (\<lambda>_. Finite 0)\<rparr>"

lemma digits_of_not_Nil: "0 \<le> n \<Longrightarrow> digits_of n \<noteq> ''''"
  using digits_of_first [of n] by auto

lemma ex_uuid_lawful: "uuid_lawful ex_libs"
  by (simp add: uuid_lawful_def ex_libs_def ex_uuid_Parse_def digits_value_digits_of digits_of_not_Nil)

lemma ex_sin_lawful: "sin_lawful ex_libs"
  by (simp add: sin_lawful_def ex_libs_def)

definition ex_key :: EncryptionKey where
  "ex_key = \<lparr>key_value = replicate 32 (CHR ''k'')\<rparr>"

definition ex_env :: env where
  "ex_env =
     \<lparr>env_clock = (\<lambda>n. 1000000000 * (1 + min (int n) 1000000)), env_rand = (\<lambda>n. Finite (1 / 4)), env_uuid = of_nat,
      env_publish = (\<lambda>_. None),
      env_encrypt = (\<lambda>_ _ b. Inr \<lparr>ep_EncryptedData = b, ep_IV = ''iv'', ep_AuthTag = ''tag''\<rparr>),
      env_onboard = (\<lambda>_ fid _ freq _. Inr \<lparr>pr_CertPEM = ''cert'', pr_PrivateKeyPEM = ''key'',
        pr_AESKey = ex_key, pr_GatewayID = fid, pr_TenantID = ''t1'', pr_SendFrequencyMs = freq\<rparr>),
      env_connect = (\<lambda>_ _ _ _ _. Inr ()), env_pos = 0\<rparr>"

text \<open>The same world with a broker that refuses connections.\<close>

definition ex_env_refused :: env where
  "ex_env_refused = ex_env\<lparr>env_connect := (\<lambda>_ _ _ _ _. Inl (Plain ''connection refused''))\<rparr>"

lemma representable_quarter [simp]: "representable (1 / 4)"
  using round_rat_scaled [of 1 "- 2"] pow2_less [of "- 2" 1024]
  by (simp add: representable_def pow2_def)

lemma ex_env_lawful: "onboard_lawful ex_env" "onboard_lawful ex_env_refused" "broker_up ex_env"
  by (auto simp: onboard_lawful_def ex_env_def ex_env_refused_def ex_key_def key_ok_def broker_up_def)

lemma ex_clock_sane: "clock_sane ex_env"
  by (auto simp: clock_sane_def ex_env_def min_def)

lemma ex_rand_lawful: "rand_lawful ex_env"
  by (auto simp: rand_lawful_def ex_env_def intro: exI [of _ "1 / 4"])

definition ex_cfg :: Config where
  "ex_cfg =
     \<lparr>cf_ProvisioningURL = ''https://p'', cf_NATSUrl = ''nats://n'', cf_NATSCACertPath = ''ca.pem'',
      cf_NATSTLSCertPath = '''', cf_NATSTLSKeyPath = '''', cf_SQLitePath = ''sim.db'', cf_HTTPAddr = '':8090'',
      cf_DefaultSendFrequencyMs = 5000, cf_GatewayBufferSize = 2, cf_MetricsAddr = '':9090'',
      cf_RecoveryMode = False\<rparr>"

lemma ex_cfg_ok: "config_ok ex_cfg"
  by (simp add: config_ok_def ex_cfg_def config_errors_def)

definition ex_getenv :: "string \<Rightarrow> string" where
  "ex_getenv key =
     (if key = ''PROVISIONING_URL'' then ''https://p''
      else if key = ''NATS_URL'' then ''nats://n''
      else if key = ''NATS_CA_CERT_PATH'' then ''ca.pem''
      else if key = ''SQLITE_PATH'' then ''sim.db''
      else if key = ''GATEWAY_BUFFER_SIZE'' then ''2''
      else if key = ''DEFAULT_SEND_FREQUENCY_MS'' then ''5000'' else '''')"

lemma ex_Load: "Load ex_getenv = Inr ex_cfg"
  by code_simp

definition ex_registry :: "env \<Rightarrow> SQLiteGatewayStore GatewayRegistry" where
  "ex_registry e = NewGatewayRegistry (empty_store (\<lambda>_. None)) e ex_cfg NewMetrics"

lemma ex_registry_ok:
  "onboard_lawful e \<Longrightarrow> registry_ok (sqlite_gws ex_libs) (sqlite_ok ex_libs) (ex_registry e)"
  unfolding ex_registry_def
  by (intro NewGatewayRegistry_ok empty_store_ok ex_uuid_lawful ex_cfg_ok) (simp_all add: NewMetrics_def)

definition ex_request :: CreateGatewayRequest where
  "ex_request =
     \<lparr>cr_FactoryID = ''7'', cr_FactoryKey = ''fk'', cr_Model = ''m'', cr_FirmwareVersion = ''1.0'',
      cr_SendFrequencyMs = 0\<rparr>"

definition ex_buffer :: MessageBuffer where
  "ex_buffer = \<lparr>mb_ch = make_chan 2, mb_subject = ''telemetry.data.t1.7'', mb_gatewayID = ''7''\<rparr>"

lemma ex_buffer_eq: "NewMessageBuffer 2 ''telemetry.data.t1.7'' ''7'' = Return ex_buffer"
  by (simp add: NewMessageBuffer_def bytes_chan_fits_def ex_buffer_def)

definition ex_sensor :: SimSensor where
  "ex_sensor =
     \<lparr>sn_ID = 0, sn_GatewayID = 0, sn_ManagementGatewayID = 7, sn_SensorID = 9, sn_Type = Temperature,
      sn_MinRange = Finite 10, sn_MaxRange = Finite 20, sn_Algorithm = UniformRandom, sn_CreatedAt = 0\<rparr>"

lemma ex_sensor_uniform:
  "sn_Algorithm ex_sensor \<notin> {Constant, SineWave, Spike}" "sn_MinRange ex_sensor = Finite 10"
  "sn_MaxRange ex_sensor = Finite 20" "range_ok 10 20" "representable (20 - 10)"
  by (simp_all add: ex_sensor_def UniformRandom_def Constant_def SineWave_def Spike_def range_ok_def)

definition ex_gateway :: SimGateway where
  "ex_gateway =
     \<lparr>gw_ID = 0, gw_ManagementGatewayID = 7, gw_FactoryID = ''7'', gw_FactoryKey = ''fk'', gw_Model = ''m'',
      gw_FirmwareVersion = ''1.0'', gw_Provisioned = True, gw_CertPEM = ''cert'', gw_PrivateKeyPEM = ''key'',
      gw_EncryptionKey = ex_key, gw_SendFrequencyMs = 5000, gw_Status = Provisioning, gw_TenantID = ''t1'',
      gw_CreatedAt = 0\<rparr>"

lemma ex_gateway_key: "key_ok (gw_EncryptionKey ex_gateway)"
  by (simp add: ex_gateway_def ex_key_def key_ok_def)

definition ex_db :: SQLiteGatewayStore where
  "ex_db = empty_store (\<lambda>_. None)"

lemma ex_db_ok: "sqlite_ok ex_libs ex_db"
  unfolding ex_db_def by (rule empty_store_ok [OF ex_uuid_lawful])

lemma ex_created: "CreateGateway ex_libs ex_gateway ex_db = (Inr 1, snd (CreateGateway ex_libs ex_gateway ex_db))"
  by (simp add: CreateGateway_def ex_db_def empty_store_def db_statement_def Let_def)

text \<open>A running worker of that gateway, with one sensor.\<close>

definition ex_worker :: GatewayWorker where
  "ex_worker =
     (NewGatewayWorker \<lparr>wd_Gateway = ex_gateway\<lparr>gw_Status := Online\<rparr>, wd_Sensors = [ex_sensor],
        wd_Generators = [Constant_Generator (NewConstantGenerator (Finite 10) (Finite 20))],
        wd_Publisher = \<lparr>pub_nc = True, pub_js = True, pub_log = []\<rparr>, wd_Buffer = ex_buffer\<rparr>)
       \<lparr>w_isRunning := True, w_ticker := Some 5000000000\<rparr>"

lemma ex_worker_ok: "worker_ok ex_worker" "configs_ok ex_worker" "pub_js (w_publisher ex_worker)"
    "\<not> isCommunicationBlocked ex_worker"
  by (simp_all add: ex_worker_def NewGatewayWorker_def worker_ok_def make_chan_def chan_ok_def buffer_ok_def
      ex_buffer_def configs_ok_def isCommunicationBlocked_def Online_def Paused_def Offline_def)

end
