(* ===== verification/Component_Properties.thy ===== *)
theory Component_Properties
  imports Example_World
begin

text \<open>
  The properties of single components: the message buffer, the generators, the SQLite store and the
  configuration. Each is followed by an example in which its hypotheses hold.
\<close>

subsection \<open>The message buffer\<close>

text \<open>
  C12: whatever the interleaving of the one sender (whose \<^verbatim>\<open>Send\<close> is three separate steps) with
  the flusher, every payload that was sent is dropped, published, refused by the broker, still
  buffered or in the sender's hands, in the order in which it was sent and exactly once; the buffer
  never exceeds its capacity; the counters count these fates; and the broker holds the published
  payloads, in order, under the buffer's subject.
\<close>

theorem buffer_accounts_for_every_payload:
  assumes "NewMessageBuffer capacity subject g = Return b" and "0 < sint capacity" and "buf_reachable b e s"
  shows "map fst (bs_out s) @ mb_contents (bs_buf s) @ pending (bs_pc s) = bs_sent s \<and>
    length (mb_contents (bs_buf s)) \<le> nat (sint capacity) \<and>
    BufferDropped (bs_metrics s) g = length (fates Dropped s) \<and>
    EnvelopesPublished (bs_metrics s) g = length (fates Published s) \<and>
    PublishErrors (bs_metrics s) g = length (fates Failed s) \<and>
    pub_log (bs_pub s) = map (Pair subject) (fates Published s)"
proof -
  have b: "b = \<lparr>mb_ch = make_chan (nat (sint capacity)), mb_subject = subject, mb_gatewayID = g\<rparr>"
    using assms(1) by (simp add: NewMessageBuffer_Return)
  have "buf_inv b s"
    by (rule buf_reachable_inv [OF assms(3) NewMessageBuffer_ok [OF assms(2,1)]]) (simp add: b make_chan_def)
  then show ?thesis by (simp add: buf_inv_def buffer_ok_def chan_ok_def b make_chan_def)
qed

lemma buffer_accounts_for_every_payload_witness:
  "\<exists>s. bs_sent s = [''x''] \<and> buf_reachable ex_buffer ex_env s \<and>
     map fst (bs_out s) @ mb_contents (bs_buf s) @ pending (bs_pc s) = bs_sent s"
proof -
  obtain b where "send_insert ''x'' (bs_buf (buf_init ex_buffer ex_env)) = Some b"
    by (simp add: buf_init_def send_insert_eq ex_buffer_def make_chan_def)
  from buf_step.enter_room [OF _ this] obtain s where
    "buf_step (buf_init ex_buffer ex_env) s" "bs_sent s = [''x'']" by (fastforce simp: buf_init_def)
  then have r: "buf_reachable ex_buffer ex_env s" "bs_sent s = [''x'']"
    by (blast intro: buf_reachable.intros)+
  from buffer_accounts_for_every_payload [OF ex_buffer_eq _ r(1)] r show ?thesis by auto
qed

text \<open>
  C29: a buffer that is not flushed keeps the newest payloads, as many as its capacity, and counts
  every older one as dropped.
\<close>

theorem full_buffer_keeps_the_newest:
  assumes "NewMessageBuffer capacity subject g = Return b" and "0 < sint capacity"
    and "Send_all payloads (b, m) = (b', m')"
  shows "mb_contents b' = drop (length payloads - nat (sint capacity)) payloads \<and>
    BufferDropped m' g = BufferDropped m g + (length payloads - nat (sint capacity))"
proof -
  have b: "b = \<lparr>mb_ch = make_chan (nat (sint capacity)), mb_subject = subject, mb_gatewayID = g\<rparr>"
    using assms(1) by (simp add: NewMessageBuffer_Return)
  from Send_all_contents [OF NewMessageBuffer_ok [OF assms(2,1)] assms(3)]
  show ?thesis by (simp add: b make_chan_def window_def)
qed

lemma full_buffer_keeps_the_newest_witness:
  "mb_contents (fst (Send_all [''a'', ''b'', ''c''] (ex_buffer, NewMetrics))) = [''b'', ''c'']"
  using full_buffer_keeps_the_newest [OF ex_buffer_eq, of "[''a'', ''b'', ''c'']" NewMetrics
      "fst (Send_all [''a'', ''b'', ''c''] (ex_buffer, NewMetrics))"
      "snd (Send_all [''a'', ''b'', ''c''] (ex_buffer, NewMetrics))"]
  by simp

text \<open>
  C30: left alone with an open connection, the flusher empties the buffer in as many iterations as
  there are payloads, hands them to the broker in order, and counts each once, as published or
  as an error; a payload that the broker refuses is not sent again.
\<close>

theorem flusher_drains_the_buffer:
  assumes "pub_js p"
  shows "\<exists>b' p' m' e'. Flush_run (length (mb_contents b)) (b, p, m, e) = Return (b', p', m', e') \<and>
    mb_contents b' = [] \<and>
    pub_log p' = pub_log p @ map (Pair (mb_subject b)) (accepted (env_publish e) (env_pos e) (mb_contents b)) \<and>
    EnvelopesPublished m' (mb_gatewayID b) + PublishErrors m' (mb_gatewayID b) =
      EnvelopesPublished m (mb_gatewayID b) + PublishErrors m (mb_gatewayID b) + length (mb_contents b)"
  using Flush_run_drains [OF assms, of b m e] by blast

lemma flusher_drains_the_buffer_witness:
  "\<exists>b' p' m' e'. Flush_run 1 (ex_buffer\<lparr>mb_ch := Chan 2 [''x'']\<rparr>, \<lparr>pub_nc = True, pub_js = True, pub_log = []\<rparr>,
      NewMetrics, ex_env) = Return (b', p', m', e') \<and> mb_contents b' = []"
  using flusher_drains_the_buffer [of "\<lparr>pub_nc = True, pub_js = True, pub_log = []\<rparr>"
      "ex_buffer\<lparr>mb_ch := Chan 2 [''x'']\<rparr>" NewMetrics ex_env] by auto

subsection \<open>The generators\<close>

text \<open>A run of \<open>n\<close> readings of one generator.\<close>

fun readings :: "'x libs_scheme \<Rightarrow> nat \<Rightarrow> Generator \<Rightarrow> env \<Rightarrow> float64 list \<times> Generator \<times> env" where
  "readings L 0 g e = ([], g, e)"
| "readings L (Suc n) g e =
     (let (v, g, e) = generator_Next L g e; (vs, g, e) = readings L n g e in (v # vs, g, e))"

lemma readings_from_plain:
  assumes "outlierOverride g = None" and "\<And>e. oracles e = oracles e0 \<Longrightarrow> P (fst (generator_Next L g e))"
    and "oracles e = oracles e0"
  shows "\<forall>v \<in> set (fst (readings L n g e)). P v"
  using assms(3)
proof (induction n arbitrary: e)
  case (Suc n)
  obtain v g' e' where nx: "generator_Next L g e = (v, g', e')" by (cases "generator_Next L g e")
  have "g' = g" using gen.next_keeps [OF assms(1), of L e] nx by simp
  moreover have "oracles e' = oracles e0" using generator_Next_frame [OF nx] Suc.prems by simp
  ultimately show ?case
    using Suc.IH [of e'] assms(2) [OF Suc.prems] nx by (simp add: Let_def case_prod_unfold)
qed simp

lemma rand_lawful_oracles:
  assumes "oracles e = oracles e'"
  shows "rand_lawful e = rand_lawful e'"
  by (simp add: rand_lawful_def oracles_eqD(3) [OF assms])

text \<open>
  C34: as long as no outlier is injected, the readings of a sensor whose algorithm is none of the three special ones
  (the factory's default, the uniform generator) all lie in the sensor's range, for every stream of random
  numbers in [0, 1), when the width of the range is itself a float64. (With a width that has to be rounded a
  reading may lie above the maximum by the rounding error.)
\<close>

theorem uniform_readings_in_range:
  assumes "factory_New n e = (g, e0)" and "sn_Algorithm n \<notin> {Constant, SineWave, Spike}"
    and "sn_MinRange n = Finite lo" and "sn_MaxRange n = Finite hi" and "range_ok lo hi"
    and "representable (hi - lo)" and "rand_lawful e1"
  shows "\<forall>v \<in> set (fst (readings L k g e1)). Finite lo \<le> v \<and> v \<le> Finite hi"
proof (rule readings_from_plain [where e0 = e1])
  have g: "g = Uniform_Generator (NewUniformRandomGenerator (Finite lo) (Finite hi))"
    using assms(1-4) by (simp add: factory_New_def)
  show "outlierOverride g = None" by (simp add: g NewUniformRandomGenerator_def)
  fix e2
  assume "oracles e2 = oracles e1"
  then have r: "rand_lawful e2" using assms(7) rand_lawful_oracles by blast
  have "is_finite (float_width lo hi)" by (simp add: exact_width(1) [OF assms(5,6)])
  note b = uniform_Next_bounds [OF assms(5) this r, of "NewUniformRandomGenerator (Finite lo) (Finite hi)"]
  show "Finite lo \<le> fst (generator_Next L g e2) \<and> fst (generator_Next L g e2) \<le> Finite hi"
    using b exact_width(2) [OF assms(5,6)]
    by (simp add: g NewUniformRandomGenerator_def Let_def case_prod_unfold)
qed simp

lemma uniform_readings_in_range_witness:
  "Finite 10 \<le> hd (fst (readings ex_libs 1 (fst (factory_New ex_sensor ex_env)) ex_env)) \<and>
   hd (fst (readings ex_libs 1 (fst (factory_New ex_sensor ex_env)) ex_env)) \<le> Finite 20"
proof -
  have "fst (readings ex_libs 1 (fst (factory_New ex_sensor ex_env)) ex_env) \<noteq> []"
    by (simp add: Let_def case_prod_unfold)
  then show ?thesis
    using uniform_readings_in_range [OF surjective_pairing ex_sensor_uniform ex_rand_lawful, where L = ex_libs and k = 1]
      hd_in_set by blast
qed

text \<open>
  An injected outlier is the very next reading, whatever the generator; the readings after it
  are those that would have come without it; and of two injections before a reading the last one wins.
\<close>

theorem outlier_is_the_next_reading:
  assumes "outlierOverride g = None"
  shows "readings L (Suc k) (generator_InjectOutlier v g) e =
      (let (vs, g', e') = readings L k g e in (v # vs, g', e')) \<and>
    generator_Next L (generator_InjectOutlier w (generator_InjectOutlier v g)) e = (w, g, e)"
  using gen.plain_idem [OF assms] gen.last_outlier_wins [of L w v g e] gen.outlier_next [of L v g e]
  by (simp add: Let_def case_prod_unfold)

lemma outlier_is_the_next_reading_witness:
  "fst (readings ex_libs 2 (generator_InjectOutlier (Finite 99)
      (Constant_Generator (NewConstantGenerator (Finite 10) (Finite 20)))) ex_env) = [Finite 99, Finite 15]"
proof -
  let ?g = "Constant_Generator (NewConstantGenerator (Finite 10) (Finite 20))"
  have "outlierOverride ?g = None" by (simp add: NewConstantGenerator_def)
  from outlier_is_the_next_reading [OF this, of ex_libs 1 "Finite 99" ex_env]
  show ?thesis
    by (simp add: Let_def case_prod_unfold numeral_2_eq_2 constant_Next_def NewConstantGenerator_def)
qed



subsection \<open>The SQLite store\<close>

lemma decode_new_row:
  assumes "sqlite_ok L s" and "key_ok (gw_EncryptionKey g)" and "CreateGateway L g s = (Inr i, s1)"
  shows "db_gateways s1 = db_gateways s @ [gateway_row_of L i g]" "i \<notin> gr_id ` set (db_gateways s)"
    "uuid_String L (gw_ManagementGatewayID g) \<notin> gr_management_gateway_id ` set (db_gateways s)"
proof -
  have "dom (sqlite_gws L s) = gr_id ` set (db_gateways s)" by (rule dom_sqlite_gws)
  then show "i \<notin> gr_id ` set (db_gateways s)" using CreateGateway_law [OF assms] by (auto simp: domIff)
qed (use assms(3) in \<open>auto simp: CreateGateway_def db_statement_def Let_def split: option.splits if_splits\<close>)

text \<open>
  C36: a gateway that was created is read back field by field, with the new row id, by either key,
  as long as the database answers the query.
\<close>

theorem created_gateway_is_read_back:
  assumes "sqlite_ok L s" and "key_ok (gw_EncryptionKey g)" and "CreateGateway L g s = (Inr i, s1)"
    and "db_fault s1 (db_calls s1) = None"
  shows "fst (GetGateway L i s1) = Inr (g\<lparr>gw_ID := i\<rparr>) \<and>
    fst (GetGatewayByManagementID L (gw_ManagementGatewayID g) s1) = Inr (g\<lparr>gw_ID := i\<rparr>)"
proof -
  note d = decode_new_row [OF assms(1-3)]
  have "row_at gr_id i (db_gateways s1) = Some (gateway_row_of L i g)"
    "row_at gr_management_gateway_id (uuid_String L (gw_ManagementGatewayID g)) (db_gateways s1) =
      Some (gateway_row_of L i g)"
    using d by (simp_all add: row_at_None [THEN iffD2])
  moreover have "uuid_lawful L" using assms(1) by (simp add: sqlite_ok_def)
  ultimately show ?thesis
    using assms(4) scan_gateway_row [OF _ assms(2)]
    by (simp add: GetGateway_def GetGatewayByManagementID_def db_statement_def Let_def)
qed

lemma created_gateway_is_read_back_witness:
  "fst (GetGateway ex_libs 1 (snd (CreateGateway ex_libs ex_gateway ex_db))) = Inr (ex_gateway\<lparr>gw_ID := 1\<rparr>)"
  using created_gateway_is_read_back [OF ex_db_ok ex_gateway_key ex_created]
  by (simp add: CreateGateway_def ex_db_def empty_store_def db_statement_def Let_def)

text \<open>
  Creating a gateway whose management id is already in the table fails and leaves both
  tables as they were.
\<close>

theorem management_id_is_unique:
  assumes "sqlite_ok L s" and "key_ok (gw_EncryptionKey g)" and "CreateGateway L g s = (r, s')"
    and "sqlite_gws L s j = Some h" and "gw_ManagementGatewayID h = gw_ManagementGatewayID g"
  shows "isl r \<and> sqlite_gws L s' = sqlite_gws L s \<and> sqlite_sns L s' = sqlite_sns L s"
proof -
  have "h \<in> ran (sqlite_gws L s)" using assms(4) by (auto intro: ranI)
  from sqlite.create_taken [OF assms(1,2) this assms(5)] have "isl r"
    using assms(3) by (simp add: sqlite_ops_def)
  with CreateGateway_law [OF assms(1-3)] show ?thesis by (cases r) auto
qed

lemma management_id_is_unique_witness:
  "isl (fst (CreateGateway ex_libs (ex_gateway\<lparr>gw_FactoryID := ''8''\<rparr>) (snd (CreateGateway ex_libs ex_gateway ex_db))))"
proof -
  let ?s1 = "snd (CreateGateway ex_libs ex_gateway ex_db)"
  note law = CreateGateway_law [OF ex_db_ok ex_gateway_key ex_created]
  have ok: "sqlite_ok ex_libs ?s1" and g: "sqlite_gws ex_libs ?s1 1 = Some (ex_gateway\<lparr>gw_ID := 1\<rparr>)"
    using law by simp_all
  have k: "key_ok (gw_EncryptionKey (ex_gateway\<lparr>gw_FactoryID := ''8''\<rparr>))" using ex_gateway_key by simp
  from management_id_is_unique [OF ok k surjective_pairing g] show ?thesis by simp
qed

text \<open>
  Deleting a gateway removes its row and, by the foreign key, exactly the sensors that
  belong to it; no other gateway and no other sensor is touched.
\<close>

theorem delete_cascades_to_sensors:
  assumes "sqlite_ok L s" and "DeleteGateway i s = (Inr u, s')"
  shows "sqlite_gws L s' = (sqlite_gws L s)(i := None) \<and>
    ran (sqlite_sns L s') = {n \<in> ran (sqlite_sns L s). sn_GatewayID n \<noteq> i} \<and> sqlite_ok L s'"
proof -
  have "op_DeleteGateway (sqlite_ops L) i s = (Inr u, s')" using assms(2) by (simp add: sqlite_ops_def)
  from sqlite.delete_cascades [OF assms(1) this] DeleteGateway_law [OF assms] show ?thesis by auto
qed

lemma delete_cascades_to_sensors_witness:
  "let s1 = snd (CreateGateway ex_libs ex_gateway ex_db);
       s2 = snd (CreateSensor ex_libs (ex_sensor\<lparr>sn_GatewayID := 1\<rparr>) s1)
   in ran (sqlite_sns ex_libs s2) \<noteq> {} \<and> ran (sqlite_sns ex_libs (snd (DeleteGateway 1 s2))) = {}"
proof -
  let ?s1 = "snd (CreateGateway ex_libs ex_gateway ex_db)"
  let ?n = "ex_sensor\<lparr>sn_GatewayID := 1\<rparr>"
  let ?s2 = "snd (CreateSensor ex_libs ?n ?s1)"
  have ok1: "sqlite_ok ex_libs ?s1" using CreateGateway_law [OF ex_db_ok ex_gateway_key ex_created] by simp
  have cs: "CreateSensor ex_libs ?n ?s1 = (Inr 1, ?s2)"
    by (simp add: CreateSensor_def CreateGateway_def ex_db_def empty_store_def db_statement_def Let_def
        ex_sensor_def gateway_row_of_def)
  note law = CreateSensor_law [OF ok1 cs]
  have sn: "sqlite_sns ex_libs ?s2 = [1 \<mapsto> stored (?n\<lparr>sn_ID := 1\<rparr>)]"
    using law CreateGateway_law [OF ex_db_ok ex_gateway_key ex_created]
    by (simp add: ex_db_def empty_store_def sqlite_sns_def fun_eq_iff)
  have d: "DeleteGateway 1 ?s2 = (Inr (), snd (DeleteGateway 1 ?s2))"
    by (simp add: DeleteGateway_def CreateSensor_def CreateGateway_def ex_db_def empty_store_def
        db_statement_def Let_def ex_sensor_def gateway_row_of_def)
  have ok2: "sqlite_ok ex_libs ?s2" using law by simp
  from delete_cascades_to_sensors [OF ok2 d] show ?thesis by (simp add: sn Let_def)
qed

subsection \<open>The configuration\<close>

definition positive_or :: "int64 \<Rightarrow> int64 option \<Rightarrow> int64" where
  "positive_or d x = (case x of None \<Rightarrow> d | Some n \<Rightarrow> if 0 < sint n then n else d)"

lemma Atoi_empty: "Atoi '''' = None"
  by (simp add: Atoi_def)

text \<open>
  C37: loading the configuration fails exactly when a required variable is empty or only one of the
  two TLS paths is set. Otherwise the send frequency and the buffer size are the numbers in their variables
  where these are positive, and 5000 and 1000 where they are not, or are no 64-bit numbers. A
  buffer of the configured size then has exactly that capacity if the size is at most 11728124029606; for
  anything larger making it panics. There is no upper limit on either number in the configuration itself.
\<close>

theorem Load_validates:
  "(isl (Load getenv) \<longleftrightarrow>
      getenv ''PROVISIONING_URL'' = '''' \<or> getenv ''NATS_URL'' = '''' \<or> getenv ''NATS_CA_CERT_PATH'' = '''' \<or>
      (getenv ''NATS_TLS_CERT'' = '''') \<noteq> (getenv ''NATS_TLS_KEY'' = '''')) \<and>
   (case Load getenv of
      Inl _ \<Rightarrow> True
    | Inr cfg \<Rightarrow>
        cf_DefaultSendFrequencyMs cfg = positive_or 5000 (Atoi (getenv ''DEFAULT_SEND_FREQUENCY_MS'')) \<and>
        cf_GatewayBufferSize cfg = positive_or 1000 (Atoi (getenv ''GATEWAY_BUFFER_SIZE'')) \<and>
        (case NewMessageBuffer (cf_GatewayBufferSize cfg) subject g of
           Return b \<Rightarrow> sint (cf_GatewayBufferSize cfg) \<le> 11728124029606 \<and>
             int (mb_capacity b) = sint (cf_GatewayBufferSize cfg) \<and> 0 < mb_capacity b
         | Panic _ \<Rightarrow> 11728124029606 < sint (cf_GatewayBufferSize cfg)))"
proof -
  have num: "(let n = getEnvInt getenv key d in if sint n \<le> 0 then d else n) = positive_or d (Atoi (getenv key))"
    if "0 < sint d" for key d
    using that by (auto simp: getEnvInt_def positive_or_def Atoi_empty Let_def split: option.split)
  have pos: "0 < sint (cf_GatewayBufferSize cfg)" if "Load getenv = Inr cfg" for cfg
    using Load_ok [OF that] by (simp add: config_ok_def)
  have loaded: "cf_DefaultSendFrequencyMs cfg = positive_or 5000 (Atoi (getenv ''DEFAULT_SEND_FREQUENCY_MS'')) \<and>
      cf_GatewayBufferSize cfg = positive_or 1000 (Atoi (getenv ''GATEWAY_BUFFER_SIZE''))" if "Load getenv = Inr cfg" for cfg
    using that num [of 5000 "''DEFAULT_SEND_FREQUENCY_MS''"] num [of 1000 "''GATEWAY_BUFFER_SIZE''"]
    by (auto simp: Load_def Let_def split: if_splits)
  have buffer: "case NewMessageBuffer n subject g of
      Return b \<Rightarrow> sint n \<le> 11728124029606 \<and> int (mb_capacity b) = sint n \<and> 0 < mb_capacity b
    | Panic _ \<Rightarrow> 11728124029606 < sint n" if "0 < sint n" for n
    using that by (simp add: NewMessageBuffer_def bytes_chan_fits_def)
  show ?thesis
    unfolding Load_fails_iff using loaded buffer [OF pos] by (auto split: sum.split)
qed

lemma Load_validates_witness:
  "isl (Load (\<lambda>_. ''''))"
  using Load_validates [of "\<lambda>_. ''''" "''s''" "''g''"] by simp

end
