(* ===== verification/Worker_Properties.thy ===== *)
theory Worker_Properties
  imports Example_World
begin

text \<open>
  The properties of one gateway's worker: its commands, its ticks, its anomalies and its outliers.
\<close>

subsection \<open>Commands\<close>

text \<open>
  C11: with a broker that accepts every message and a clock whose times JSON can hold, in every state a
  worker can reach from its creation without a panic, the
  commands it has taken from its channel are those it has answered followed by those it is holding back
  because of an anomaly. What its publisher has brought to the ACK subject is a merge of two lists: one
  \<^verbatim>\<open>ack\<close> or \<^verbatim>\<open>nack\<close> per answered command, in the order of
  arrival, each with the command's id, and one \<^verbatim>\<open>expired\<close> per command that the subscriber found too
  old, in the order in which it found them. This covers any interleaving of ticks, anomalies, configuration
  changes, the flusher, the subscriber's handler, new sensors, \<^verbatim>\<open>Start\<close> and \<^verbatim>\<open>Stop\<close>.
\<close>

theorem commands_are_answered_once_in_order:
  assumes "worker_reachable L ops (fresh_worker d s m e) k"
    and "length (wd_Generators d) = length (wd_Sensors d)" and "buffer_ok (wd_Buffer d)"
    and "pub_log (wd_Publisher d) = []" and "broker_up e" and "clock_sane e"
    and "mb_subject (wd_Buffer d) = telemetry_subject L (wd_Gateway d)"
  shows "\<exists>past given late. wk_received k = past @ w_anomalyCommandBuffer (wk_worker k) \<and>
    list_all2 (is_answer L (ack_subject L (wk_worker k))) past given \<and>
    list_all2 (is_expired_ack L (ack_subject L (wk_worker k))) (wk_expired k) late \<and>
    answers L (wk_worker k) \<in> shuffles given late \<and>
    (w_activeAnomaly (wk_worker k) = None \<longrightarrow> past = wk_received k)"
proof -
  have "mb_subject (wd_Buffer d) \<noteq> ack_subject L (NewGatewayWorker d)"
    by (simp add: assms(7) telemetry_subject_def ack_subject_def)
  from worker_reachable_inv [OF assms(1) fresh_worker_inv [OF assms(2-6) this]]
  have ok: "worker_ok (wk_worker k)" and "answered_in_order L (wk_expired k) (wk_worker k) (wk_received k)"
    by (simp_all add: worker_inv_def)
  then obtain past given late where "wk_received k = past @ w_anomalyCommandBuffer (wk_worker k)"
    "list_all2 (is_answer L (ack_subject L (wk_worker k))) past given"
    "list_all2 (is_expired_ack L (ack_subject L (wk_worker k))) (wk_expired k) late"
    "answers L (wk_worker k) \<in> shuffles given late" by (auto simp: answered_in_order_def)
  moreover from this(1) ok have "w_activeAnomaly (wk_worker k) = None \<longrightarrow> past = wk_received k"
    by (auto simp: worker_ok_def)
  ultimately show ?thesis by - (intro exI conjI)
qed

definition ex_deps :: WorkerDeps where
  "ex_deps = \<lparr>wd_Gateway = ex_gateway\<lparr>gw_Status := Online\<rparr>, wd_Sensors = [], wd_Generators = [],
     wd_Publisher = \<lparr>pub_nc = True, pub_js = True, pub_log = []\<rparr>,
     wd_Buffer = ex_buffer\<lparr>mb_subject := telemetry_subject ex_libs ex_gateway\<rparr>\<rparr>"

definition ex_command :: IncomingCommand where
  "ex_command = \<lparr>ic_CommandID = ''c1'', ic_Type = ''reboot'', ic_Payload = None, ic_IssuedAt = 0\<rparr>"

lemma commands_are_answered_once_in_order_witness:
  "\<exists>k. worker_reachable ex_libs (sqlite_ops ex_libs) (fresh_worker ex_deps ex_db NewMetrics ex_env) k \<and>
     wk_received k = [ex_command] \<and> length (answers ex_libs (wk_worker k)) = 1"
proof -
  let ?L = ex_libs and ?ops = "sqlite_ops ex_libs"
  define k0 where "k0 = fresh_worker ex_deps ex_db NewMetrics ex_env"
  define w1 where "w1 = (NewGatewayWorker ex_deps)\<lparr>w_isRunning := True, w_ticker := Some 5000000000\<rparr>"
  define k1 where "k1 = k0\<lparr>wk_worker := w1\<rparr>"
  define k2 where "k2 = k1\<lparr>wk_worker := w1\<lparr>w_commandCh := Chan 10 [ex_command]\<rparr>\<rparr>"
  have "worker_step ?L ?ops k0 k1" unfolding k1_def
    by (rule api_start) (simp add: k0_def fresh_worker_def worker_Start_def NewGatewayWorker_def ex_deps_def
        ex_gateway_def NewTicker_def Millisecond_def Let_def w1_def)
  then have r1: "worker_reachable ?L ?ops k0 k1" by (blast intro: worker_reachable.intros)
  have "worker_step ?L ?ops k1 (k1\<lparr>wk_worker := (wk_worker k1)\<lparr>w_commandCh := Chan 10 [ex_command]\<rparr>\<rparr>)"
    by (rule pump) (simp add: k1_def w1_def NewGatewayWorker_def make_chan_def try_send_def)
  with r1 have r2: "worker_reachable ?L ?ops k0 k2"
    by (auto simp: k2_def k1_def intro: worker_reachable.intros)
  have up: "pub_js (w_publisher (w1\<lparr>w_commandCh := Chan 10 []\<rparr>))"
    by (simp add: w1_def NewGatewayWorker_def ex_deps_def)
  from answer_returns [OF up, of ?L ?ops ex_command "wk_store k2" "wk_env k2"] obtain w3 s3 e3 where
    "answer ?L ?ops ex_command (w1\<lparr>w_commandCh := Chan 10 []\<rparr>, wk_store k2, wk_env k2) = Return (w3, s3, e3)"
    by blast
  then have "sensorLoop_case ?L ?ops Command_case (wk_worker k2, wk_store k2, wk_metrics k2, wk_env k2)
      = Some (Return (w3, s3, wk_metrics k2, e3))"
    by (simp add: sensorLoop_case_def k2_def try_recv_def handleIncomingCommand_def w1_def NewGatewayWorker_def)
  from loop_command [OF _ _ this, of ex_command "[]"]
  have r3: "worker_reachable ?L ?ops k0 (k2\<lparr>wk_worker := w3, wk_store := s3, wk_metrics := wk_metrics k2,
      wk_env := e3, wk_received := wk_received k2 @ [ex_command]\<rparr>)" (is "worker_reachable _ _ _ ?k3")
    using r2 by (auto simp: k2_def w1_def intro: worker_reachable.intros)
  have rc: "wk_received ?k3 = [ex_command]" "wk_expired ?k3 = []" by (simp_all add: k2_def k1_def k0_def fresh_worker_def)
  have "buffer_ok (wd_Buffer ex_deps)" "length (wd_Generators ex_deps) = length (wd_Sensors ex_deps)"
    "pub_log (wd_Publisher ex_deps) = []"
    "mb_subject (wd_Buffer ex_deps) = telemetry_subject ex_libs (wd_Gateway ex_deps)"
    by (simp_all add: ex_deps_def buffer_ok_def ex_buffer_def make_chan_def chan_ok_def telemetry_subject_def)
  from commands_are_answered_once_in_order [OF r3 [unfolded k0_def] this(2,1,3) ex_env_lawful(3) ex_clock_sane this(4)]
  have "\<exists>past. [ex_command] = past @ w_anomalyCommandBuffer w3 \<and>
      list_all2 (is_answer ?L (ack_subject ?L w3)) past (answers ?L w3) \<and>
      (w_activeAnomaly w3 = None \<longrightarrow> past = [ex_command])"
    unfolding rc by auto
  moreover have "w_activeAnomaly w3 = None"
    using answer_frame(2) [OF \<open>answer _ _ _ _ = _\<close>]
    by (simp add: answered_toD(6) w1_def NewGatewayWorker_def)
  ultimately have "length (answers ?L w3) = 1" by (auto dest: list_all2_lengthD)
  with r3 rc show ?thesis unfolding k0_def by fastforce
qed

subsection \<open>Ticks\<close>

text \<open>
  C13: a tick always completes: for a well-formed worker with an open publisher and queued
  configuration updates whose periods do not overflow, no index is out of range, no ticker panics and
  nothing is sent through a closed connection, and the worker is well formed afterwards.
\<close>

theorem tick_never_panics:
  assumes "worker_ok w" and "configs_ok w" and "pub_js (w_publisher w)"
  shows "\<exists>w' s' m' e'. processTick L ops (w, s, m, e) = Return (w', s', m', e') \<and> worker_ok w' \<and>
    w_sensors w' = w_sensors w \<and> pub_js (w_publisher w')"
proof -
  obtain w' s' m' e' where t: "processTick L ops (w, s, m, e) = Return (w', s', m', e')"
    using processTick_returns [OF assms, of L ops s m e] by blast
  from processTick_ok [OF t] assms(1,3) t show ?thesis by simp
qed

lemma tick_never_panics_witness:
  "\<exists>w' s' m' e'. processTick ex_libs (sqlite_ops ex_libs) (ex_worker, ex_db, NewMetrics, ex_env) = Return (w', s', m', e')"
  using tick_never_panics [OF ex_worker_ok(1-3), of ex_libs "sqlite_ops ex_libs" ex_db NewMetrics ex_env] by blast

text \<open>
  C14: one publishing round of a worker that may communicate draws exactly one value per sensor, in
  order, from the sensor's own generator, and puts into the buffer, in that order, the envelopes of those readings that
  were encoded, encrypted and not lost; every generator's pending outlier is used up.
\<close>

theorem round_publishes_every_sensor_once:
  assumes "worker_ok w" and "\<not> isCommunicationBlocked w"
  shows "publishSensorData L (w, m, e) =
      (let (xs, e') = tick_readings L w (zip (w_sensors w) (w_generators w)) e;
           (b, m') = Send_all xs (w_buffer w, m)
       in Return (w\<lparr>w_generators := map without_override (w_generators w), w_buffer := b\<rparr>, m', e')) \<and>
    length (fst (tick_readings L w (zip (w_sensors w) (w_generators w)) e)) \<le> length (w_sensors w)"
proof -
  have "length (zip (w_sensors w) (w_generators w)) = length (w_sensors w)"
    using assms(1) by (simp add: worker_ok_def)
  with publishSensorData_eq [OF assms] tick_readings_length show ?thesis by metis
qed

lemma round_publishes_every_sensor_once_witness:
  "\<exists>w' m' e'. publishSensorData ex_libs (ex_worker, NewMetrics, ex_env) = Return (w', m', e') \<and>
     map outlierOverride (w_generators w') = [None]"
  using round_publishes_every_sensor_once [OF ex_worker_ok(1,4), of ex_libs NewMetrics ex_env]
  by (auto simp: case_prod_unfold Let_def ex_worker_def NewGatewayWorker_def)

subsection \<open>Anomalies\<close>

text \<open>
  C15: from the moment a disconnection of \<open>d\<close> seconds is taken, with \<open>d\<close> from 0 to 9223372036
  (the most that a 64-bit duration holds), until \<open>d\<close> seconds of the clock
  have passed, the expiry check leaves it in place, the publishing round of a tick draws nothing from the
  generators and puts nothing into the buffer, and every command is held back unanswered. What the
  buffer held before, the flusher still publishes.
\<close>

theorem disconnection_is_silent:
  assumes "ac_Type cmd = Disconnect" and "ac_Disconnect cmd = Some p" and "sint (dc_DurationSeconds p) = d"
    and "0 \<le> d" and "d \<le> 9223372036" and "handleAnomalyCommand cmd (w, e) = (w1, e1)"
    and "env_clock e2 (env_pos e2) < env_clock e (env_pos e) + d * 1000000000"
  shows "\<exists>e3. checkAnomalyExpiry L ops (w1, s, e2) = Return (w1, s, e3) \<and>
      publishSensorData L (w1, m, e3) = Return (w1, m, e3) \<and>
      handleIncomingCommand L ops c (w1, s, e3) =
        Return (w1\<lparr>w_anomalyCommandBuffer := w_anomalyCommandBuffer w1 @ [c]\<rparr>, s, e3)"
proof -
  let ?a = "\<lparr>aa_anomalyType = Disconnect, aa_expiresAt = env_clock e (env_pos e) + d * 1000000000,
    aa_packetLossPct = Finite 0\<rparr>"
  have w1: "w1 = w\<lparr>w_activeAnomaly := Some ?a\<rparr>"
    using disconnect_state [OF assms(1,2)] assms(3-6) by simp
  then have a: "w_activeAnomaly w1 = Some ?a" by simp
  then have blocked: "isCommunicationBlocked w1" by (simp add: isCommunicationBlocked_def Let_def)
  have "env_clock e2 (env_pos e2) < aa_expiresAt ?a" using assms(7) by simp
  from anomaly_holds [OF a this, of L ops s] obtain e3 where "checkAnomalyExpiry L ops (w1, s, e2) = Return (w1, s, e3)"
    by blast
  with blocked_publishes_nothing [OF blocked] a show ?thesis by (auto simp: handleIncomingCommand_def)
qed

definition ex_disconnect :: GatewayAnomalyCommand where
  "ex_disconnect = \<lparr>ac_Type = Disconnect, ac_NetworkDegradation = None, ac_Disconnect = Some \<lparr>dc_DurationSeconds = 60\<rparr>\<rparr>"

lemma disconnection_is_silent_witness:
  "\<exists>e3. publishSensorData ex_libs (fst (handleAnomalyCommand ex_disconnect (ex_worker, ex_env)), NewMetrics, e3) =
     Return (fst (handleAnomalyCommand ex_disconnect (ex_worker, ex_env)), NewMetrics, e3)"
proof -
  have "ac_Type ex_disconnect = Disconnect" "ac_Disconnect ex_disconnect = Some \<lparr>dc_DurationSeconds = 60\<rparr>"
    "sint (dc_DurationSeconds \<lparr>dc_DurationSeconds = 60\<rparr>) = 60" "(0 :: int) \<le> 60" "(60 :: int) \<le> 9223372036"
    "env_clock ex_env (env_pos ex_env) < env_clock ex_env (env_pos ex_env) + 60 * 1000000000"
    by (simp_all add: ex_disconnect_def)
  from disconnection_is_silent [OF this(1-5) surjective_pairing this(6),
      where L = ex_libs and ops = "sqlite_ops ex_libs" and s = ex_db and m = NewMetrics and w = ex_worker]
  show ?thesis by blast
qed

text \<open>
  C16: for a worker whose publisher is open, with a broker that accepts every message and a clock whose
  times JSON can hold, the first check at or after the expiry removes the anomaly and answers the commands
  that were held back, in their order of arrival, one message each, and holds nothing back any more.
\<close>

theorem expiry_answers_held_commands:
  assumes "w_activeAnomaly w = Some a" and "aa_expiresAt a \<noteq> 0" and "aa_expiresAt a \<le> env_clock e (env_pos e)"
    and "pub_js (w_publisher w)" and "broker_up e" and "clock_sane e"
  shows "\<exists>w' s' e' msgs. checkAnomalyExpiry L ops (w, s, e) = Return (w', s', e') \<and>
    w_activeAnomaly w' = None \<and> w_anomalyCommandBuffer w' = [] \<and>
    list_all2 (is_answer L (ack_subject L w)) (w_anomalyCommandBuffer w) msgs \<and>
    pub_log (w_publisher w') = pub_log (w_publisher w) @ msgs"
proof -
  let ?w = "w\<lparr>w_activeAnomaly := None\<rparr>"
  have up: "pub_js (w_publisher ?w)" using assms(4) by simp
  from answer_all_returns [OF up, of L ops "w_anomalyCommandBuffer w" s "env_tick e"] obtain w1 s1 e1 where
    aa: "answer_all L ops (w_anomalyCommandBuffer w) (?w, s, env_tick e) = Return (w1, s1, e1)" by blast
  have "broker_up (env_tick e)" "clock_sane (env_tick e)" using assms(5,6) by (simp_all add: broker_up_def clock_sane_def)
  from answer_all_answers [OF aa this] obtain msgs where
    m: "list_all2 (is_answer L (ack_subject L ?w)) (w_anomalyCommandBuffer w) msgs"
    "pub_log (w_publisher w1) = pub_log (w_publisher ?w) @ msgs" by blast
  have "answered_to ?w w1" using answer_all_frame [OF aa] by simp
  then have none: "w_activeAnomaly w1 = None" by (simp add: answered_toD(6))
  have "checkAnomalyExpiry L ops (w, s, e) = Return (w1\<lparr>w_anomalyCommandBuffer := []\<rparr>, s1, e1)"
    using assms(1-3) aa by (simp add: checkAnomalyExpiry_def clock_Now_eq time_Before_def flushBufferedCommands_def)
  moreover have "ack_subject L ?w = ack_subject L w" by (simp add: ack_subject_def)
  ultimately show ?thesis using m none by auto
qed

definition ex_anomaly :: activeAnomalyState where
  "ex_anomaly = \<lparr>aa_anomalyType = Disconnect, aa_expiresAt = 1, aa_packetLossPct = Finite 0\<rparr>"

lemma expiry_answers_held_commands_witness:
  "\<exists>w' s' e'. checkAnomalyExpiry ex_libs (sqlite_ops ex_libs)
      (ex_worker\<lparr>w_activeAnomaly := Some ex_anomaly, w_anomalyCommandBuffer := [ex_command]\<rparr>, ex_db, ex_env)
        = Return (w', s', e') \<and> length (pub_log (w_publisher w')) = 1"
proof -
  let ?w = "ex_worker\<lparr>w_activeAnomaly := Some ex_anomaly, w_anomalyCommandBuffer := [ex_command]\<rparr>"
  have "w_activeAnomaly ?w = Some ex_anomaly" "aa_expiresAt ex_anomaly \<noteq> 0"
    "aa_expiresAt ex_anomaly \<le> env_clock ex_env (env_pos ex_env)" "pub_js (w_publisher ?w)"
    by (simp_all add: ex_anomaly_def ex_env_def ex_worker_ok)
  from expiry_answers_held_commands [OF this ex_env_lawful(3) ex_clock_sane, of ex_libs "sqlite_ops ex_libs" ex_db]
  obtain w' s' e' msgs where "checkAnomalyExpiry ex_libs (sqlite_ops ex_libs) (?w, ex_db, ex_env) = Return (w', s', e')"
    "list_all2 (is_answer ex_libs (ack_subject ex_libs ?w)) [ex_command] msgs"
    "pub_log (w_publisher w') = pub_log (w_publisher ?w) @ msgs" by auto
  then show ?thesis
    by (auto dest!: list_all2_lengthD simp: ex_worker_def NewGatewayWorker_def)
qed

text \<open>
  C33: while the network is degraded a reading is lost exactly when the next random number is below the
  loss, read as a fraction when it is at most 1 and as a percentage above it; with a loss of 0 nothing is lost,
  and with a loss of 100 everything is.
\<close>

theorem degradation_loses_the_fraction:
  assumes "ac_Type cmd = NetworkDegradation" and "ac_NetworkDegradation cmd = Some p"
    and "nd_PacketLossPct p = Finite q" and "handleAnomalyCommand cmd (w, e) = (w1, e1)" and "rand_lawful e2"
  shows "(fst (packet_lost (w1, e2)) \<longleftrightarrow>
        env_rand e2 (env_pos e2) < (if 1 < q then f64_of (q / 100) else Finite q)) \<and>
    (q = 0 \<longrightarrow> \<not> fst (packet_lost (w1, e2))) \<and> (q = 100 \<longrightarrow> fst (packet_lost (w1, e2)))"
proof -
  obtain x where x: "env_rand e2 (env_pos e2) = Finite x" "0 \<le> x" "x < 1"
    using assms(5) unfolding rand_lawful_def by metis
  from assms(1-4) have "\<exists>a. w_activeAnomaly w1 = Some a \<and> aa_anomalyType a = NetworkDegradation \<and>
      aa_packetLossPct a = (if 1 < q then f64_of (q / 100) else Finite q)"
    by (auto simp: handleAnomalyCommand_def Let_def less_float64_def case_prod_unfold split: if_splits)
  then have l: "fst (packet_lost (w1, e2)) \<longleftrightarrow>
      env_rand e2 (env_pos e2) < (if 1 < q then f64_of (q / 100) else Finite q)"
    by (auto simp: packet_lost_def rand_Float64_eq Let_def)
  with x show ?thesis by (auto simp: less_float64_def)
qed

definition ex_degradation :: GatewayAnomalyCommand where
  "ex_degradation = \<lparr>ac_Type = NetworkDegradation,
     ac_NetworkDegradation = Some \<lparr>nd_DurationSeconds = 60, nd_PacketLossPct = Finite 100\<rparr>, ac_Disconnect = None\<rparr>"

lemma degradation_loses_the_fraction_witness:
  "fst (packet_lost (fst (handleAnomalyCommand ex_degradation (ex_worker, ex_env)), ex_env))"
proof -
  have "ac_Type ex_degradation = NetworkDegradation"
    "ac_NetworkDegradation ex_degradation = Some \<lparr>nd_DurationSeconds = 60, nd_PacketLossPct = Finite 100\<rparr>"
    "nd_PacketLossPct \<lparr>nd_DurationSeconds = 60, nd_PacketLossPct = Finite 100\<rparr> = Finite 100"
    by (simp_all add: ex_degradation_def)
  from degradation_loses_the_fraction [OF this surjective_pairing ex_rand_lawful] show ?thesis by blast
qed

subsection \<open>Outliers and configuration\<close>

lemma inject_command_plain:
  "inject_command cmd w = Return w' \<Longrightarrow>
   map without_override (w_generators w') = map without_override (w_generators w)"
  by (auto simp: inject_command_def Let_def map_update gen.plain_inject list_update_id
      split: option.splits if_splits simp flip: map_update intro!: nth_equalityI simp: nth_list_update)

lemma inject_all_plain:
  "inject_all cmds w = Return w' \<Longrightarrow>
   map without_override (w_generators w') = map without_override (w_generators w)"
  by (induction cmds arbitrary: w) (auto simp: go_bind_eq_Return dest: inject_command_plain)

lemma inject_all_append: "inject_all (cmds @ rest) w = go_bind (inject_all cmds w) (inject_all rest)"
proof (induction cmds arbitrary: w)
  case (Cons c cs)
  then show ?case by (cases "inject_command c w") simp_all
qed simp

text \<open>An injection for another sensor does not touch the generator.\<close>

lemma inject_all_others:
  "inject_all rest w = Return w' \<Longrightarrow> sn_SensorID (w_sensors w ! i) \<notin> oc_SensorID ` set rest \<Longrightarrow>
   w_generators w' ! i = w_generators w ! i"
proof (induction rest arbitrary: w)
  case (Cons c rest)
  from Cons.prems(1) obtain w1 where one: "inject_command c w = Return w1" and rest: "inject_all rest w1 = Return w'"
    by (auto simp: go_bind_eq_Return)
  from one have s: "w_sensors w1 = w_sensors w"
    by (auto simp: inject_command_def Let_def split: option.splits if_splits)
  have "w_generators w1 ! i = w_generators w ! i"
    using one Cons.prems(2) sensor_index_less [of "oc_SensorID c" "w_sensors w"]
    by (auto simp: inject_command_def Let_def nth_list_update split: option.splits if_splits)
  with Cons.IH [OF rest] Cons.prems(2) s show ?case by simp
qed simp

text \<open>
  C31: when a tick drains the queued outliers, the last one queued for a sensor of the worker, whatever is
  queued before and after it for other sensors, is that sensor's next
  reading (twice the upper bound of its range if it came without a value); the generator is
  otherwise unchanged and the queue is empty.
\<close>

theorem queued_outlier_is_the_next_reading:
  assumes "worker_ok w" and "ch_buf (w_outlierCh w) = cmds @ cmd # rest"
    and "oc_SensorID cmd \<notin> oc_SensorID ` set rest"
    and "sensor_index (oc_SensorID cmd) (w_sensors w) = Some i" and "drainOutliers w = Return w'"
  shows "generator_Next L (w_generators w' ! i) e =
      (case oc_Value cmd of Some v \<Rightarrow> v | None \<Rightarrow> sn_MaxRange (w_sensors w ! i) * Finite 2,
       without_override (w_generators w ! i), e) \<and>
    sn_SensorID (w_sensors w ! i) = oc_SensorID cmd \<and> ch_buf (w_outlierCh w') = []"
proof -
  from assms(2,5) obtain w1 w2 w3 where one: "inject_all cmds w = Return w1" and two: "inject_command cmd w1 = Return w2"
    and three: "inject_all rest w2 = Return w3"
    and w': "w' = w3\<lparr>w_outlierCh := Chan (ch_cap (w_outlierCh w3)) []\<rparr>"
    by (auto simp: drainOutliers_def inject_all_append go_bind_eq_Return)
  have k: "keeps w w1" by (rule inject_all_keeps [OF one])
  then have ok1: "worker_ok w1" and s1: "w_sensors w1 = w_sensors w" using assms(1) by (simp_all add: keeps_def)
  note i = sensor_index_less [OF assms(4)]
  have "inject_all [cmd] w1 = Return w2" using two by simp
  then have s2: "w_sensors w2 = w_sensors w" using inject_all_keeps [of "[cmd]" w1 w2] s1 by (simp add: keeps_def)
  have same: "w_generators w3 ! i = w_generators w2 ! i"
    by (rule inject_all_others [OF three]) (use s2 i assms(3) in simp)
  have len: "i < length (w_generators w)" "length (w_generators w1) = length (w_generators w)"
    using assms(1) i k by (simp_all add: worker_ok_def keeps_def)
  have "without_override (w_generators w1 ! i) = without_override (w_generators w ! i)"
    using arg_cong [OF inject_all_plain [OF one], of "\<lambda>xs. xs ! i"] len by simp
  with inject_command_value(1) [OF ok1 _ two, of i L e] assms(4) s1 i same
  show ?thesis by (simp add: w' outlier_value_def)
qed

definition ex_outlier :: SensorOutlierCommand where
  "ex_outlier = \<lparr>oc_SensorID = 9, oc_Value = None\<rparr>"

lemma queued_outlier_is_the_next_reading_witness:
  "\<exists>w'. drainOutliers (ex_worker\<lparr>w_outlierCh := Chan 10 [ex_outlier, ex_outlier\<lparr>oc_SensorID := 8\<rparr>]\<rparr>) = Return w' \<and>
     fst (generator_Next ex_libs (w_generators w' ! 0) ex_env) = Finite 40"
proof -
  let ?w = "ex_worker\<lparr>w_outlierCh := Chan 10 [ex_outlier, ex_outlier\<lparr>oc_SensorID := 8\<rparr>]\<rparr>"
  have ok: "worker_ok ?w" using ex_worker_ok(1) by (simp add: worker_ok_def chan_ok_def)
  have q: "ch_buf (w_outlierCh ?w) = [] @ ex_outlier # [ex_outlier\<lparr>oc_SensorID := 8\<rparr>]"
    "oc_SensorID ex_outlier \<notin> oc_SensorID ` set [ex_outlier\<lparr>oc_SensorID := 8\<rparr>]"
    and i: "sensor_index (oc_SensorID ex_outlier) (w_sensors ?w) = Some 0"
    by (simp_all add: ex_worker_def NewGatewayWorker_def ex_outlier_def ex_sensor_def)
  obtain w' where d: "drainOutliers ?w = Return w'"
    using drainOutliers_returns [of ?w] ok by (auto simp: worker_ok_def)
  from queued_outlier_is_the_next_reading [OF ok q i d, of ex_libs ex_env] d show ?thesis
    by (simp add: ex_outlier_def ex_worker_def NewGatewayWorker_def ex_sensor_def)
qed

text \<open>
  C17: a configuration command that is acknowledged has changed exactly the row of the worker's gateway,
  in the fields it names, to a positive frequency, and its update is at the end of the worker's
  configuration channel; nothing else of the worker has changed.
\<close>

theorem acknowledged_config_is_stored_and_queued:
  assumes "sqlite_ok L s" and "unmarshal_CommandConfigPayload payload = Inr p"
    and "handleConfigUpdateCommand (sqlite_ops L) payload (w, s) = ((ACK, msg), w', s')"
  shows "sqlite_gws L s' = (sqlite_gws L s)(gw_ID (w_gateway w) :=
      map_option (configured p) (sqlite_gws L s (gw_ID (w_gateway w)))) \<and>
    (case cp_SendFrequencyMs p of None \<Rightarrow> True | Some f \<Rightarrow> 0 < sint f) \<and>
    w' = w\<lparr>w_configCh := Chan (ch_cap (w_configCh w))
      (ch_buf (w_configCh w) @ [\<lparr>cu_SendFrequencyMs = cp_SendFrequencyMs p, cu_Status = cp_Status p\<rparr>])\<rparr>"
  using sqlite.config_ack_refines [OF assms(1,3,2)] by simp

definition ex_config_payload :: json where
  "ex_config_payload = JObj [(''send_frequency_ms'', JInt 250)]"

lemma acknowledged_config_is_stored_and_queued_witness:
  "\<exists>w' s'. handleConfigUpdateCommand (sqlite_ops ex_libs) (Some ex_config_payload)
      (ex_worker\<lparr>w_gateway := ex_gateway\<lparr>gw_ID := 1\<rparr>\<rparr>, snd (CreateGateway ex_libs ex_gateway ex_db))
        = ((ACK, None), w', s') \<and>
     map_option gw_SendFrequencyMs (sqlite_gws ex_libs s' 1) = Some 250"
proof -
  let ?s = "snd (CreateGateway ex_libs ex_gateway ex_db)" and ?w = "ex_worker\<lparr>w_gateway := ex_gateway\<lparr>gw_ID := 1\<rparr>\<rparr>"
  note law = CreateGateway_law [OF ex_db_ok ex_gateway_key ex_created]
  have ok: "sqlite_ok ex_libs ?s" and row: "sqlite_gws ex_libs ?s 1 = Some (ex_gateway\<lparr>gw_ID := 1\<rparr>)"
    using law by simp_all
  have p: "unmarshal_CommandConfigPayload (Some ex_config_payload) =
      Inr \<lparr>cp_SendFrequencyMs = Some 250, cp_Status = None\<rparr>"
    using unmarshal_config_frequency [of 250] by (simp add: ex_config_payload_def)
  obtain ans w' s' where h: "handleConfigUpdateCommand (sqlite_ops ex_libs) (Some ex_config_payload) (?w, ?s) = (ans, w', s')"
    by (cases "handleConfigUpdateCommand (sqlite_ops ex_libs) (Some ex_config_payload) (?w, ?s)")
  have "ans = (ACK, None)"
    using h by (auto simp: handleConfigUpdateCommand_def p sqlite_ops_def UpdateFrequency_def update_gateway_def
        db_statement_def CreateGateway_def ex_db_def empty_store_def Let_def rows_affected_def gateway_row_of_def
        ex_gateway_def ex_worker_def NewGatewayWorker_def make_chan_def try_send_def)
  with acknowledged_config_is_stored_and_queued [OF ok p, of ?w "None" w' s'] h row
  show ?thesis by (auto simp: configured_def)
qed

text \<open>
  C32: when the oldest queued update names a frequency of at most 9223372036854 ms, the next tick takes it
  from the channel and does exactly this: a positive frequency becomes the worker's and its ticker's period, and the
  status that came with it is set; an update whose frequency is not positive is
  dropped as a whole, its status included. A worker without a ticker never ticks; its loop takes the
  update directly and starts a ticker of the same period, but drops the status.
\<close>

theorem queued_config_is_applied_or_dropped:
  assumes "ch_buf (w_configCh w) = \<lparr>cu_SendFrequencyMs = Some f, cu_Status = st\<rparr> # us"
    and "sint f \<le> 9223372036854"
  shows "\<exists>d. (0 < sint f \<longrightarrow> sint d = sint f * 1000000) \<and>
    (let v = w\<lparr>w_configCh := Chan (ch_cap (w_configCh w)) us\<rparr>; g = (w_gateway w)\<lparr>gw_SendFrequencyMs := f\<rparr>
     in drainConfig w = Return
          (if 0 < sint f
           then v\<lparr>w_gateway := (case st of None \<Rightarrow> g | Some x \<Rightarrow> g\<lparr>gw_Status := x\<rparr>), w_ticker := Some d\<rparr>
           else v) \<and>
        (w_ticker w = None \<longrightarrow> sensorLoop_case L ops Config_case (w, s, m, e) = Some (Return
          (if 0 < sint f then v\<lparr>w_gateway := g, w_ticker := Some d\<rparr> else v, s, m, e))))"
proof (cases "0 < sint f")
  case True
  have "sint (f * Millisecond) = sint f * 1000000" using True assms(2) by (intro sint_times_Millisecond) simp_all
  with assms(1) True show ?thesis
    by (intro exI [of _ "f * Millisecond"]) (auto simp: drainConfig_def try_recv_def apply_config_def ticker_Reset_def
        apply_status_def sensorLoop_case_def NewTicker_def Let_def split: option.split)
next
  case False
  with assms(1) show ?thesis
    by (auto simp: drainConfig_def try_recv_def apply_config_def sensorLoop_case_def Let_def)
qed

lemma queued_config_is_applied_or_dropped_witness:
  "\<exists>w'. drainConfig (ex_worker\<lparr>w_configCh := Chan 10 [\<lparr>cu_SendFrequencyMs = Some 250, cu_Status = Some Paused\<rparr>]\<rparr>)
       = Return w' \<and> map_option sint (w_ticker w') = Some 250000000 \<and> isCommunicationBlocked w'"
proof -
  let ?w = "ex_worker\<lparr>w_configCh := Chan 10 [\<lparr>cu_SendFrequencyMs = Some 250, cu_Status = Some Paused\<rparr>]\<rparr>"
  have "ch_buf (w_configCh ?w) = \<lparr>cu_SendFrequencyMs = Some 250, cu_Status = Some Paused\<rparr> # []"
    "sint (250 :: int64) \<le> 9223372036854" by simp_all
  from queued_config_is_applied_or_dropped [OF this, of ex_libs "sqlite_ops ex_libs" ex_db NewMetrics ex_env] show ?thesis
    by (auto simp: isCommunicationBlocked_def Let_def)
qed

subsection \<open>Overflow and restart\<close>

text \<open>
  C38: a send frequency of up to 9223372036854 ms starts a ticker of exactly that period; one millisecond more
  overflows the 64-bit duration and starting the worker panics.
\<close>

theorem ticker_period_is_exact_until_overflow:
  assumes "\<not> w_isRunning w" and "0 < sint (gw_SendFrequencyMs (w_gateway w))"
  shows "(sint (gw_SendFrequencyMs (w_gateway w)) \<le> 9223372036854 \<longrightarrow>
      (\<exists>d. worker_Start w = Return (w\<lparr>w_isRunning := True, w_ticker := Some d\<rparr>) \<and>
        sint d = sint (gw_SendFrequencyMs (w_gateway w)) * 1000000)) \<and>
    (sint (gw_SendFrequencyMs (w_gateway w)) = 9223372036855 \<longrightarrow> (\<exists>msg. worker_Start w = Panic msg))"
proof -
  let ?f = "gw_SendFrequencyMs (w_gateway w)"
  have "sint ?f \<le> 9223372036854 \<Longrightarrow> sint (?f * Millisecond) = sint ?f * 1000000"
    using assms(2) by (intro sint_times_Millisecond) simp_all
  with assms NewTicker_overflow [of ?f] show ?thesis
    by (auto simp: worker_Start_def NewTicker_def Let_def)
qed

lemma ticker_period_is_exact_until_overflow_witness:
  "(\<exists>d. worker_Start (NewGatewayWorker ex_deps) =
        Return ((NewGatewayWorker ex_deps)\<lparr>w_isRunning := True, w_ticker := Some d\<rparr>) \<and> sint d = 5000000000) \<and>
   (\<exists>msg. worker_Start (NewGatewayWorker (ex_deps\<lparr>wd_Gateway := ex_gateway\<lparr>gw_SendFrequencyMs := 9223372036855\<rparr>\<rparr>)) = Panic msg)"
proof -
  let ?v = "NewGatewayWorker (ex_deps\<lparr>wd_Gateway := ex_gateway\<lparr>gw_SendFrequencyMs := 9223372036855\<rparr>\<rparr>)"
  have "\<not> w_isRunning (NewGatewayWorker ex_deps)" "gw_SendFrequencyMs (w_gateway (NewGatewayWorker ex_deps)) = 5000"
    "\<not> w_isRunning ?v" "gw_SendFrequencyMs (w_gateway ?v) = 9223372036855"
    by (simp_all add: NewGatewayWorker_def ex_deps_def ex_gateway_def)
  with ticker_period_is_exact_until_overflow [of "NewGatewayWorker ex_deps"]
    ticker_period_is_exact_until_overflow [of ?v] show ?thesis by simp
qed

text \<open>
  C39: stopping a worker closes its publisher for good: a worker that is stopped and started again
  runs, but the next payload its flusher takes, or the next command it answers, is published through a
  nil JetStream context and panics.
\<close>

theorem restarted_worker_panics_on_publish:
  assumes "w_isRunning w" and "\<not> w_publisherClosed w" and "period_ok (gw_SendFrequencyMs (w_gateway w))"
  shows "\<exists>w'. worker_Start (worker_Stop w) = Return w' \<and> w_isRunning w' \<and>
    (mb_contents (w_buffer w') \<noteq> [] \<longrightarrow>
      (\<exists>msg. Flush_iteration False False (w_buffer w', w_publisher w', m, e) = Panic msg)) \<and>
    (clock_sane e \<longrightarrow> (\<exists>msg. sendACK L commandID ans (w', e) = Panic msg))"
proof -
  let ?s = "worker_Stop w"
  have s: "\<not> w_isRunning ?s" "\<not> pub_js (w_publisher ?s)" "w_gateway ?s = w_gateway w"
    using assms by (simp_all add: worker_Stop_def Let_def)
  have "\<exists>d. worker_Start ?s = Return (?s\<lparr>w_isRunning := True, w_ticker := d\<rparr>)"
  proof (cases "0 < sint (gw_SendFrequencyMs (w_gateway w))")
    case True
    then have "0 < sint (gw_SendFrequencyMs (w_gateway w) * Millisecond)" using assms(3) by (simp add: period_ok_def)
    then have "worker_Start ?s = Return (?s\<lparr>w_isRunning := True,
        w_ticker := Some (gw_SendFrequencyMs (w_gateway w) * Millisecond)\<rparr>)"
      using True s(1,3) by (simp add: worker_Start_def NewTicker_def Let_def)
    then show ?thesis by blast
  next
    case False
    then have "worker_Start ?s = Return (?s\<lparr>w_isRunning := True, w_ticker := None\<rparr>)"
      using s(1,3) by (simp add: worker_Start_def)
    then show ?thesis by blast
  qed
  then obtain d where w': "worker_Start ?s = Return (?s\<lparr>w_isRunning := True, w_ticker := d\<rparr>)" by blast
  let ?w = "?s\<lparr>w_isRunning := True, w_ticker := d\<rparr>"
  have "mb_contents (w_buffer ?w) \<noteq> [] \<Longrightarrow>
      \<exists>msg. Flush_iteration False False (w_buffer ?w, w_publisher ?w, m, e) = Panic msg"
    using s(2) by (auto simp: Flush_iteration_def try_recv_def publish_closed_panics Let_def neq_Nil_conv)
  moreover have "clock_sane e \<Longrightarrow> \<exists>msg. sendACK L commandID ans (?w, e) = Panic msg"
    using s(2) by (auto simp: sendACK_def clock_Now_eq marshal_CommandACK_def encode_clock publish_closed_panics
        Let_def split: option.splits sum.splits)
  ultimately show ?thesis using w' by auto
qed

lemma restarted_worker_panics_on_publish_witness:
  "\<exists>w' msg. worker_Start (worker_Stop ex_worker) = Return w' \<and>
     sendACK ex_libs ''c1'' (ACK, None) (w', ex_env) = Panic msg"
proof -
  have "w_isRunning ex_worker" "\<not> w_publisherClosed ex_worker" "period_ok (gw_SendFrequencyMs (w_gateway ex_worker))"
    by (simp_all add: ex_worker_def NewGatewayWorker_def ex_gateway_def period_ok_range)
  from restarted_worker_panics_on_publish [OF this, of NewMetrics ex_env ex_libs "''c1''" "(ACK, None)"]
    ex_clock_sane show ?thesis by auto
qed

end
