(* ===== verification/Registry_Restore.thy ===== *)
theory Registry_Restore
  imports Registry_System
begin

text \<open>
  \<^verbatim>\<open>RestoreAll\<close> on a registry that has no worker yet: the invariant holds afterwards, whatever
  sensors could be listed and whatever connections could be opened, and every worker it made is a
  running one for a provisioned row of the store.
\<close>

text \<open>A worker that restoring gateways of a list may have added.\<close>

definition restored_from :: "SimGateway list \<Rightarrow> GatewayWorker \<Rightarrow> bool" where
  "restored_from gs w \<longleftrightarrow>
     w_gateway w \<in> set gs \<and> gw_Provisioned (w_gateway w) \<and> w_isRunning w \<and> \<not> w_connClosed w \<and> w_pumpRunning w"

text \<open>
  The start of the registry in \<^verbatim>\<open>internal/app/app.go\<close>: with \<^verbatim>\<open>RECOVERY_MODE\<close> the gateways are
  restored, and an error of that is logged only. The decommission listener is subscribed before; its
  messages are steps after the restoring here.
\<close>

definition recover_registry ::
  "'x libs_scheme \<Rightarrow> 's store_ops \<Rightarrow> Config \<Rightarrow> 's GatewayRegistry \<Rightarrow> 's GatewayRegistry go" where
  "recover_registry L ops cfg r =
     (if cf_RecoveryMode cfg then go_bind (RestoreAll L ops r) (\<lambda>(_, r). Return r) else Return r)"

context relational_store
begin

lemma restore_one:
  assumes "registry_ok gws ok r" and "restoreGateway L ops gw r = Return (x, r')"
    and "has_row (gws (rg_store r)) gw" and "map_of (rg_workers r) (gw_ManagementGatewayID gw) = None"
    and "gw_Provisioned gw"
  shows "registry_ok gws ok r' \<and> same_gateways (gws (rg_store r)) (gws (rg_store r')) \<and>
    (rg_workers r' = rg_workers r \<or>
     (\<exists>w. rg_workers r' = map_put (gw_ManagementGatewayID gw) w (rg_workers r) \<and> restored_from [gw] w))"
proof -
  obtain y r1 where ls: "on_store (op_ListSensors ops (gw_ID gw)) r = (y, r1)" by force
  note lf = on_storeD [OF ls] and ok1 = reads_ok(3) [OF assms(1) ls]
  have s1: "gws (rg_store r1) = gws (rg_store r)" using ListSensors [OF ok_store [OF assms(1)] lf(1)] by simp
  show ?thesis
  proof (cases y)
    case (Inl e)
    then show ?thesis using assms(2) ls ok1 lf s1 by (simp add: restoreGateway_def same_gateways_refl)
  next
    case y: (Inr sensors)
    obtain z r2 where con: "connector_Connect (gw_CertPEM gw) (gw_PrivateKeyPEM gw) (gw_TenantID gw)
      (gw_ManagementGatewayID gw) r1 = (z, r2)" by force
    note cf = connector_ConnectD [OF con]
    show ?thesis
    proof (cases z)
      case (Inl e)
      with con have r2: "r2 = r1\<lparr>rg_env := env_tick (rg_env r1)\<rparr>"
        by (auto simp: connector_Connect_def Let_def split: sum.splits)
      have "registry_ok gws ok r2" unfolding r2 by (rule registry_ok_env [OF ok1]) simp
      moreover have "r' = r2" using assms(2) ls y con Inl by (simp add: restoreGateway_def)
      moreover have "gws (rg_store r2) = gws (rg_store r)" "rg_workers r2 = rg_workers r"
        using s1 lf(2) by (simp_all add: r2)
      ultimately show ?thesis by (simp add: same_gateways_refl)
    next
      case z: (Inr pub)
      from assms(2) ls y con z have st: "startWorker L ops gw sensors pub r2 = Return r'"
        by (auto simp: restoreGateway_def go_bind_eq_Return)
      have "config_ok (rg_cfg r2)" using assms(1) cf(3) lf(5) by (simp add: registry_holds_def)
      from startWorkerD [OF st this] obtain w where
        w: "rg_workers r' = map_put (gw_ManagementGatewayID gw) w (rg_workers r2)"
        "w_gateway w = gw" "worker_ok w" "w_isRunning w" "\<not> w_connClosed w" "\<not> w_publisherClosed w"
        "w_pumpRunning w"
        and r3: "rg_store r' = snd (op_UpdateStatus ops (gw_ID gw) Online (rg_store r2))" "rg_cfg r' = rg_cfg r2"
        "oracles (rg_env r') = oracles (rg_env r2)" "rg_conns r' = rg_conns r2" "rg_subs r' = rg_subs r2"
        "GatewaysRunning (rg_metrics r') = GatewaysRunning (rg_metrics r2) + 1"
        by metis
      obtain q s4 where u: "op_UpdateStatus ops (gw_ID gw) Online (rg_store r2) = (q, s4)" by force
      have okr: "ok (rg_store r2)" using ok_store [OF ok1] cf(2) by simp
      note uf = UpdateStatus_frame [OF okr u]
      have s4: "rg_store r' = s4" using r3(1) u by simp
      have same: "same_gateways (gws (rg_store r)) (gws s4)" using uf(2) cf(2) s1 by simp
      have reg: "worker_registered (gws s4) (gw_ManagementGatewayID gw) w"
        using w has_row_same [OF same assms(3)] by (auto simp: worker_registered_def has_row_def)
      have keep: "rows_kept (gws (rg_store r)) (gws s4)" by (rule rows_kept_same [OF same])
      have "registry_ok gws ok r'"
        by (rule registry_ok_add [OF assms(1,4), where w = w])
           (use reg keep w r3 cf lf z uf(1) in \<open>simp_all add: s4\<close>)
      then show ?thesis using same w assms(5) cf(1) lf(2) by (auto simp: s4 restored_from_def)
    qed
  qed
qed

lemma restore_each_ok:
  "registry_ok gws ok r \<Longrightarrow> restore_each L ops gs r = Return r' \<Longrightarrow>
   \<forall>gw \<in> set gs. has_row (gws (rg_store r)) gw \<and> map_of (rg_workers r) (gw_ManagementGatewayID gw) = None \<Longrightarrow>
   distinct (map gw_ManagementGatewayID gs) \<Longrightarrow>
   registry_ok gws ok r' \<and> same_gateways (gws (rg_store r)) (gws (rg_store r')) \<and>
   (\<forall>u w. map_of (rg_workers r') u = Some w \<longrightarrow> map_of (rg_workers r) u = Some w \<or> restored_from gs w)"
proof (induction gs arbitrary: r)
  case Nil
  then show ?case by (simp add: same_gateways_refl)
next
  case (Cons gw gs)
  show ?case
  proof (cases "gw_Provisioned gw")
    case False
    have "restore_each L ops gs r = Return r'" using Cons.prems(2) False by simp
    from Cons.IH [OF Cons.prems(1) this] Cons.prems(3,4) show ?thesis
      by (auto simp: restored_from_def)
  next
    case True
    with Cons.prems(2) obtain x r1 where one: "restoreGateway L ops gw r = Return (x, r1)"
      and rest: "restore_each L ops gs r1 = Return r'"
      by (auto simp: go_bind_eq_Return)
    have "has_row (gws (rg_store r)) gw" "map_of (rg_workers r) (gw_ManagementGatewayID gw) = None"
      using Cons.prems(3) by simp_all
    note o = restore_one [OF Cons.prems(1) one this True]
    have pre: "\<forall>g \<in> set gs. has_row (gws (rg_store r1)) g \<and> map_of (rg_workers r1) (gw_ManagementGatewayID g) = None"
      using o Cons.prems(3,4) has_row_same by (fastforce simp: image_iff)
    have "registry_ok gws ok r'" "same_gateways (gws (rg_store r1)) (gws (rg_store r'))"
      "\<forall>u w. map_of (rg_workers r') u = Some w \<longrightarrow> map_of (rg_workers r1) u = Some w \<or> restored_from gs w"
      using Cons.IH [OF _ rest pre] o Cons.prems(4) by simp_all
    with o same_gateways_trans show ?thesis
      by (fastforce simp: restored_from_def split: if_splits)
  qed
qed

text \<open>What the invariant says of a registered worker.\<close>

lemma registered_worker:
  assumes "registry_holds H gws ok r" and "map_of (rg_workers r) u = Some w"
  shows "worker_ok w \<and> gw_ManagementGatewayID (w_gateway w) = u \<and>
    (\<exists>!g. g \<in> ran (gws (rg_store r)) \<and> gw_ManagementGatewayID g = u) \<and>
    (\<not> w_isRunning w \<longrightarrow> w_connClosed w \<and> \<not> w_pumpRunning w)"
proof -
  note reg = registry_ok_worker [OF assms]
  then obtain i g where g: "gws (rg_store r) i = Some g" "gw_ManagementGatewayID g = u"
    by (auto simp: worker_registered_def)
  then have "\<exists>!g. g \<in> ran (gws (rg_store r)) \<and> gw_ManagementGatewayID g = u"
    using unique_management [OF ok_store [OF assms(1)]] by (auto intro!: ex1I [of _ g] intro: ranI)
  with reg show ?thesis unfolding worker_registered_def by blast
qed

text \<open>The listed gateways, on a registry without workers.\<close>

lemma listed_gateways:
  assumes "registry_holds H gws ok r" and "rg_workers r = []" and "on_store (op_ListGateways ops) r = (Inr gs, r1)"
  shows "set gs = ran (gws (rg_store r))" and "rows_held (gws (rg_store r1)) [] gs"
    and "gws (rg_store r1) = gws (rg_store r)" and "rg_workers r1 = []"
proof -
  note lf = on_storeD [OF assms(3)]
  note law = ListGateways [OF ok_store [OF assms(1)] lf(1)]
  from law show set: "set gs = ran (gws (rg_store r))" and same: "gws (rg_store r1) = gws (rg_store r)" by simp_all
  show "rg_workers r1 = []" using lf(2) assms(2) by simp
  have "inj_on gw_ManagementGatewayID (set gs)"
    using unique_management [OF ok_store [OF assms(1)]] by (auto simp: set intro!: inj_onI)
  then have "distinct (map gw_ManagementGatewayID gs)" using law by (simp add: distinct_map)
  then show "rows_held (gws (rg_store r1)) [] gs"
    using ran_gws_id [OF ok_store [OF assms(1)]] by (auto simp: same set rows_held_def has_row_def list_all_iff)
qed

lemma restore_all_ok:
  assumes "registry_ok gws ok r" and "rg_workers r = []" and "RestoreAll L ops r = Return (x, r')"
  shows "registry_ok gws ok r'" and "same_gateways (gws (rg_store r)) (gws (rg_store r'))"
    and "\<forall>u w. map_of (rg_workers r') u = Some w \<longrightarrow>
      w_gateway w \<in> ran (gws (rg_store r)) \<and> gw_Provisioned (w_gateway w) \<and> w_isRunning w"
proof -
  obtain y r1 where ls: "on_store (op_ListGateways ops) r = (y, r1)" by force
  note lf = on_storeD [OF ls] and ok1 = reads_ok(2) [OF assms(1) ls]
  note law = ListGateways [OF ok_store [OF assms(1)] lf(1)]
  have "registry_ok gws ok r' \<and> same_gateways (gws (rg_store r)) (gws (rg_store r')) \<and>
    (\<forall>u w. map_of (rg_workers r') u = Some w \<longrightarrow>
      w_gateway w \<in> ran (gws (rg_store r)) \<and> gw_Provisioned (w_gateway w) \<and> w_isRunning w)"
  proof (cases y)
    case (Inl e)
    then show ?thesis using assms(2,3) ls ok1 law lf(2) by (simp add: RestoreAll_def same_gateways_refl)
  next
    case (Inr gs)
    from assms(3) ls Inr have each: "restore_each L ops gs r1 = Return r'"
      by (auto simp: RestoreAll_def go_bind_eq_Return)
    note l = listed_gateways [OF assms(1,2) ls [unfolded Inr]]
    have "\<forall>gw \<in> set gs. has_row (gws (rg_store r1)) gw \<and> map_of (rg_workers r1) (gw_ManagementGatewayID gw) = None"
      and "distinct (map gw_ManagementGatewayID gs)"
      using l(2,4) by (simp_all add: rows_held_def list_all_iff)
    from restore_each_ok [OF ok1 each this] show ?thesis
      using l by (auto simp: restored_from_def)
  qed
  then show "registry_ok gws ok r'" "same_gateways (gws (rg_store r)) (gws (rg_store r'))"
    "\<forall>u w. map_of (rg_workers r') u = Some w \<longrightarrow>
      w_gateway w \<in> ran (gws (rg_store r)) \<and> gw_Provisioned (w_gateway w) \<and> w_isRunning w" by blast+
qed

lemma recover_ok:
  assumes "registry_ok gws ok r" and "rg_workers r = []" and "recover_registry L ops cfg r = Return r'"
  shows "registry_ok gws ok r'"
  using assms restore_all_ok(1) [OF assms(1,2)]
  by (auto simp: recover_registry_def go_bind_eq_Return split: if_splits)

end

text \<open>After \<^verbatim>\<open>StopAll\<close> nothing runs and nothing is open.\<close>

lemma stop_each_stops:
  "\<forall>(u, w) \<in> set ws. map_of (rg_workers r) u = Some w \<Longrightarrow> distinct (map fst ws) \<Longrightarrow>
   \<forall>u w. map_of (rg_workers r) u = Some w \<longrightarrow> u \<in> fst ` set ws \<or> \<not> w_isRunning w \<Longrightarrow>
   map_of (rg_workers (stop_each ws r)) u = Some w \<Longrightarrow> \<not> w_isRunning w"
proof (induction ws arbitrary: r)
  case (Cons p ws)
  obtain v x where p: "p = (v, x)" by (cases p)
  obtain x' r1 where s: "stop_worker x r = (x', r1)" by force
  note sf = stop_worker_facts [OF s]
  let ?r = "r1\<lparr>rg_workers := map_put v x' (rg_workers r1)\<rparr>"
  have "\<forall>(u, w) \<in> set ws. map_of (rg_workers ?r) u = Some w"
    using Cons.prems(1,2) sf(1) p by (fastforce simp: image_iff)
  moreover have "\<forall>u w. map_of (rg_workers ?r) u = Some w \<longrightarrow> u \<in> fst ` set ws \<or> \<not> w_isRunning w"
    using Cons.prems(3) sf(1,7) p by auto
  ultimately show ?case using Cons.IH [of ?r] Cons.prems(2,4) by (simp add: p s)
qed (auto)

context relational_store
begin

lemma stop_all_closes:
  assumes "registry_ok gws ok r"
  shows "rg_conns (StopAll r) = 0" and "rg_subs (StopAll r) = 0"
    and "map_of (rg_workers (StopAll r)) u = Some w \<Longrightarrow> \<not> w_isRunning w"
proof -
  note d = registry_ok_distinct [OF assms]
  have stopped: "\<not> w_isRunning w" if "map_of (rg_workers (StopAll r)) u = Some w" for u w
    using that unfolding StopAll_def
    by (rule stop_each_stops [rotated 3]) (use d in \<open>auto simp: map_of_eq_Some_iff rev_image_eqI\<close>)
  then show "map_of (rg_workers (StopAll r)) u = Some w \<Longrightarrow> \<not> w_isRunning w" .
  note ok = stop_all_ok [OF assms]
  have "w_connClosed w \<and> \<not> w_pumpRunning w" if "(u, w) \<in> set (rg_workers (StopAll r))" for u w
  proof -
    have m: "map_of (rg_workers (StopAll r)) u = Some w"
      using that registry_ok_distinct [OF ok] by (simp add: map_of_eq_Some_iff)
    then show ?thesis using stopped [OF m] registry_ok_worker [OF ok m] by (simp add: worker_registered_def)
  qed
  then have "open_conns (rg_workers (StopAll r)) = 0" "open_subs (rg_workers (StopAll r)) = 0"
    by (auto simp: open_conns_def open_subs_def filter_empty_conv)
  then show "rg_conns (StopAll r) = 0" "rg_subs (StopAll r) = 0" using ok by (simp_all add: registry_holds_def)
qed

end

end
