(* ===== verification/Registry_Properties.thy ===== *)
theory Registry_Properties
  imports Registry_Restore Example_World
begin

text \<open>
  The properties of the gateway registry over the SQLite store, obtained from the interface
  \<open>relational_store\<close> by its interpretation on that store.
\<close>

subsection \<open>Creating gateways\<close>

text \<open>
  C4: a creation that fails, at whatever stage (provisioning, store, connection, listing the sensors),
  leaves the workers, the open connections and subscriptions and the gauge as they were and counts one
  provisioning error; the tables are as before, or the row of the new gateway was created, its compensating
  deletion was the last statement on the store, right after the creation or after the listing of the
  sensors when that is what failed, this deletion failed itself, and just that row is left.
\<close>

theorem failed_creation_leaves_no_trace:
  assumes "registry_ok (sqlite_gws L) (sqlite_ok L) r"
    and "CreateAndStart L (sqlite_ops L) req r = Return (Inl err, r')"
  shows "rg_workers r' = rg_workers r \<and> rg_conns r' = rg_conns r \<and> rg_subs r' = rg_subs r \<and>
    GatewaysRunning (rg_metrics r') = GatewaysRunning (rg_metrics r) \<and>
    ProvisioningErrors (rg_metrics r') = Suc (ProvisioningErrors (rg_metrics r)) \<and>
    sqlite_sns L (rg_store r') = sqlite_sns L (rg_store r) \<and>
    (sqlite_gws L (rg_store r') = sqlite_gws L (rg_store r) \<or>
     (\<exists>g i s1 e. CreateGateway L g (rg_store r) = (Inr i, s1) \<and> sqlite_gws L (rg_store r) i = None \<and>
        sqlite_gws L (rg_store r') = (sqlite_gws L (rg_store r))(i \<mapsto> g\<lparr>gw_ID := i\<rparr>) \<and>
        DeleteGateway i (if listing_failed err then snd (ListSensors L i s1) else s1) = (Inl e, rg_store r')))"
  using sqlite.CreateAndStart_failure [OF assms]
  unfolding left_no_trace_def store_rolled_back_def sqlite_ops_def store_ops.select_convs by - (elim conjE, intro conjI)

text \<open>Whether a call returned an error, a value, or panicked.\<close>

fun outcome :: "('a result \<times> 'b) go \<Rightarrow> nat" where
  "outcome (Return (Inl _, _)) = 0"
| "outcome (Return (Inr _, _)) = 1"
| "outcome (Panic _) = 2"

lemma outcome_cases:
  "outcome x = 0 \<Longrightarrow> \<exists>e r. x = Return (Inl e, r)" "outcome x = 1 \<Longrightarrow> \<exists>v r. x = Return (Inr v, r)"
  by (cases x rule: outcome.cases; simp)+

lemma ex_creations:
  "outcome (CreateAndStart ex_libs (sqlite_ops ex_libs) ex_request (ex_registry ex_env_refused)) = 0"
  "outcome (CreateAndStart ex_libs (sqlite_ops ex_libs) ex_request (ex_registry ex_env)) = 1"
  by code_simp+

lemma failed_creation_leaves_no_trace_witness:
  "\<exists>err r'. CreateAndStart ex_libs (sqlite_ops ex_libs) ex_request (ex_registry ex_env_refused) =
      Return (Inl err, r') \<and> rg_conns r' = 0 \<and> ProvisioningErrors (rg_metrics r') = 1"
proof -
  obtain err r' where c: "CreateAndStart ex_libs (sqlite_ops ex_libs) ex_request (ex_registry ex_env_refused) =
      Return (Inl err, r')" using outcome_cases(1) [OF ex_creations(1)] by blast
  from failed_creation_leaves_no_trace [OF ex_registry_ok [OF ex_env_lawful(2)] c] c
  show ?thesis by (simp add: ex_registry_def NewGatewayRegistry_def NewMetrics_def)
qed

text \<open>
  C5: a creation that succeeds adds exactly one worker, filed under the new gateway's management id, which
  had none; the worker runs, with an open connection, its command pump and an empty outlook; its
  gateway's row is new in the table; and exactly one connection and one subscription were opened.
\<close>

theorem successful_creation_hands_over_one_worker:
  assumes "registry_ok (sqlite_gws L) (sqlite_ok L) r"
    and "CreateAndStart L (sqlite_ops L) req r = Return (Inr gw, r')"
  shows "map_of (rg_workers r) (gw_ManagementGatewayID gw) = None \<and>
    (\<exists>w. rg_workers r' = map_put (gw_ManagementGatewayID gw) w (rg_workers r) \<and>
       w_isRunning w \<and> w_pumpRunning w \<and> \<not> w_connClosed w \<and> pub_js (w_publisher w) \<and>
       gw_ID (w_gateway w) = gw_ID gw \<and> mb_subject (w_buffer w) = telemetry_subject L gw) \<and>
    sqlite_gws L (rg_store r) (gw_ID gw) = None \<and>
    (\<exists>st. sqlite_gws L (rg_store r') = (sqlite_gws L (rg_store r))(gw_ID gw \<mapsto> gw\<lparr>gw_Status := st\<rparr>)) \<and>
    rg_conns r' = Suc (rg_conns r) \<and> rg_subs r' = Suc (rg_subs r) \<and>
    GatewaysRunning (rg_metrics r') = GatewaysRunning (rg_metrics r) + 1 \<and>
    gw_Provisioned gw \<and> gw_Status gw = Online \<and> gw_FactoryID gw = cr_FactoryID req \<and>
    gw_SendFrequencyMs gw =
      (if sint (cr_SendFrequencyMs req) \<le> 0 then cf_DefaultSendFrequencyMs (rg_cfg r) else cr_SendFrequencyMs req)"
  using sqlite.CreateAndStart_success(2,3) [OF assms] by (auto simp: gateway_handed_over_def)

lemma successful_creation_hands_over_one_worker_witness:
  "\<exists>gw r'. CreateAndStart ex_libs (sqlite_ops ex_libs) ex_request (ex_registry ex_env) = Return (Inr gw, r') \<and>
     rg_conns r' = 1 \<and> length (rg_workers r') = 1 \<and> gw_SendFrequencyMs gw = 5000"
proof -
  obtain gw r' where c: "CreateAndStart ex_libs (sqlite_ops ex_libs) ex_request (ex_registry ex_env) =
      Return (Inr gw, r')" using outcome_cases(2) [OF ex_creations(2)] by blast
  from successful_creation_hands_over_one_worker [OF ex_registry_ok [OF ex_env_lawful(1)] c] c
  show ?thesis
    by (auto simp: ex_registry_def NewGatewayRegistry_def NewMetrics_def ex_cfg_def ex_request_def)
qed

subsection \<open>The life of the registry\<close>

text \<open>
  From the start of the program, with or without the recovery of the stored gateways, through every
  sequence of calls of the API, decommissions, shutdowns, loop iterations, flushes and received
  commands that does not panic, the registry stays consistent: every worker is well formed, is filed
  under its own management id, has a row with the same id and tenant in the store and no other row has; a worker
  that does not run has closed its connection and its subscription; there are exactly as many
  open connections as workers that have not closed theirs, and as many subscriptions as running
  pumps; and the gauge is never below the number of workers.
\<close>

theorem registry_stays_consistent:
  assumes "Load getenv = Inr cfg" and "sqlite_ok L s" and "onboard_lawful e"
    and "recover_registry L (sqlite_ops L) cfg (NewGatewayRegistry s e cfg NewMetrics) = Return r0"
    and "registry_reachable L (sqlite_ops L) r0 r"
  shows "distinct (map fst (rg_workers r)) \<and>
    (\<forall>u w. map_of (rg_workers r) u = Some w \<longrightarrow>
       worker_ok w \<and> gw_ManagementGatewayID (w_gateway w) = u \<and>
       (\<exists>!g. g \<in> ran (sqlite_gws L (rg_store r)) \<and> gw_ManagementGatewayID g = u) \<and>
       (\<not> w_isRunning w \<longrightarrow> w_connClosed w \<and> \<not> w_pumpRunning w)) \<and>
    rg_conns r = length (filter (\<lambda>(_, w). \<not> w_connClosed w) (rg_workers r)) \<and>
    rg_subs r = length (filter (\<lambda>(_, w). w_pumpRunning w) (rg_workers r)) \<and>
    int (length (rg_workers r)) \<le> GatewaysRunning (rg_metrics r)"
proof -
  have "registry_ok (sqlite_gws L) (sqlite_ok L) (NewGatewayRegistry s e cfg NewMetrics)"
    using assms(2,3) Load_ok [OF assms(1)] by (intro NewGatewayRegistry_ok) (simp_all add: NewMetrics_def)
  from sqlite.recover_ok [OF this _ assms(4)]
  have "registry_ok (sqlite_gws L) (sqlite_ok L) r0" by (simp add: NewGatewayRegistry_def)
  from sqlite.registry_reachable_ok [OF assms(5) this]
  have ok: "registry_ok (sqlite_gws L) (sqlite_ok L) r" .
  from sqlite.registered_worker [OF ok] ok show ?thesis
    by (simp add: registry_holds_def open_conns_def open_subs_def)
qed

lemma registry_stays_consistent_witness:
  "\<exists>r. registry_reachable ex_libs (sqlite_ops ex_libs) (ex_registry ex_env) r \<and>
     rg_conns r = 1 \<and> length (filter (\<lambda>(_, w). \<not> w_connClosed w) (rg_workers r)) = 1"
proof -
  obtain gw r where c: "CreateAndStart ex_libs (sqlite_ops ex_libs) ex_request (ex_registry ex_env) =
      Return (Inr gw, r)" using outcome_cases(2) [OF ex_creations(2)] by blast
  have reach: "registry_reachable ex_libs (sqlite_ops ex_libs) (ex_registry ex_env) r"
    by (rule registry_more [OF registry_start step_create [OF c]])
  have boot: "recover_registry ex_libs (sqlite_ops ex_libs) ex_cfg (NewGatewayRegistry ex_db ex_env ex_cfg NewMetrics) =
      Return (ex_registry ex_env)"
    by (simp add: recover_registry_def ex_cfg_def ex_registry_def ex_db_def)
  have "rg_conns r = 1"
    using sqlite.CreateAndStart_success(2) [OF ex_registry_ok [OF ex_env_lawful(1)] c]
    by (simp add: gateway_handed_over_def ex_registry_def NewGatewayRegistry_def)
  with registry_stays_consistent [OF ex_Load ex_db_ok ex_env_lawful(1) boot reach] reach
  show ?thesis by force
qed

text \<open>
  C8: deleting a gateway by the API, on every branch. Without a worker under the id the error is that the gateway was
  not found and nothing changes. Otherwise exactly this worker leaves the map, and its connection and its
  subscription are closed if they were open. If the store then deletes the row, exactly this row and the sensors of
  this gateway are gone and the gauge is one lower; if the store fails, its error is returned and both tables and
  the gauge are as before, although the worker is gone. In any case the registry stays consistent.
\<close>

theorem deletion_by_branch:
  assumes "registry_ok (sqlite_gws L) (sqlite_ok L) r" and "registry_Delete L (sqlite_ops L) u r = (y, r')"
  shows "(case map_of (rg_workers r) u of
      None \<Rightarrow> y = Inl (notFound L u) \<and> r' = r
    | Some w \<Rightarrow>
        rg_workers r' = map_del u (rg_workers r) \<and>
        rg_conns r = rg_conns r' + (if w_connClosed w then 0 else 1) \<and>
        rg_subs r = rg_subs r' + (if w_pumpRunning w then 1 else 0) \<and>
        (case y of
           Inr _ \<Rightarrow> sqlite_gws L (rg_store r') = (sqlite_gws L (rg_store r))(gw_ID (w_gateway w) := None) \<and>
             ran (sqlite_sns L (rg_store r')) =
               {n \<in> ran (sqlite_sns L (rg_store r)). sn_GatewayID n \<noteq> gw_ID (w_gateway w)} \<and>
             GatewaysRunning (rg_metrics r') = GatewaysRunning (rg_metrics r) - 1
         | Inl err \<Rightarrow> (\<exists>e. err = Wrap ''delete gateway from store: '' e '''') \<and>
             sqlite_gws L (rg_store r') = sqlite_gws L (rg_store r) \<and>
             sqlite_sns L (rg_store r') = sqlite_sns L (rg_store r) \<and>
             GatewaysRunning (rg_metrics r') = GatewaysRunning (rg_metrics r))) \<and>
    registry_ok (sqlite_gws L) (sqlite_ok L) r'"
proof (cases "map_of (rg_workers r) u")
  case None
  then show ?thesis using assms by (simp add: registry_Delete_def)
next
  case (Some w)
  obtain w' r1 where s: "stop_worker w (r\<lparr>rg_workers := map_del u (rg_workers r)\<rparr>) = (w', r1)" by force
  note sf = stop_worker_facts [OF s]
  obtain x r2 where d: "on_store (op_DeleteGateway (sqlite_ops L) (gw_ID (w_gateway w))) r1 = (x, r2)" by force
  note df = on_storeD [OF d]
  have reg: "worker_registered (sqlite_gws L (rg_store r)) u w" by (rule registry_ok_worker [OF assms(1) Some])
  note o = open_del [OF registry_ok_distinct [OF assms(1)] Some]
  have counts: "rg_conns r = open_conns (rg_workers r)" "rg_subs r = open_subs (rg_workers r)"
    and st: "sqlite_ok L (rg_store r)" using assms(1) by (simp_all add: registry_holds_def)
  have ok: "registry_ok (sqlite_gws L) (sqlite_ok L) r'" by (rule sqlite.delete_ok [OF assms]) simp
  have del: "op_DeleteGateway (sqlite_ops L) (gw_ID (w_gateway w)) (rg_store r) = (x, rg_store r2)"
    using df(1) sf(2) by simp
  note law = sqlite.DeleteGateway [OF st del]
  show ?thesis
  proof (cases x)
    case (Inl err)
    then have "y = Inl (Wrap ''delete gateway from store: '' err '''')" "r' = r2"
      using assms(2) Some s d by (simp_all add: registry_Delete_def)
    then show ?thesis using Some ok law Inl df sf counts o sf(9) [OF reg] by (auto split: if_splits)
  next
    case (Inr v)
    then have r': "y = Inr ()" "r' = inc_running (- 1) r2"
      using assms(2) Some s d by (simp_all add: registry_Delete_def)
    have "ran (sqlite_sns L (rg_store r2)) = {n \<in> ran (sqlite_sns L (rg_store r)). sn_GatewayID n \<noteq> gw_ID (w_gateway w)}"
      using sqlite.delete_cascades [OF st del [unfolded Inr]] by auto
    then show ?thesis using r' Some ok law Inr df sf counts o sf(9) [OF reg] by (auto split: if_splits)
  qed
qed

lemma deletion_by_branch_witness:
  "\<exists>gw r. CreateAndStart ex_libs (sqlite_ops ex_libs) ex_request (ex_registry ex_env) = Return (Inr gw, r) \<and>
     rg_conns r = 1 \<and> rg_conns (snd (registry_Delete ex_libs (sqlite_ops ex_libs) (gw_ManagementGatewayID gw) r)) = 0"
proof -
  obtain gw r where c: "CreateAndStart ex_libs (sqlite_ops ex_libs) ex_request (ex_registry ex_env) =
      Return (Inr gw, r)" using outcome_cases(2) [OF ex_creations(2)] by blast
  note s = sqlite.CreateAndStart_success [OF ex_registry_ok [OF ex_env_lawful(1)] c]
  from s(2) obtain w where w: "map_of (rg_workers r) (gw_ManagementGatewayID gw) = Some w"
    and "\<not> w_connClosed w" and n: "rg_conns r = 1"
    by (auto simp: gateway_handed_over_def ex_registry_def NewGatewayRegistry_def)
  from deletion_by_branch [OF s(1) surjective_pairing, of "gw_ManagementGatewayID gw"] w n \<open>\<not> w_connClosed w\<close> c
  show ?thesis by simp
qed

text \<open>
  C18: a decommission message for a gateway of the message's tenant removes its worker and closes
  its connection and its subscription; for another tenant, an unknown gateway or an id that does not
  parse it changes nothing.
\<close>

theorem decommission_checks_the_tenant:
  assumes "registry_ok (sqlite_gws L) (sqlite_ok L) r" and "uuid_Parse L i = Some u"
    and "map_of (rg_workers r) u = Some w"
  shows "if gw_TenantID (w_gateway w) = tenant
    then rg_workers (HandleDecommission L (sqlite_ops L) tenant i r) = map_del u (rg_workers r) \<and>
      (w_connClosed w \<or> Suc (rg_conns (HandleDecommission L (sqlite_ops L) tenant i r)) = rg_conns r) \<and>
      (\<not> w_pumpRunning w \<or> Suc (rg_subs (HandleDecommission L (sqlite_ops L) tenant i r)) = rg_subs r)
    else HandleDecommission L (sqlite_ops L) tenant i r = r"
proof (cases "gw_TenantID (w_gateway w) = tenant")
  case True
  obtain w' r1 where s: "stop_worker w (r\<lparr>rg_workers := map_del u (rg_workers r)\<rparr>) = (w', r1)" by force
  note sf = stop_worker_facts [OF s]
  obtain x r2 where d: "on_store (op_DeleteGateway (sqlite_ops L) (gw_ID (w_gateway w))) r1 = (x, r2)" by force
  note df = on_storeD [OF d]
  have h: "HandleDecommission L (sqlite_ops L) tenant i r = inc_running (- 1) r2"
    using assms(2,3) True s d by (simp add: HandleDecommission_def)
  have reg: "worker_registered (sqlite_gws L (rg_store r)) u w" by (rule registry_ok_worker [OF assms(1,3)])
  note o = open_del [OF registry_ok_distinct [OF assms(1)] assms(3)]
  have "rg_conns r = open_conns (rg_workers r)" "rg_subs r = open_subs (rg_workers r)"
    using assms(1) by (simp_all add: registry_holds_def)
  with sf(9) [OF reg] o sf(1) df True show ?thesis by (auto simp: h split: if_splits)
qed (use assms(2,3) in \<open>simp add: HandleDecommission_def\<close>)

lemma decommission_checks_the_tenant_witness:
  "\<exists>r u t. HandleDecommission ex_libs (sqlite_ops ex_libs) (''x'' @ t) (uuid_String ex_libs u) r = r \<and>
     rg_conns r = 1 \<and> rg_conns (HandleDecommission ex_libs (sqlite_ops ex_libs) t (uuid_String ex_libs u) r) = 0"
proof -
  obtain gw r where c: "CreateAndStart ex_libs (sqlite_ops ex_libs) ex_request (ex_registry ex_env) =
      Return (Inr gw, r)" using outcome_cases(2) [OF ex_creations(2)] by blast
  note s = sqlite.CreateAndStart_success [OF ex_registry_ok [OF ex_env_lawful(1)] c]
  from s(2) obtain w where w: "map_of (rg_workers r) (gw_ManagementGatewayID gw) = Some w"
    and "\<not> w_connClosed w" and n: "rg_conns r = 1"
    by (auto simp: gateway_handed_over_def ex_registry_def NewGatewayRegistry_def)
  have p: "uuid_Parse ex_libs (uuid_String ex_libs (gw_ManagementGatewayID gw)) = Some (gw_ManagementGatewayID gw)"
    using ex_uuid_lawful by (simp add: uuid_lawful_def)
  from decommission_checks_the_tenant [OF s(1) p w, of "gw_TenantID (w_gateway w)"]
    decommission_checks_the_tenant [OF s(1) p w, of "''x'' @ gw_TenantID (w_gateway w)"] n \<open>\<not> w_connClosed w\<close>
  show ?thesis by (intro exI [of _ r] exI [of _ "gw_ManagementGatewayID gw"] exI) auto
qed

text \<open>
  C40: a gateway that was stored as paused or offline and is restored gets a running worker that keeps
  that status, although the store now says it is online: its worker publishes nothing.
\<close>

theorem restored_paused_gateway_is_silent:
  assumes "restoreGateway L (sqlite_ops L) gw r = Return (Inr (), r')" and "config_ok (rg_cfg r)"
    and "gw_Status gw \<in> {Paused, Offline}"
  shows "\<exists>w. map_of (rg_workers r') (gw_ManagementGatewayID gw) = Some w \<and> w_isRunning w \<and>
    (\<forall>m e. publishSensorData L (w, m, e) = Return (w, m, e))"
proof -
  from assms(1) obtain sensors r1 pub r2 where
    l: "on_store (op_ListSensors (sqlite_ops L) (gw_ID gw)) r = (Inr sensors, r1)"
    and c: "connector_Connect (gw_CertPEM gw) (gw_PrivateKeyPEM gw) (gw_TenantID gw) (gw_ManagementGatewayID gw) r1 =
      (Inr pub, r2)"
    and st: "startWorker L (sqlite_ops L) gw sensors pub r2 = Return r'"
    by (auto simp: restoreGateway_def go_bind_eq_Return split: sum.splits prod.splits)
  have "config_ok (rg_cfg r2)" using on_storeD(5) [OF l] connector_ConnectD(3) [OF c] assms(2) by simp
  with st obtain w where "rg_workers r' = map_put (gw_ManagementGatewayID gw) w (rg_workers r2)"
    "w_gateway w = gw" "w_isRunning w" by (rule startWorkerD)
  moreover from this assms(3) have "isCommunicationBlocked w" by (auto simp: isCommunicationBlocked_def Let_def)
  ultimately show ?thesis using blocked_publishes_nothing by auto
qed

lemma restored_paused_gateway_is_silent_witness:
  "\<exists>r' w. restoreGateway ex_libs (sqlite_ops ex_libs) (ex_gateway\<lparr>gw_Status := Paused\<rparr>) (ex_registry ex_env) =
      Return (Inr (), r') \<and> map_of (rg_workers r') 7 = Some w \<and>
      publishSensorData ex_libs (w, NewMetrics, ex_env) = Return (w, NewMetrics, ex_env)"
proof -
  have "outcome (restoreGateway ex_libs (sqlite_ops ex_libs) (ex_gateway\<lparr>gw_Status := Paused\<rparr>) (ex_registry ex_env)) = 1"
    by code_simp
  from outcome_cases(2) [OF this] obtain r' where r: "restoreGateway ex_libs (sqlite_ops ex_libs)
      (ex_gateway\<lparr>gw_Status := Paused\<rparr>) (ex_registry ex_env) = Return (Inr (), r')" by auto
  have "config_ok (rg_cfg (ex_registry ex_env))" by (simp add: ex_registry_def NewGatewayRegistry_def ex_cfg_ok)
  from restored_paused_gateway_is_silent [OF r this] r show ?thesis by (auto simp: ex_gateway_def)
qed

end
