(* ===== verification/Registry_Calls.thy ===== *)
theory Registry_Calls
  imports Registry_System
begin

text \<open>
  The calls of \<^verbatim>\<open>internal/app/registry.go\<close> that change state in several parts, cut where another
  goroutine can come in between: a creation, a deletion, a decommission event, the addition of a sensor and the
  restoring of the gateways at the start. Between two parts a call holds no lock; each part is one store
  operation, one access to the map of workers under the mutex, or one call of the outside world. The
  start of a worker and its entry into the map are one part: a worker that is not in the map yet can
  only be reached by its own goroutines. A call that runs without others is the operation of \<^verbatim>\<open>Registry\<close>.
\<close>

datatype registry_call =
    Create_called CreateGatewayRequest
  | Create_onboarding SimGateway
  | Create_storing SimGateway
  | Create_connecting SimGateway
  | Create_listing SimGateway NATSGatewayPublisher
  | Create_starting SimGateway NATSGatewayPublisher "SimSensor list"
  | Create_counting SimGateway
  | Create_updating SimGateway
  | Create_succeeding SimGateway
  | Create_closing SimGateway go_error
  | Create_deleting SimGateway go_error
  | Create_failing go_error
  | Create_returned "SimGateway result"
  | Delete_called uuid
  | Decommission_called string string
  | Removal_stopping bool GatewayWorker
  | Removal_erasing bool SimGateway
  | Removal_counting
  | Removal_returned "unit result"
  | Sensor_called uuid SimSensor
  | Sensor_storing uuid SimSensor SimGateway
  | Sensor_attaching uuid SimSensor
  | Sensor_returned "SimSensor result"
  | Restore_next "SimGateway list"
  | Restore_connecting SimGateway "SimSensor list" "SimGateway list"
  | Restore_starting SimGateway "SimSensor list" NATSGatewayPublisher "SimGateway list"
  | Restore_counting SimGateway "SimGateway list"
  | Restore_updating SimGateway "SimGateway list"
  | Restore_returned

text \<open>The part of \<^verbatim>\<open>startWorker\<close> up to the entry into the map.\<close>

definition register_worker ::
  "'x libs_scheme \<Rightarrow> SimGateway \<Rightarrow> SimSensor list \<Rightarrow> NATSGatewayPublisher
     \<Rightarrow> 's GatewayRegistry \<Rightarrow> 's GatewayRegistry go" where
  "register_worker L gw sensors pub r =
     (let (gens, e) = new_generators sensors (rg_env r);
          r = r\<lparr>rg_env := e\<rparr>
      in go_bind (NewMessageBuffer (cf_GatewayBufferSize (rg_cfg r)) (telemetry_subject L gw)
                    (uuid_String L (gw_ManagementGatewayID gw))) (\<lambda>buf.
         let deps = \<lparr>wd_Gateway = gw, wd_Sensors = sensors, wd_Generators = gens,
                     wd_Publisher = pub, wd_Buffer = buf\<rparr>
         in go_bind (worker_Start (NewGatewayWorker deps)) (\<lambda>w.
            let w = w\<lparr>w_pumpRunning := True\<rparr>
            in Return (r\<lparr>rg_workers := map_put (gw_ManagementGatewayID gw) w (rg_workers r)\<rparr>))))"

text \<open>The first part of a deletion and of a decommission: the worker leaves the map, if there is one to remove.\<close>

definition take_worker :: "bool \<Rightarrow> uuid \<Rightarrow> GatewayWorker \<Rightarrow> 's GatewayRegistry \<Rightarrow> registry_call \<times> 's GatewayRegistry" where
  "take_worker event u w r = (Removal_stopping event w, r\<lparr>rg_workers := map_del u (rg_workers r)\<rparr>)"

text \<open>Which operation a call is one of.\<close>

datatype call_kind = Creation | Removal | Sensor_addition | Restoring

fun kind_of :: "registry_call \<Rightarrow> call_kind" where
  "kind_of (Create_called req) = Creation"
| "kind_of (Create_onboarding gw) = Creation"
| "kind_of (Create_storing gw) = Creation"
| "kind_of (Create_connecting gw) = Creation"
| "kind_of (Create_listing gw pub) = Creation"
| "kind_of (Create_starting gw pub sensors) = Creation"
| "kind_of (Create_counting gw) = Creation"
| "kind_of (Create_updating gw) = Creation"
| "kind_of (Create_succeeding gw) = Creation"
| "kind_of (Create_closing gw err) = Creation"
| "kind_of (Create_deleting gw err) = Creation"
| "kind_of (Create_failing err) = Creation"
| "kind_of (Create_returned x) = Creation"
| "kind_of (Delete_called u) = Removal"
| "kind_of (Decommission_called t i) = Removal"
| "kind_of (Removal_stopping event w) = Removal"
| "kind_of (Removal_erasing event gw) = Removal"
| "kind_of Removal_counting = Removal"
| "kind_of (Removal_returned y) = Removal"
| "kind_of (Sensor_called u sensor) = Sensor_addition"
| "kind_of (Sensor_storing u sensor gw) = Sensor_addition"
| "kind_of (Sensor_attaching u sensor) = Sensor_addition"
| "kind_of (Sensor_returned z) = Sensor_addition"
| "kind_of (Restore_next gws) = Restoring"
| "kind_of (Restore_connecting gw sensors gws) = Restoring"
| "kind_of (Restore_starting gw sensors pub gws) = Restoring"
| "kind_of (Restore_counting gw gws) = Restoring"
| "kind_of (Restore_updating gw gws) = Restoring"
| "kind_of Restore_returned = Restoring"

text \<open>A creation: \<^verbatim>\<open>CreateAndStart\<close>, \<^verbatim>\<open>runProvisioningSaga\<close> and \<^verbatim>\<open>compensate\<close>. A call that is over does nothing more.\<close>

fun create_step ::
  "'x libs_scheme \<Rightarrow> 's store_ops \<Rightarrow> registry_call \<Rightarrow> 's GatewayRegistry
     \<Rightarrow> (registry_call \<times> 's GatewayRegistry) go" where
  "create_step L ops (Create_called req) r =
     (let (now, r) = registry_Now r in Return (Create_onboarding (requested_gateway (rg_cfg r) req now), r))"
| "create_step L ops (Create_onboarding gw) r =
     (case provisioner_Onboard (gw_FactoryID gw) (gw_FactoryKey gw) (gw_SendFrequencyMs gw)
             (gw_FirmwareVersion gw) r of
        (Inl err, r) \<Rightarrow> Return (Create_failing (Wrap ''onboard: '' err ''''), r)
      | (Inr res, r) \<Rightarrow>
          (case uuid_Parse L (pr_GatewayID res) of
             None \<Rightarrow> Return (Create_failing
                 (Wrap ''parse gateway ID from provisioning: '' (Plain ''invalid UUID'') ''''), r)
           | Some u \<Rightarrow> Return (Create_storing (provisioned_gateway u res gw), r)))"
| "create_step L ops (Create_storing gw) r =
     (case on_store (op_CreateGateway ops gw) r of
        (Inl err, r) \<Rightarrow> Return (Create_failing (Wrap ''create gateway in store: '' err ''''), r)
      | (Inr i, r) \<Rightarrow> Return (Create_connecting (gw\<lparr>gw_ID := i\<rparr>), r))"
| "create_step L ops (Create_connecting gw) r =
     (case connector_Connect (gw_CertPEM gw) (gw_PrivateKeyPEM gw) (gw_TenantID gw)
             (gw_ManagementGatewayID gw) r of
        (Inl err, r) \<Rightarrow> Return (Create_deleting gw (Wrap ''connect: '' err ''''), r)
      | (Inr pub, r) \<Rightarrow> Return (Create_listing gw pub, r))"
| "create_step L ops (Create_listing gw pub) r =
     (case on_store (op_ListSensors ops (gw_ID gw)) r of
        (Inl err, r) \<Rightarrow> Return (Create_closing gw (Wrap ''list sensors: '' err ''''), r)
      | (Inr sensors, r) \<Rightarrow> Return (Create_starting gw pub sensors, r))"
| "create_step L ops (Create_starting gw pub sensors) r =
     go_bind (register_worker L gw sensors pub r) (\<lambda>r. Return (Create_counting gw, r))"
| "create_step L ops (Create_counting gw) r = Return (Create_updating gw, inc_running 1 r)"
| "create_step L ops (Create_updating gw) r =
     (let (_, r) = on_store (op_UpdateStatus ops (gw_ID gw) Online) r in Return (Create_succeeding gw, r))"
| "create_step L ops (Create_succeeding gw) r =
     Return (Create_returned (Inr (gw\<lparr>gw_Status := Online\<rparr>)), inc_success r)"
| "create_step L ops (Create_closing gw err) r =
     Return (Create_deleting gw err, r\<lparr>rg_subs := rg_subs r - 1, rg_conns := rg_conns r - 1\<rparr>)"
| "create_step L ops (Create_deleting gw err) r =
     (let (_, r) = on_store (op_DeleteGateway ops (gw_ID gw)) r in Return (Create_failing err, r))"
| "create_step L ops (Create_failing err) r = Return (Create_returned (Inl err), inc_errors r)"
| "create_step L ops c r = Return (c, r)"

text \<open>\<^verbatim>\<open>Delete\<close> and \<^verbatim>\<open>HandleDecommission\<close>, which differ in what they look at and in what a failing store means.\<close>

fun removal_step ::
  "'x libs_scheme \<Rightarrow> 's store_ops \<Rightarrow> registry_call \<Rightarrow> 's GatewayRegistry
     \<Rightarrow> (registry_call \<times> 's GatewayRegistry) go" where
  "removal_step L ops (Delete_called u) r =
     Return (case map_of (rg_workers r) u of
        None \<Rightarrow> (Removal_returned (Inl (notFound L u)), r)
      | Some w \<Rightarrow> take_worker False u w r)"
| "removal_step L ops (Decommission_called tenantID managementGatewayID) r =
     Return (case uuid_Parse L managementGatewayID of
        None \<Rightarrow> (Removal_returned (Inr ()), r)
      | Some u \<Rightarrow>
          (case map_of (rg_workers r) u of
             None \<Rightarrow> (Removal_returned (Inr ()), r)
           | Some w \<Rightarrow>
               if gw_TenantID (w_gateway w) \<noteq> tenantID then (Removal_returned (Inr ()), r)
               else take_worker True u w r))"
| "removal_step L ops (Removal_stopping event w) r =
     (let (_, r) = stop_worker w r in Return (Removal_erasing event (w_gateway w), r))"
| "removal_step L ops (Removal_erasing event gw) r =
     (case on_store (op_DeleteGateway ops (gw_ID gw)) r of
        (Inl err, r) \<Rightarrow>
          Return (if event then Removal_counting
                  else Removal_returned (Inl (Wrap ''delete gateway from store: '' err '''')), r)
      | (Inr _, r) \<Rightarrow> Return (Removal_counting, r))"
| "removal_step L ops Removal_counting r = Return (Removal_returned (Inr ()), inc_running (- 1) r)"
| "removal_step L ops c r = Return (c, r)"

text \<open>\<^verbatim>\<open>AddSensor\<close>.\<close>

fun sensor_step ::
  "'x libs_scheme \<Rightarrow> 's store_ops \<Rightarrow> registry_call \<Rightarrow> 's GatewayRegistry
     \<Rightarrow> (registry_call \<times> 's GatewayRegistry) go" where
  "sensor_step L ops (Sensor_called u sensor) r =
     Return (if sn_MaxRange sensor \<le> sn_MinRange sensor then (Sensor_returned (Inl (invalidSensorRange sensor)), r)
      else case on_store (op_GetGatewayByManagementID ops u) r of
             (Inl err, r) \<Rightarrow> (Sensor_returned (Inl (gateway_lookup_error L u err)), r)
           | (Inr gw, r) \<Rightarrow> (Sensor_storing u sensor gw, r))"
| "sensor_step L ops (Sensor_storing u sensor gw) r =
     (let (sensor, r) = stamp_sensor u gw sensor r
      in case on_store (op_CreateSensor ops sensor) r of
           (Inl err, r) \<Rightarrow> Return (Sensor_returned (Inl (Wrap ''create sensor in store: '' err '''')), r)
         | (Inr i, r) \<Rightarrow> Return (Sensor_attaching u (sensor\<lparr>sn_ID := i\<rparr>), r))"
| "sensor_step L ops (Sensor_attaching u sensor) r =
     (let (res, r) = attach_to_worker u sensor r in Return (Sensor_returned res, r))"
| "sensor_step L ops c r = Return (c, r)"

text \<open>\<^verbatim>\<open>RestoreAll\<close> after the gateways are listed.\<close>

fun restore_step ::
  "'x libs_scheme \<Rightarrow> 's store_ops \<Rightarrow> registry_call \<Rightarrow> 's GatewayRegistry
     \<Rightarrow> (registry_call \<times> 's GatewayRegistry) go" where
  "restore_step L ops (Restore_next []) r = Return (Restore_returned, r)"
| "restore_step L ops (Restore_next (gw # gws)) r =
     (if \<not> gw_Provisioned gw then Return (Restore_next gws, r)
      else case on_store (op_ListSensors ops (gw_ID gw)) r of
             (Inl err, r) \<Rightarrow> Return (Restore_next gws, r)
           | (Inr sensors, r) \<Rightarrow> Return (Restore_connecting gw sensors gws, r))"
| "restore_step L ops (Restore_connecting gw sensors gws) r =
     (case connector_Connect (gw_CertPEM gw) (gw_PrivateKeyPEM gw) (gw_TenantID gw)
             (gw_ManagementGatewayID gw) r of
        (Inl err, r) \<Rightarrow> Return (Restore_next gws, r)
      | (Inr pub, r) \<Rightarrow> Return (Restore_starting gw sensors pub gws, r))"
| "restore_step L ops (Restore_starting gw sensors pub gws) r =
     go_bind (register_worker L gw sensors pub r) (\<lambda>r. Return (Restore_counting gw gws, r))"
| "restore_step L ops (Restore_counting gw gws) r = Return (Restore_updating gw gws, inc_running 1 r)"
| "restore_step L ops (Restore_updating gw gws) r =
     (let (_, r) = on_store (op_UpdateStatus ops (gw_ID gw) Online) r in Return (Restore_next gws, r))"
| "restore_step L ops c r = Return (c, r)"

definition call_step ::
  "'x libs_scheme \<Rightarrow> 's store_ops \<Rightarrow> registry_call \<Rightarrow> 's GatewayRegistry
     \<Rightarrow> (registry_call \<times> 's GatewayRegistry) go" where
  "call_step L ops c r =
     (case kind_of c of
        Creation \<Rightarrow> create_step L ops c r
      | Removal \<Rightarrow> removal_step L ops c r
      | Sensor_addition \<Rightarrow> sensor_step L ops c r
      | Restoring \<Rightarrow> restore_step L ops c r)"

lemma call_step_simps [simp]:
  "kind_of c = Creation \<Longrightarrow> call_step L ops c r = create_step L ops c r"
  "kind_of c = Removal \<Longrightarrow> call_step L ops c r = removal_step L ops c r"
  "kind_of c = Sensor_addition \<Longrightarrow> call_step L ops c r = sensor_step L ops c r"
  "kind_of c = Restoring \<Longrightarrow> call_step L ops c r = restore_step L ops c r"
  by (simp_all add: call_step_def)

fun call_over :: "registry_call \<Rightarrow> bool" where
  "call_over (Create_returned x) = True"
| "call_over (Removal_returned y) = True"
| "call_over (Sensor_returned z) = True"
| "call_over Restore_returned = True"
| "call_over c = False"

subsection \<open>A call on its own\<close>

fun run_call ::
  "'x libs_scheme \<Rightarrow> 's store_ops \<Rightarrow> nat \<Rightarrow> registry_call \<Rightarrow> 's GatewayRegistry
     \<Rightarrow> (registry_call \<times> 's GatewayRegistry) go" where
  "run_call L ops 0 c r = Return (c, r)"
| "run_call L ops (Suc n) c r = go_bind (call_step L ops c r) (\<lambda>(c, r). run_call L ops n c r)"

text \<open>How many parts are left at most.\<close>

fun parts_left :: "registry_call \<Rightarrow> nat" where
  "parts_left (Create_called req) = 9"
| "parts_left (Create_onboarding gw) = 8"
| "parts_left (Create_storing gw) = 7"
| "parts_left (Create_connecting gw) = 6"
| "parts_left (Create_listing gw pub) = 5"
| "parts_left (Create_starting gw pub sensors) = 4"
| "parts_left (Create_counting gw) = 3"
| "parts_left (Create_updating gw) = 2"
| "parts_left (Create_succeeding gw) = 1"
| "parts_left (Create_closing gw err) = 3"
| "parts_left (Create_deleting gw err) = 2"
| "parts_left (Create_failing err) = 1"
| "parts_left (Delete_called u) = 4"
| "parts_left (Decommission_called t i) = 4"
| "parts_left (Removal_stopping event w) = 3"
| "parts_left (Removal_erasing event gw) = 2"
| "parts_left Removal_counting = 1"
| "parts_left (Sensor_called u sensor) = 3"
| "parts_left (Sensor_storing u sensor gw) = 2"
| "parts_left (Sensor_attaching u sensor) = 1"
| "parts_left (Restore_next gws) = 5 * length gws + 1"
| "parts_left (Restore_connecting gw sensors gws) = 5 * length gws + 5"
| "parts_left (Restore_starting gw sensors pub gws) = 5 * length gws + 4"
| "parts_left (Restore_counting gw gws) = 5 * length gws + 3"
| "parts_left (Restore_updating gw gws) = 5 * length gws + 2"
| "parts_left c = 0"

lemma call_step_progress:
  assumes "call_step L ops c r = Return (c', r')" and "\<not> call_over c"
  shows "parts_left c' < parts_left c"
proof (cases "kind_of c")
  case Creation
  with assms show ?thesis
    by (cases "(L, ops, c, r)" rule: create_step.cases)
      (auto simp: go_bind_eq_Return Let_def case_prod_unfold split: sum.splits option.splits)
next
  case Removal
  with assms show ?thesis
    by (cases "(L, ops, c, r)" rule: removal_step.cases)
      (auto simp: take_worker_def Let_def case_prod_unfold split: sum.splits option.splits if_splits)
next
  case Sensor_addition
  with assms show ?thesis
    by (cases "(L, ops, c, r)" rule: sensor_step.cases)
      (auto simp: Let_def case_prod_unfold split: sum.splits if_splits)
next
  case Restoring
  with assms show ?thesis
    by (cases "(L, ops, c, r)" rule: restore_step.cases)
      (auto simp: go_bind_eq_Return Let_def case_prod_unfold split: sum.splits if_splits)
qed

lemma parts_left_0: "parts_left c = 0 \<longleftrightarrow> call_over c"
  by (cases c) simp_all

lemma call_over_stays: "call_over c \<Longrightarrow> call_step L ops c r = Return (c, r)"
  by (cases c) simp_all

lemma run_call_over: "call_over c \<Longrightarrow> run_call L ops n c r = Return (c, r)"
  by (induction n) (simp_all add: call_over_stays)

text \<open>A call that does not panic is over after that many parts.\<close>

lemma run_call_ends: "run_call L ops n c r = Return (c', r') \<Longrightarrow> parts_left c \<le> n \<Longrightarrow> call_over c'"
proof (induction n arbitrary: c r)
  case 0
  then show ?case by (simp add: parts_left_0)
next
  case (Suc n)
  show ?case
  proof (cases "call_over c")
    case True
    then show ?thesis using Suc.prems by (simp add: run_call_over call_over_stays)
  next
    case False
    from Suc.prems obtain c1 r1 where s: "call_step L ops c r = Return (c1, r1)" "run_call L ops n c1 r1 = Return (c', r')"
      by (auto simp: go_bind_eq_Return)
    with Suc.IH call_step_progress [OF s(1) False] Suc.prems(2) show ?thesis by fastforce
  qed
qed

text \<open>A call with no other in between is the operation of the registry.\<close>

lemma run_via:
  assumes "call_step L ops c r = Return (c1, r1)" and "k < n" and "\<And>m. k \<le> m \<Longrightarrow> run_call L ops m c1 r1 = X"
  shows "run_call L ops n c r = X"
  using assms by (cases n) auto

lemma run_bind:
  assumes "call_step L ops c r = go_bind m (\<lambda>r. Return (c1, r))" and "k < n"
    and "\<And>j r. k \<le> j \<Longrightarrow> run_call L ops j c1 r = X r"
  shows "run_call L ops n c r = go_bind m X"
  using assms by (cases n; cases m) auto

lemma startWorker_parts:
  "startWorker L ops gw sensors pub r =
     go_bind (register_worker L gw sensors pub r)
       (\<lambda>r. Return (snd (on_store (op_UpdateStatus ops (gw_ID gw) Online) (inc_running 1 r))))"
  by (simp add: startWorker_def register_worker_def Let_def go_bind_assoc case_prod_unfold)

lemma run_counting:
  "3 \<le> n \<Longrightarrow> run_call L ops n (Create_counting gw) r =
     Return (Create_returned (Inr (gw\<lparr>gw_Status := Online\<rparr>)),
       inc_success (snd (on_store (op_UpdateStatus ops (gw_ID gw) Online) (inc_running 1 r))))"
  by (rule run_via [where k = 2], simp, simp, rule run_via [where k = 1], simp add: case_prod_unfold Let_def, simp,
      rule run_via [where k = 0], simp, simp, simp add: run_call_over)

lemma run_failing: "1 \<le> n \<Longrightarrow> run_call L ops n (Create_failing err) r = Return (Create_returned (Inl err), inc_errors r)"
  by (rule run_via [where k = 0]) (simp add: run_call_over)+

lemma run_deleting:
  "2 \<le> n \<Longrightarrow> run_call L ops n (Create_deleting gw err) r =
     Return (Create_returned (Inl err), inc_errors (compensate ops gw stageStore conn r))"
  by (rule run_via [where k = 1], simp add: case_prod_unfold Let_def, simp) (simp add: run_failing compensate_def Let_def)

lemma run_closing:
  "3 \<le> n \<Longrightarrow> run_call L ops n (Create_closing gw err) r =
     Return (Create_returned (Inl err), inc_errors (compensate ops gw stageConnect True r))"
  by (rule run_via [where k = 2], simp, simp) (simp add: run_deleting [where conn = False] compensate_def Let_def)

lemma run_connecting:
  assumes "6 \<le> n"
  shows "run_call L ops n (Create_connecting gw) r =
     go_bind (saga_connect L ops gw r) (\<lambda>(x, r). Return (Create_returned x, r))"
proof -
  obtain x r1 where con: "connector_Connect (gw_CertPEM gw) (gw_PrivateKeyPEM gw) (gw_TenantID gw)
      (gw_ManagementGatewayID gw) r = (x, r1)" by force
  obtain y r2 where ls: "on_store (op_ListSensors ops (gw_ID gw)) r1 = (y, r2)" by force
  show ?thesis
  proof (cases x)
    case (Inl err)
    then show ?thesis using con assms
      by - (rule run_via [where k = 2], (simp add: saga_connect_def run_deleting [where conn = False])+)
  next
    case x: (Inr pub)
    show ?thesis
    proof (rule run_via [where k = 5])
      show "call_step L ops (Create_connecting gw) r = Return (Create_listing gw pub, r1)" using con x by simp
      show "5 < n" using assms by simp
      show "run_call L ops m (Create_listing gw pub) r1 =
        go_bind (saga_connect L ops gw r) (\<lambda>(x, r). Return (Create_returned x, r))" if "5 \<le> m" for m
      proof (cases y)
        case (Inl err)
        then show ?thesis using con x ls that
          by - (rule run_via [where k = 3], (simp add: saga_connect_def run_closing)+)
      next
        case (Inr sensors)
        have "run_call L ops j (Create_starting gw pub sensors) r2 =
            go_bind (register_worker L gw sensors pub r2) (\<lambda>r. Return (Create_returned (Inr (gw\<lparr>gw_Status := Online\<rparr>)),
              inc_success (snd (on_store (op_UpdateStatus ops (gw_ID gw) Online) (inc_running 1 r)))))" if "4 \<le> j" for j
          using that by - (rule run_bind [where k = 3], (simp add: run_counting)+)
        then show ?thesis using con x ls that Inr
          by - (rule run_via [where k = 4], (simp add: saga_connect_def startWorker_parts go_bind_assoc)+)
      qed
    qed
  qed
qed

lemma run_onboarding:
  assumes "8 \<le> n"
  shows "run_call L ops n (Create_onboarding gw) r =
     go_bind (runProvisioningSaga L ops gw r) (\<lambda>(x, r). Return (Create_returned x, r))"
proof -
  obtain x r1 where o: "provisioner_Onboard (gw_FactoryID gw) (gw_FactoryKey gw) (gw_SendFrequencyMs gw)
      (gw_FirmwareVersion gw) r = (x, r1)" by force
  show ?thesis
  proof (cases "\<exists>res u. x = Inr res \<and> uuid_Parse L (pr_GatewayID res) = Some u")
    case True
    then obtain res u where x: "x = Inr res" "uuid_Parse L (pr_GatewayID res) = Some u" by blast
    obtain y r2 where c: "on_store (op_CreateGateway ops (provisioned_gateway u res gw)) r1 = (y, r2)" by force
    show ?thesis
    proof (rule run_via [where k = 7])
      show "call_step L ops (Create_onboarding gw) r = Return (Create_storing (provisioned_gateway u res gw), r1)"
        using o x by simp
      show "7 < n" using assms by simp
      show "run_call L ops m (Create_storing (provisioned_gateway u res gw)) r1 =
        go_bind (runProvisioningSaga L ops gw r) (\<lambda>(x, r). Return (Create_returned x, r))" if "7 \<le> m" for m
        using o x c that by - (cases y; (rule run_via [where k = 6], (simp add: runProvisioningSaga_def run_connecting run_failing Let_def)+))
    qed
  next
    case False
    with o assms show ?thesis
      by - (cases x; (rule run_via [where k = 1], (simp add: runProvisioningSaga_def run_failing split: option.splits)+))
  qed
qed

lemma run_create:
  assumes "9 \<le> n"
  shows "run_call L ops n (Create_called req) r =
     go_bind (CreateAndStart L ops req r) (\<lambda>(x, r). Return (Create_returned x, r))"
proof -
  obtain now r1 where now: "registry_Now r = (now, r1)" by force
  with registry_NowD [OF now] assms show ?thesis
    by - (rule run_via [where k = 8], (simp add: CreateAndStart_def run_onboarding)+)
qed

lemma run_counted: "1 \<le> n \<Longrightarrow> run_call L ops n Removal_counting r = Return (Removal_returned (Inr ()), inc_running (- 1) r)"
  by (rule run_via [where k = 0]) (simp add: run_call_over)+

lemma run_removal:
  assumes "3 \<le> n" and "stop_worker w r = (w', r1)" and "on_store (op_DeleteGateway ops (gw_ID (w_gateway w))) r1 = (x, r2)"
  shows "run_call L ops n (Removal_stopping event w) r = Return
    (if isl x \<and> \<not> event then (Removal_returned (Inl (Wrap ''delete gateway from store: '' (projl x) '''')), r2)
     else (Removal_returned (Inr ()), inc_running (- 1) r2))"
proof (rule run_via [where k = 2])
  show "call_step L ops (Removal_stopping event w) r = Return (Removal_erasing event (w_gateway w), r1)"
    using assms(2) by simp
  show "2 < n" using assms(1) by simp
  show "run_call L ops m (Removal_erasing event (w_gateway w)) r1 = Return
    (if isl x \<and> \<not> event then (Removal_returned (Inl (Wrap ''delete gateway from store: '' (projl x) '''')), r2)
     else (Removal_returned (Inr ()), inc_running (- 1) r2))" if "2 \<le> m" for m
    using assms(3) that
    by - (cases x; cases event; (rule run_via [where k = 1], (simp add: run_counted run_call_over)+))
qed

lemma run_delete:
  assumes "4 \<le> n"
  shows "run_call L ops n (Delete_called u) r = (let (y, r) = registry_Delete L ops u r in Return (Removal_returned y, r))"
proof (cases "map_of (rg_workers r) u")
  case None
  then show ?thesis using assms by - (rule run_via [where k = 0], (simp add: run_call_over registry_Delete_def)+)
next
  case (Some w)
  obtain w' r1 where s: "stop_worker w (r\<lparr>rg_workers := map_del u (rg_workers r)\<rparr>) = (w', r1)" by force
  obtain x r2 where d: "on_store (op_DeleteGateway ops (gw_ID (w_gateway w))) r1 = (x, r2)" by force
  show ?thesis using Some s d assms
    by - (cases x; (rule run_via [where k = 3], (simp add: registry_Delete_def take_worker_def run_removal)+))
qed

lemma run_decommission:
  assumes "4 \<le> n"
  shows "run_call L ops n (Decommission_called t i) r =
     Return (Removal_returned (Inr ()), HandleDecommission L ops t i r)"
proof (cases "\<exists>u w. uuid_Parse L i = Some u \<and> map_of (rg_workers r) u = Some w \<and> gw_TenantID (w_gateway w) = t")
  case False
  then have "call_step L ops (Decommission_called t i) r = Return (Removal_returned (Inr ()), r)"
    and "HandleDecommission L ops t i r = r"
    by (auto simp: HandleDecommission_def split: option.split)
  then show ?thesis using assms by - (rule run_via [where k = 0], assumption, (simp add: run_call_over)+)
next
  case True
  then obtain u w where w: "uuid_Parse L i = Some u" "map_of (rg_workers r) u = Some w" "gw_TenantID (w_gateway w) = t"
    by blast
  obtain w' r1 where s: "stop_worker w (r\<lparr>rg_workers := map_del u (rg_workers r)\<rparr>) = (w', r1)" by force
  obtain x r2 where d: "on_store (op_DeleteGateway ops (gw_ID (w_gateway w))) r1 = (x, r2)" by force
  show ?thesis using w s d assms
    by - (rule run_via [where k = 3], (simp add: HandleDecommission_def take_worker_def run_removal)+)
qed

lemma run_attaching:
  "1 \<le> n \<Longrightarrow> run_call L ops n (Sensor_attaching u sensor) r =
     (let (z, r) = attach_to_worker u sensor r in Return (Sensor_returned z, r))"
  by (rule run_via [where k = 0]) (simp add: run_call_over case_prod_unfold Let_def)+

lemma run_sensor:
  assumes "3 \<le> n"
  shows "run_call L ops n (Sensor_called u sensor) r =
     (let (z, r) = AddSensor L ops u sensor r in Return (Sensor_returned z, r))"
proof (cases "sn_MaxRange sensor \<le> sn_MinRange sensor")
  case True
  then show ?thesis using assms by - (rule run_via [where k = 0], (simp add: AddSensor_def run_call_over)+)
next
  case False
  obtain x r1 where g: "on_store (op_GetGatewayByManagementID ops u) r = (x, r1)" by force
  show ?thesis
  proof (cases x)
    case (Inl err)
    then show ?thesis using False g assms by - (rule run_via [where k = 0], (simp add: AddSensor_def run_call_over)+)
  next
    case (Inr gw)
    obtain sn r2 where st: "stamp_sensor u gw sensor r1 = (sn, r2)" by force
    obtain y r3 where c: "on_store (op_CreateSensor ops sn) r2 = (y, r3)" by force
    have "run_call L ops m (Sensor_storing u sensor gw) r1 =
        (let (z, r) = AddSensor L ops u sensor r in Return (Sensor_returned z, r))" if "2 \<le> m" for m
      using False g Inr st c that
      by - (cases y; (rule run_via [where k = 1], (simp add: AddSensor_def run_call_over run_attaching)+))
    then show ?thesis using False g Inr assms by - (rule run_via [where k = 2], simp+)
  qed
qed

text \<open>Restoring a list of gateways, in five parts each at most.\<close>

lemma run_restore:
  "5 * length gws < n \<Longrightarrow> run_call L ops n (Restore_next gws) r =
     go_bind (restore_each L ops gws r) (\<lambda>r. Return (Restore_returned, r))"
proof (induction gws arbitrary: n r)
  case Nil
  then show ?case by - (rule run_via [where k = 0], (simp add: run_call_over)+)
next
  case (Cons gw gws)
  let ?k = "Suc (5 * length gws)"
  have IH: "run_call L ops m (Restore_next gws) r = go_bind (restore_each L ops gws r) (\<lambda>r. Return (Restore_returned, r))"
    if "?k \<le> m" for m r using Cons.IH [of m r] that by simp
  obtain y r1 where ls: "on_store (op_ListSensors ops (gw_ID gw)) r = (y, r1)" by force
  show ?case
  proof (cases "gw_Provisioned gw \<and> \<not> isl y")
    case False
    then have "call_step L ops (Restore_next (gw # gws)) r = Return (Restore_next gws, if gw_Provisioned gw then r1 else r)"
      and "restore_each L ops (gw # gws) r = restore_each L ops gws (if gw_Provisioned gw then r1 else r)"
      using ls by (cases y; simp add: restoreGateway_def)+
    with Cons.prems IH show ?thesis by - (rule run_via [where k = ?k], assumption, simp+)
  next
    case True
    then obtain sensors where y: "y = Inr sensors" and p: "gw_Provisioned gw" by (cases y) auto
    obtain z r2 where con: "connector_Connect (gw_CertPEM gw) (gw_PrivateKeyPEM gw) (gw_TenantID gw)
      (gw_ManagementGatewayID gw) r1 = (z, r2)" by force
    have upd: "run_call L ops m (Restore_counting gw gws) r =
        go_bind (restore_each L ops gws (snd (on_store (op_UpdateStatus ops (gw_ID gw) Online) (inc_running 1 r))))
          (\<lambda>r. Return (Restore_returned, r))" if "Suc (Suc ?k) \<le> m" for m r
      by (rule run_via [where k = "Suc ?k"], simp, use that in simp,
          rule run_via [where k = ?k], simp add: case_prod_unfold Let_def, simp, rule IH)
    have start: "run_call L ops m (Restore_starting gw sensors pub gws) r2 =
        go_bind (register_worker L gw sensors pub r2) (\<lambda>r.
          go_bind (restore_each L ops gws (snd (on_store (op_UpdateStatus ops (gw_ID gw) Online) (inc_running 1 r))))
            (\<lambda>r. Return (Restore_returned, r)))" if "Suc (Suc (Suc ?k)) \<le> m" for m pub
      by (rule run_bind [where k = "Suc (Suc ?k)"], simp, use that in simp, rule upd)
    have conn: "run_call L ops m (Restore_connecting gw sensors gws) r1 =
        go_bind (restore_each L ops (gw # gws) r) (\<lambda>r. Return (Restore_returned, r))"
      if "Suc (Suc (Suc (Suc ?k))) \<le> m" for m
    proof (cases z)
      case (Inl err)
      then show ?thesis using that con y ls p IH
        by - (rule run_via [where k = ?k], (simp add: restoreGateway_def)+)
    next
      case (Inr pub)
      then show ?thesis using that con y ls p start
        by - (rule run_via [where k = "Suc (Suc (Suc ?k))"], (simp add: restoreGateway_def startWorker_parts go_bind_assoc)+)
    qed
    show ?thesis using Cons.prems ls y p conn
      by - (rule run_via [where k = "Suc (Suc (Suc (Suc ?k)))"], simp+)
  qed
qed

end
