(* ===== verification/Registry_Interleaving.thy ===== *)
theory Registry_Interleaving
  imports Registry_Calls Registry_Restore "HOL-Library.Multiset"
begin

text \<open>
  Any number of calls of the registry under way at once, with their parts interleaved in any order with
  each other, with the workers and with the operations that have one part. In every reachable state the
  connections, subscriptions and rows are accounted for by the registered workers and the calls under way, and
  the gauge by these and the deletions whose store operation failed;
  when no call is under way the invariant of \<^verbatim>\<open>Registry_Facts\<close> holds.
\<close>

subsection \<open>The steps\<close>

fun call_arrives :: "registry_call \<Rightarrow> bool" where
  "call_arrives (Create_called req) = True"
| "call_arrives (Delete_called u) = True"
| "call_arrives (Decommission_called t i) = True"
| "call_arrives (Sensor_called u sensor) = True"
| "call_arrives c = False"

text \<open>
  A worker that was taken out of the map keeps running until it is stopped: its loop, its flusher, its
  pump and its subscriber's handler are steps too.
\<close>

inductive calls_step ::
  "'x libs_scheme \<Rightarrow> 's store_ops \<Rightarrow> registry_call list \<times> 's GatewayRegistry
     \<Rightarrow> registry_call list \<times> 's GatewayRegistry \<Rightarrow> bool" for L ops where
  step_arrival: "call_arrives c \<Longrightarrow> calls_step L ops (cs, r) (cs @ [c], r)"
| step_part:
  "call_step L ops c r = Return (c', r') \<Longrightarrow> calls_step L ops (cs @ c # ds, r) (cs @ c' # ds, r')"
| step_other: "registry_step L ops r r' \<Longrightarrow> calls_step L ops (cs, r) (cs, r')"
| step_removed_loop:
  "w_isRunning w \<Longrightarrow>
   sensorLoop_case L ops k (w, rg_store r, rg_metrics r, rg_env r) = Some (Return (w', s', m', e')) \<Longrightarrow>
   calls_step L ops (cs @ Removal_stopping event w # ds, r)
     (cs @ Removal_stopping event w' # ds, r\<lparr>rg_store := s', rg_metrics := m', rg_env := e'\<rparr>)"
| step_removed_flush:
  "Flush_iteration False False (w_buffer w, w_publisher w, rg_metrics r, rg_env r)
     = Return (Flush_loops (b, p, m', e')) \<Longrightarrow>
   calls_step L ops (cs @ Removal_stopping event w # ds, r)
     (cs @ Removal_stopping event (w\<lparr>w_buffer := b, w_publisher := p\<rparr>) # ds, r\<lparr>rg_metrics := m', rg_env := e'\<rparr>)"
| step_removed_pump:
  "w_pumpRunning w \<Longrightarrow> try_send cmd (w_commandCh w) = Some ch \<Longrightarrow>
   calls_step L ops (cs @ Removal_stopping event w # ds, r)
     (cs @ Removal_stopping event (w\<lparr>w_commandCh := ch\<rparr>) # ds, r)"
| step_removed_message:
  "sb_ackSubject s = ack_subject L w \<Longrightarrow> handleMsg L data (s, w_publisher w, rg_env r) = Return (d, s', p, e') \<Longrightarrow>
   calls_step L ops (cs @ Removal_stopping event w # ds, r)
     (cs @ Removal_stopping event (w\<lparr>w_publisher := p\<rparr>) # ds, r\<lparr>rg_env := e'\<rparr>)"

text \<open>
  The calls under way when \<^verbatim>\<open>Run\<close> of \<^verbatim>\<open>internal/app/app.go\<close> comes to its recovery: the decommission
  listener is running already, and \<^verbatim>\<open>RestoreAll\<close> has listed the gateways.
\<close>

definition boot_calls ::
  "'s store_ops \<Rightarrow> Config \<Rightarrow> 's GatewayRegistry \<Rightarrow> registry_call list \<times> 's GatewayRegistry" where
  "boot_calls ops cfg r =
     (if cf_RecoveryMode cfg then
        case on_store (op_ListGateways ops) r of
          (Inl err, r) \<Rightarrow> ([], r)
        | (Inr gws, r) \<Rightarrow> ([Restore_next gws], r)
      else ([], r))"

subsection \<open>What a call holds\<close>

definition held_connected :: "SimGateway \<Rightarrow> held" where
  "held_connected gw = \<lparr>held_conns = 1, held_subs = 1, held_gauge = 0, held_rows = [gw], held_exact = False\<rparr>"

definition held_to_restore :: "SimGateway list \<Rightarrow> held" where
  "held_to_restore gws = \<lparr>held_conns = 0, held_subs = 0, held_gauge = 0, held_rows = filter gw_Provisioned gws,
     held_exact = False\<rparr>"

fun held_by :: "registry_call \<Rightarrow> held" where
  "held_by (Create_connecting gw) = held_only_row 0 gw"
| "held_by (Create_listing gw pub) = held_connected gw"
| "held_by (Create_starting gw pub sensors) = held_connected gw"
| "held_by (Create_counting gw) = held_only_gauge 1"
| "held_by (Create_closing gw err) = held_connected gw"
| "held_by (Create_deleting gw err) = held_only_row 0 gw"
| "held_by (Removal_stopping event w) = held_worker w"
| "held_by (Removal_erasing event gw) = held_only_row (- 1) gw"
| "held_by Removal_counting = held_only_gauge (- 1)"
| "held_by (Restore_next gws) = held_to_restore gws"
| "held_by (Restore_connecting gw sensors gws) = held_both (held_only_row 0 gw) (held_to_restore gws)"
| "held_by (Restore_starting gw sensors pub gws) = held_both (held_connected gw) (held_to_restore gws)"
| "held_by (Restore_counting gw gws) = held_both (held_only_gauge 1) (held_to_restore gws)"
| "held_by (Restore_updating gw gws) = held_to_restore gws"
| "held_by c = nothing_held"

fun held_all :: "registry_call list \<Rightarrow> held" where
  "held_all [] = nothing_held"
| "held_all (c # cs) = held_both (held_by c) (held_all cs)"

text \<open>
  A \<^verbatim>\<open>Delete\<close> whose store operation failed: the worker is gone, but the gauge is not counted down. The error
  is told apart by its text.
\<close>

fun deletion_failed :: "registry_call \<Rightarrow> bool" where
  "deletion_failed (Removal_returned (Inl (Wrap t err z))) \<longleftrightarrow> t = ''delete gateway from store: ''"
| "deletion_failed c \<longleftrightarrow> False"

definition failed_deletions :: "registry_call list \<Rightarrow> nat" where
  "failed_deletions cs = length (filter deletion_failed cs)"

lemma failed_deletions_simps [simp]:
  "failed_deletions [] = 0" "failed_deletions (c # cs) = (if deletion_failed c then 1 else 0) + failed_deletions cs"
  "failed_deletions (cs @ ds) = failed_deletions cs + failed_deletions ds"
  by (simp_all add: failed_deletions_def)

text \<open>What \<^verbatim>\<open>n\<close> failed deletions leave behind, when they are counted.\<close>

definition held_lost :: "bool \<Rightarrow> nat \<Rightarrow> held" where
  "held_lost exact n = \<lparr>held_conns = 0, held_subs = 0, held_gauge = (if exact then - int n else 0), held_rows = [],
     held_exact = exact\<rparr>"

lemma held_lost_simps [simp]:
  "held_conns (held_lost x n) = 0" "held_subs (held_lost x n) = 0" "held_rows (held_lost x n) = []"
  "held_gauge (held_lost x n) = (if x then - int n else 0)" "held_exact (held_lost x n) = x"
  "held_lost False n = nothing_held"
  by (simp_all add: held_lost_def nothing_held_def)

fun call_sound :: "registry_call \<Rightarrow> bool" where
  "call_sound (Create_storing gw) = key_ok (gw_EncryptionKey gw)"
| "call_sound (Removal_stopping event w) = worker_sound w"
| "call_sound c = True"

lemma held_all_append: "held_all (cs @ ds) = held_both (held_all cs) (held_all ds)"
  by (induction cs) simp_all

lemma held_over: "call_over c \<Longrightarrow> held_by c = nothing_held"
  by (cases c) simp_all

lemma held_inexact [simp]: "\<not> held_exact (held_by c)"
  by (cases c) (simp_all add: held_defs held_connected_def held_to_restore_def)

lemma held_all_inexact [simp]: "\<not> held_exact (held_all cs)"
  by (induction cs) simp_all

lemma held_all_over: "list_all call_over cs \<Longrightarrow> held_all cs = nothing_held"
  by (induction cs) (simp_all add: held_over)

lemma held_arriving: "call_arrives c \<Longrightarrow> held_by c = nothing_held \<and> call_sound c \<and> \<not> deletion_failed c"
  by (cases c) simp_all

lemma held_only_gauge_0 [simp]: "held_only_gauge 0 = nothing_held"
  by (simp add: held_only_gauge_def nothing_held_def)

lemma held_to_restore_simps [simp]:
  "held_to_restore [] = nothing_held"
  "held_to_restore (gw # gws) =
     (if gw_Provisioned gw then held_both (held_only_row 0 gw) (held_to_restore gws) else held_to_restore gws)"
  by (simp_all add: held_to_restore_def nothing_held_def held_both_def held_only_row_def)

text \<open>The order of the calls does not matter, so one call can be looked at in front of the others.\<close>

lemma rows_held_mset:
  assumes "mset gs = mset hs"
  shows "rows_held G ws gs = rows_held G ws hs"
proof -
  have "mset (map gw_ManagementGatewayID gs) = mset (map gw_ManagementGatewayID hs)" using assms by simp
  then have "distinct (map gw_ManagementGatewayID gs) = distinct (map gw_ManagementGatewayID hs)" by (rule mset_eq_imp_distinct_iff)
  then show ?thesis using mset_eq_setD [OF assms] by (simp add: rows_held_def list_all_iff)
qed

lemma registry_holds_same:
  "held_conns H = held_conns K \<Longrightarrow> held_subs H = held_subs K \<Longrightarrow> held_gauge H = held_gauge K \<Longrightarrow>
   held_exact H = held_exact K \<Longrightarrow>
   rows_held (G (rg_store r)) (rg_workers r) (held_rows H) = rows_held (G (rg_store r)) (rg_workers r) (held_rows K) \<Longrightarrow>
   registry_holds H G ok r = registry_holds K G ok r"
  by (simp add: registry_holds_def)

lemma holds_focus:
  "registry_holds (held_both H (held_all (cs @ c # ds))) G ok r =
   registry_holds (held_both (held_by c) (held_both H (held_all (cs @ ds)))) G ok r"
proof (rule registry_holds_same)
  show "rows_held (G (rg_store r)) (rg_workers r) (held_rows (held_both H (held_all (cs @ c # ds)))) =
      rows_held (G (rg_store r)) (rg_workers r) (held_rows (held_both (held_by c) (held_both H (held_all (cs @ ds)))))"
    by (intro rows_held_mset) (simp add: held_all_append)
qed (simp_all add: held_all_append)

subsection \<open>Every part of a call moves what it holds\<close>

lemma registry_ok_frame:
  "registry_holds H G ok r \<Longrightarrow> rg_workers r' = rg_workers r \<Longrightarrow> rg_store r' = rg_store r \<Longrightarrow> rg_cfg r' = rg_cfg r \<Longrightarrow>
   oracles (rg_env r') = oracles (rg_env r) \<Longrightarrow> rg_conns r' = rg_conns r \<Longrightarrow> rg_subs r' = rg_subs r \<Longrightarrow>
   GatewaysRunning (rg_metrics r') = GatewaysRunning (rg_metrics r) \<Longrightarrow> registry_holds H G ok r'"
  using onboard_lawful_oracles [of "rg_env r'" "rg_env r"] by (simp add: registry_holds_def)

lemma holds_connected:
  assumes "registry_holds (held_both (held_only_row 0 gw) H) G ok r"
    and "connector_Connect cert key tenant u r = (Inr pub, r')"
  shows "registry_holds (held_both (held_connected gw) H) G ok r'"
  using assms(1) connector_ConnectD(1-7) [OF assms(2)] onboard_lawful_oracles [of "rg_env r'" "rg_env r"]
  by (simp add: registry_holds_def held_connected_def held_only_row_def)

lemma holds_not_connected:
  assumes "registry_holds H G ok r" and "connector_Connect cert key tenant u r = (Inl err, r')"
  shows "registry_holds H G ok r'"
  by (rule registry_ok_frame [OF assms(1)]) (use connector_ConnectD(1-7) [OF assms(2)] in simp_all)

lemma holds_closed:
  "registry_holds (held_both (held_connected gw) H) G ok r \<Longrightarrow>
   registry_holds (held_both (held_only_row 0 gw) H) G ok (r\<lparr>rg_subs := rg_subs r - 1, rg_conns := rg_conns r - 1\<rparr>)"
  by (simp add: registry_holds_def held_connected_def held_only_row_def)

lemma holds_row_forgotten:
  "registry_holds (held_both (held_only_row d gw) H) G ok r \<Longrightarrow> registry_holds (held_both (held_only_gauge d) H) G ok r"
  by (auto simp: registry_holds_def held_only_row_def held_only_gauge_def rows_held_def)

lemma register_workerD:
  assumes "register_worker L gw sensors pub r = Return r'" and "config_ok (rg_cfg r)"
  obtains w where "rg_workers r' = map_put (gw_ManagementGatewayID gw) w (rg_workers r)" "w_gateway w = gw"
    "worker_sound w" "w_isRunning w" "\<not> w_connClosed w" "w_pumpRunning w" "w_sensors w = sensors"
    "rg_store r' = rg_store r" "rg_cfg r' = rg_cfg r" "oracles (rg_env r') = oracles (rg_env r)"
    "rg_conns r' = rg_conns r" "rg_subs r' = rg_subs r" "rg_metrics r' = rg_metrics r"
proof -
  have f: "rg_store r' = rg_store r" "rg_metrics r' = rg_metrics r"
    using assms(1) by (auto simp: register_worker_def go_bind_eq_Return Let_def case_prod_unfold)
  obtain ops :: "'a store_ops" where True by blast
  have "startWorker L ops gw sensors pub r =
      Return (snd (on_store (op_UpdateStatus ops (gw_ID gw) Online) (inc_running 1 r')))"
    by (simp add: startWorker_parts assms(1))
  from startWorkerD [OF this assms(2)] obtain w where
    w: "rg_workers r' = map_put (gw_ManagementGatewayID gw) w (rg_workers r)" "w_gateway w = gw"
    "w_sensors w = sensors" "worker_ok w" "w_isRunning w" "\<not> w_connClosed w" "\<not> w_publisherClosed w" "w_pumpRunning w"
    "rg_cfg r' = rg_cfg r" "oracles (rg_env r') = oracles (rg_env r)" "rg_conns r' = rg_conns r" "rg_subs r' = rg_subs r"
    by (auto simp: on_store_def case_prod_unfold Let_def)
  then show thesis using f by (intro that [of w]) (simp_all add: worker_sound_def)
qed

lemma holds_registered:
  assumes "registry_holds (held_both (held_connected gw) H) G ok r" and "register_worker L gw sensors pub r = Return r'"
  shows "registry_holds (held_both (held_only_gauge 1) H) G ok r'"
proof -
  have "config_ok (rg_cfg r)" using assms(1) by (simp add: registry_holds_def)
  from register_workerD [OF assms(2) this] obtain w where
    w: "rg_workers r' = map_put (gw_ManagementGatewayID gw) w (rg_workers r)" "w_gateway w = gw"
    "worker_sound w" "\<not> w_connClosed w" "w_pumpRunning w"
    and f: "rg_store r' = rg_store r" "rg_cfg r' = rg_cfg r" "oracles (rg_env r') = oracles (rg_env r)"
    "rg_conns r' = rg_conns r" "rg_subs r' = rg_subs r" "rg_metrics r' = rg_metrics r"
    by metis
  have held: "rows_held (G (rg_store r)) (rg_workers r) (gw # held_rows H)"
    using assms(1) by (simp add: registry_holds_def held_connected_def)
  then have new: "gw_ManagementGatewayID gw \<notin> fst ` set (rg_workers r)" by (auto simp: rows_held_def)
  have "worker_registered (G (rg_store r)) (gw_ManagementGatewayID gw) w"
    using held w by (simp add: worker_registered_iff rows_held_def)
  moreover have "rows_held (G (rg_store r)) (rg_workers r') (held_rows H)"
    using held by (auto simp: rows_held_def w(1))
  moreover have "distinct (map fst (rg_workers r'))" using registry_ok_distinct [OF assms(1)] by (simp add: w(1) distinct_map_put)
  ultimately show ?thesis
    using assms(1) w f open_put_new [OF new] onboard_lawful_oracles [OF f(3)]
    by (simp add: registry_holds_def held_connected_def held_only_gauge_def)
qed

context relational_store
begin

lemma holds_created:
  assumes "registry_holds H gws ok r" and "key_ok (gw_EncryptionKey g)" and "on_store (op_CreateGateway ops g) r = (x, r')"
  shows "case x of Inl _ \<Rightarrow> registry_holds H gws ok r'
    | Inr i \<Rightarrow> registry_holds (held_both (held_only_row 0 (g\<lparr>gw_ID := i\<rparr>)) H) gws ok r'"
proof -
  note o = on_storeD [OF assms(3)] and okr = ok_store [OF assms(1)]
  note law = CreateGateway [OF okr assms(2) o(1)]
  show ?thesis
  proof (cases x)
    case (Inl e)
    then show ?thesis using law registry_ok_read [OF assms(1,3)] by (simp add: same_gateways_refl)
  next
    case (Inr i)
    note c = o(1) [unfolded Inr]
    note new = no_worker_yet [OF assms(1) okr refl assms(2) c]
    have kept: "rows_kept (gws (rg_store r)) (gws (rg_store r'))" using law Inr by (simp add: rows_kept_new)
    have "gw_ManagementGatewayID g \<notin> fst ` set (rg_workers r)" using new(1) by (simp add: map_of_eq_None_iff)
    moreover have "rows_held (gws (rg_store r')) (rg_workers r) (held_rows H)"
      using assms(1) by (intro rows_held_kept [OF kept]) (simp add: registry_holds_def)
    ultimately have "rows_held (gws (rg_store r')) (rg_workers r') (g\<lparr>gw_ID := i\<rparr> # held_rows H)"
      using new(2) law Inr o(2) by (simp add: rows_held_def has_row_def)
    then have "registry_holds (held_both (held_only_row 0 (g\<lparr>gw_ID := i\<rparr>)) H) gws ok r'"
      using assms(1) o(2-7) law worker_registered_kept [OF kept]
      by (simp add: registry_holds_def held_only_row_def)
    then show ?thesis using Inr by simp
  qed
qed

lemma onboarded_key:
  assumes "registry_holds H gws ok r" and "provisioner_Onboard a b c d r = (x, r')"
  shows "registry_holds H gws ok r'" and "x = Inr res \<Longrightarrow> key_ok (pr_AESKey res)"
proof -
  have r': "r' = r\<lparr>rg_env := env_tick (rg_env r)\<rparr>" and x: "x = env_onboard (rg_env r) (env_pos (rg_env r)) a b c d"
    using assms(2) by (auto simp: provisioner_Onboard_def Let_def)
  show "registry_holds H gws ok r'" unfolding r' by (rule registry_ok_env [OF assms(1)]) simp
  show "x = Inr res \<Longrightarrow> key_ok (pr_AESKey res)"
    using assms(1) x by (auto simp: registry_holds_def onboard_lawful_def)
qed

end

context relational_store
begin

text \<open>The registry with a call of the state \<open>c\<close> under way, next to others that hold \<open>H\<close>.\<close>

definition with_call :: "held \<Rightarrow> registry_call \<Rightarrow> 'a GatewayRegistry \<Rightarrow> bool" where
  "with_call H c r \<longleftrightarrow> registry_holds (held_both (held_by c) H) gws ok r \<and> call_sound c"

named_theorems call_parts

lemma storing_part [call_parts]:
  assumes "with_call H (Create_storing gw) r" and "call_step L ops (Create_storing gw) r = Return (c', r')"
  shows "with_call H c' r'"
proof -
  obtain x r1 where c: "on_store (op_CreateGateway ops gw) r = (x, r1)" by force
  have "registry_holds H gws ok r" "key_ok (gw_EncryptionKey gw)" using assms(1) by (simp_all add: with_call_def)
  from holds_created [OF this c] show ?thesis
    using assms(2) c by (cases x) (auto simp: with_call_def)
qed

lemma onboarding_part [call_parts]:
  assumes "with_call H (Create_onboarding gw) r" and "call_step L ops (Create_onboarding gw) r = Return (c', r')"
  shows "with_call H c' r'"
proof -
  obtain x r1 where o: "provisioner_Onboard (gw_FactoryID gw) (gw_FactoryKey gw) (gw_SendFrequencyMs gw)
      (gw_FirmwareVersion gw) r = (x, r1)" by force
  have "registry_holds H gws ok r" using assms(1) by (simp add: with_call_def)
  note k = onboarded_key [OF this o]
  show ?thesis
    using assms(2) o k by (cases x) (auto simp: with_call_def provisioned_gateway_def split: option.splits)
qed

lemma connecting_part [call_parts]:
  assumes "with_call H (Create_connecting gw) r" and "call_step L ops (Create_connecting gw) r = Return (c', r')"
  shows "with_call H c' r'"
proof -
  obtain x r1 where con: "connector_Connect (gw_CertPEM gw) (gw_PrivateKeyPEM gw) (gw_TenantID gw)
      (gw_ManagementGatewayID gw) r = (x, r1)" by force
  have h: "registry_holds (held_both (held_only_row 0 gw) H) gws ok r" using assms(1) by (simp add: with_call_def)
  show ?thesis
    using assms(2) con holds_connected [OF h] holds_not_connected [OF h] by (cases x) (auto simp: with_call_def)
qed

lemma listing_part [call_parts]:
  assumes "with_call H (Create_listing gw pub) r" and "call_step L ops (Create_listing gw pub) r = Return (c', r')"
  shows "with_call H c' r'"
proof -
  obtain x r1 where ls: "on_store (op_ListSensors ops (gw_ID gw)) r = (x, r1)" by force
  have "registry_holds (held_both (held_connected gw) H) gws ok r" using assms(1) by (simp add: with_call_def)
  from reads_ok(3) [OF this ls] show ?thesis
    using assms(2) ls by (cases x) (auto simp: with_call_def)
qed

lemma starting_part [call_parts]:
  assumes "with_call H (Create_starting gw pub sensors) r"
    and "call_step L ops (Create_starting gw pub sensors) r = Return (c', r')"
  shows "with_call H c' r'"
  using assms holds_registered by (auto simp: with_call_def go_bind_eq_Return)

lemma counting_part [call_parts]:
  "with_call H (Create_counting gw) r \<Longrightarrow> call_step L ops (Create_counting gw) r = Return (c', r') \<Longrightarrow> with_call H c' r'"
  using holds_gauge [where d = 1 and k = 1] by (auto simp: with_call_def)

lemma updating_part [call_parts]:
  assumes "with_call H (Create_updating gw) r" and "call_step L ops (Create_updating gw) r = Return (c', r')"
  shows "with_call H c' r'"
proof -
  obtain x r1 where u: "on_store (op_UpdateStatus ops (gw_ID gw) Online) r = (x, r1)" by force
  have "registry_holds H gws ok r" using assms(1) by (simp add: with_call_def)
  from UpdateStatus_ok [OF this u] show ?thesis using assms(2) u by (auto simp: with_call_def)
qed

lemma succeeding_part [call_parts]:
  "with_call H (Create_succeeding gw) r \<Longrightarrow> call_step L ops (Create_succeeding gw) r = Return (c', r') \<Longrightarrow> with_call H c' r'"
  using registry_ok_frame [of H gws ok r "inc_success r"] by (auto simp: with_call_def)

lemma failing_part [call_parts]:
  "with_call H (Create_failing err) r \<Longrightarrow> call_step L ops (Create_failing err) r = Return (c', r') \<Longrightarrow> with_call H c' r'"
  using registry_ok_frame [of H gws ok r "inc_errors r"] by (auto simp: with_call_def)

lemma called_part [call_parts]:
  "with_call H (Create_called req) r \<Longrightarrow> call_step L ops (Create_called req) r = Return (c', r') \<Longrightarrow> with_call H c' r'"
  using registry_ok_env [of H gws ok r "env_tick (rg_env r)"] by (auto simp: with_call_def registry_Now_def clock_Now_eq)

lemma closing_part [call_parts]:
  "with_call H (Create_closing gw err) r \<Longrightarrow> call_step L ops (Create_closing gw err) r = Return (c', r') \<Longrightarrow> with_call H c' r'"
  using holds_closed by (auto simp: with_call_def)

lemma deleting_part [call_parts]:
  assumes "with_call H (Create_deleting gw err) r" and "call_step L ops (Create_deleting gw err) r = Return (c', r')"
  shows "with_call H c' r'"
proof -
  obtain x r1 where d: "on_store (op_DeleteGateway ops (gw_ID gw)) r = (x, r1)" by force
  have "registry_holds (held_both (held_only_row 0 gw) H) gws ok r" using assms(1) by (simp add: with_call_def)
  from holds_erased [OF this d] show ?thesis using assms(2) d by (auto simp: with_call_def)
qed

lemma removal_parts [call_parts]:
  "with_call H (Delete_called u) r \<Longrightarrow> call_step L ops (Delete_called u) r = Return (c', r') \<Longrightarrow> with_call H c' r'"
  "with_call H (Decommission_called t i) r \<Longrightarrow> call_step L ops (Decommission_called t i) r = Return (c', r') \<Longrightarrow>
   with_call H c' r'"
  using holds_taken [where G = gws] by (auto simp: with_call_def take_worker_def split: option.splits if_splits)

lemma stopping_part [call_parts]:
  assumes "with_call H (Removal_stopping event w) r" and "call_step L ops (Removal_stopping event w) r = Return (c', r')"
  shows "with_call H c' r'"
proof -
  obtain w' r1 where s: "stop_worker w r = (w', r1)" by force
  with holds_stopped [OF _ _ s] assms show ?thesis by (auto simp: with_call_def)
qed

lemma erasing_part [call_parts]:
  assumes "with_call H (Removal_erasing event gw) r" and "call_step L ops (Removal_erasing event gw) r = Return (c', r')"
    and "\<not> deletion_failed c'"
  shows "with_call H c' r'"
proof -
  obtain x r1 where d: "on_store (op_DeleteGateway ops (gw_ID gw)) r = (x, r1)" by force
  have "registry_holds (held_both (held_only_row (- 1) gw) H) gws ok r" using assms(1) by (simp add: with_call_def)
  note e = holds_erased [OF this d]
  then show ?thesis using assms(2,3) d by (cases x) (auto simp: with_call_def split: if_splits)
qed

lemma failed_erasing_part:
  assumes "with_call H (Removal_erasing event gw) r" and "call_step L ops (Removal_erasing event gw) r = Return (c', r')"
    and "deletion_failed c'"
  shows "with_call (held_both (held_only_gauge (- 1)) H) c' r'"
proof -
  obtain x r1 where d: "on_store (op_DeleteGateway ops (gw_ID gw)) r = (x, r1)" by force
  have "registry_holds (held_both (held_only_row (- 1) gw) H) gws ok r" using assms(1) by (simp add: with_call_def)
  note e = holds_erased [OF this d]
  then show ?thesis using assms(2,3) d by (cases x) (auto simp: with_call_def split: if_splits)
qed

lemma uncounting_part [call_parts]:
  "with_call H Removal_counting r \<Longrightarrow> call_step L ops Removal_counting r = Return (c', r') \<Longrightarrow> with_call H c' r'"
  using holds_gauge [where d = "- 1" and k = "- 1"] by (auto simp: with_call_def)

lemma sensor_called_part [call_parts]:
  assumes "with_call H (Sensor_called u sensor) r" and "call_step L ops (Sensor_called u sensor) r = Return (c', r')"
  shows "with_call H c' r'"
proof -
  obtain x r1 where g: "on_store (op_GetGatewayByManagementID ops u) r = (x, r1)" by force
  have "registry_holds H gws ok r" using assms(1) by (simp add: with_call_def)
  from reads_ok(1) [OF this g] this show ?thesis
    using assms(2) g by (cases x) (auto simp: with_call_def split: if_splits)
qed

lemma sensor_storing_part [call_parts]:
  assumes "with_call H (Sensor_storing u sensor gw) r" and "call_step L ops (Sensor_storing u sensor gw) r = Return (c', r')"
  shows "with_call H c' r'"
proof -
  obtain n r1 where st: "stamp_sensor u gw sensor r = (n, r1)" by force
  obtain x r2 where c: "on_store (op_CreateSensor ops n) r1 = (x, r2)" by force
  have "registry_holds H gws ok r" using assms(1) by (simp add: with_call_def)
  then have "registry_holds H gws ok r1"
    using registry_ok_env [of H gws ok r "env_tick (env_tick (rg_env r))"] stamp_sensor_frame [OF st] by simp
  from reads_ok(5) [OF this c] show ?thesis
    using assms(2) st c by (cases x) (auto simp: with_call_def)
qed

lemma attaching_part [call_parts]:
  assumes "with_call H (Sensor_attaching u sensor) r" and "call_step L ops (Sensor_attaching u sensor) r = Return (c', r')"
  shows "with_call H c' r'"
proof -
  obtain z r1 where a: "attach_to_worker u sensor r = (z, r1)" by force
  have "registry_holds H gws ok r" using assms(1) by (simp add: with_call_def)
  from attach_to_worker_ok [OF this a] show ?thesis using assms(2) a by (auto simp: with_call_def)
qed

lemma restore_next_part [call_parts]:
  assumes "with_call H (Restore_next gws') r" and "call_step L ops (Restore_next gws') r = Return (c', r')"
  shows "with_call H c' r'"
proof (cases gws')
  case Nil
  then show ?thesis using assms by (simp add: with_call_def)
next
  case (Cons gw gs)
  obtain x r1 where ls: "on_store (op_ListSensors ops (gw_ID gw)) r = (x, r1)" by force
  have h: "registry_holds (held_both (held_to_restore (gw # gs)) H) gws ok r" using assms(1) Cons by (simp add: with_call_def)
  note l = reads_ok(3) [OF h ls]
  show ?thesis
    using assms Cons ls l holds_row_forgotten [where d = 0 and G = gws and gw = gw and r = r1]
    by (cases x) (auto simp: with_call_def split: if_splits)
qed

lemma restore_connecting_part [call_parts]:
  assumes "with_call H (Restore_connecting gw sensors gs) r"
    and "call_step L ops (Restore_connecting gw sensors gs) r = Return (c', r')"
  shows "with_call H c' r'"
proof -
  obtain x r1 where con: "connector_Connect (gw_CertPEM gw) (gw_PrivateKeyPEM gw) (gw_TenantID gw)
      (gw_ManagementGatewayID gw) r = (x, r1)" by force
  have h: "registry_holds (held_both (held_only_row 0 gw) (held_both (held_to_restore gs) H)) gws ok r"
    using assms(1) by (simp add: with_call_def)
  show ?thesis
    using assms(2) con holds_connected [OF h] holds_not_connected [OF h]
      holds_row_forgotten [where d = 0 and G = gws and gw = gw and r = r1]
    by (cases x) (auto simp: with_call_def)
qed

lemma restore_parts [call_parts]:
  "with_call H (Restore_starting gw sensors pub gs) r \<Longrightarrow>
   call_step L ops (Restore_starting gw sensors pub gs) r = Return (c', r') \<Longrightarrow> with_call H c' r'"
  "with_call H (Restore_counting gw gs) r \<Longrightarrow> call_step L ops (Restore_counting gw gs) r = Return (c', r') \<Longrightarrow> with_call H c' r'"
  using holds_registered holds_gauge [where d = 1 and k = 1]
  by (auto simp: with_call_def go_bind_eq_Return)

lemma restore_updating_part [call_parts]:
  assumes "with_call H (Restore_updating gw gs) r" and "call_step L ops (Restore_updating gw gs) r = Return (c', r')"
  shows "with_call H c' r'"
proof -
  obtain x r1 where u: "on_store (op_UpdateStatus ops (gw_ID gw) Online) r = (x, r1)" by force
  have "registry_holds (held_both (held_to_restore gs) H) gws ok r" using assms(1) by (simp add: with_call_def)
  from UpdateStatus_ok [OF this u] show ?thesis using assms(2) u by (auto simp: with_call_def)
qed

text \<open>A deletion fails nowhere else.\<close>

lemma failing_part_only:
  assumes "call_step L ops c r = Return (c', r')" and "deletion_failed c'"
  shows "call_over c \<or> (\<exists>event gw. c = Removal_erasing event gw)"
  using assms
  by (cases c) (auto simp: take_worker_def notFound_def Let_def go_bind_eq_Return
      split: sum.splits option.splits if_splits prod.splits list.splits elim: restore_step.elims)

lemma unfailing_step_ok:
  assumes "with_call H c r" and "call_step L ops c r = Return (c', r')" and "\<not> deletion_failed c'"
  shows "with_call H c' r'"
proof (cases "call_over c")
  case True
  then show ?thesis using assms by (simp add: call_over_stays)
next
  case False
  with assms show ?thesis
    by - (cases c; simp only:; (erule (2) erasing_part | erule (1) call_parts | simp))
qed

text \<open>Every part of a call, with the failed deletions counted or not.\<close>

lemma call_step_ok:
  assumes "with_call (held_both (held_lost x (failed_deletions [c] + n)) H) c r"
    and "call_step L ops c r = Return (c', r')" and "\<not> held_exact H"
  shows "with_call (held_both (held_lost x (failed_deletions [c'] + n)) H) c' r'"
proof (cases "call_over c")
  case True
  then show ?thesis using assms by (simp add: call_over_stays)
next
  case False
  then have c: "\<not> deletion_failed c" by (cases c) simp_all
  show ?thesis
  proof (cases "deletion_failed c'")
    case False
    then show ?thesis using unfailing_step_ok [OF assms(1,2)] c by simp
  next
    case True
    from failing_part_only [OF assms(2) True] \<open>\<not> call_over c\<close> obtain event gw where e: "c = Removal_erasing event gw" by blast
    from failed_erasing_part [OF assms(1)[unfolded e] assms(2)[unfolded e] True] True c
    show ?thesis using assms(3) by (simp add: with_call_def registry_holds_def held_only_gauge_def split: if_splits)
  qed
qed

end

subsection \<open>Every step of the system\<close>

definition calls_hold ::
  "bool \<Rightarrow> ('s \<Rightarrow> int64 \<Rightarrow> SimGateway option) \<Rightarrow> ('s \<Rightarrow> bool) \<Rightarrow> registry_call list \<times> 's GatewayRegistry \<Rightarrow> bool" where
  "calls_hold exact G ok s \<longleftrightarrow>
     registry_holds (held_both (held_lost exact (failed_deletions (fst s))) (held_all (fst s))) G ok (snd s) \<and>
     list_all call_sound (fst s)"

abbreviation calls_ok ::
  "('s \<Rightarrow> int64 \<Rightarrow> SimGateway option) \<Rightarrow> ('s \<Rightarrow> bool) \<Rightarrow> registry_call list \<times> 's GatewayRegistry \<Rightarrow> bool" where
  "calls_ok \<equiv> calls_hold False"

lemma calls_ok_iff: "calls_ok G ok s \<longleftrightarrow> registry_holds (held_all (fst s)) G ok (snd s) \<and> list_all call_sound (fst s)"
  by (simp add: calls_hold_def)

text \<open>A worker that was taken out goes on like a registered one until it is stopped.\<close>

lemma held_worker_frame:
  assumes "loop_frame w w'" and "registry_holds (held_both (held_worker w) H) G ok r"
  shows "registry_holds (held_both (held_worker w') H) G ok r"
  using assms
  by (auto simp: registry_holds_def held_worker_def loop_frame_def worker_identity_def rows_held_def has_row_def)

lemma worker_sound_frame: "loop_frame w w' \<Longrightarrow> worker_sound w \<Longrightarrow> worker_sound w'"
  by (auto simp: worker_sound_def loop_frame_def worker_identity_def)

context relational_store
begin

lemma calls_hold_focus:
  "calls_hold x gws ok (cs @ c # ds, r) \<longleftrightarrow>
     with_call (held_both (held_lost x (failed_deletions [c] + failed_deletions (cs @ ds))) (held_all (cs @ ds))) c r \<and>
     list_all call_sound (cs @ ds)"
  using holds_focus [of "held_lost x (failed_deletions (cs @ c # ds))" cs c ds gws ok r]
  by (auto simp: calls_hold_def with_call_def ac_simps)

lemma calls_ok_focus:
  "calls_ok gws ok (cs @ c # ds, r) \<longleftrightarrow> with_call (held_all (cs @ ds)) c r \<and> list_all call_sound (cs @ ds)"
  by (simp only: calls_hold_focus held_lost_simps held_both_simps)

lemma removed_step:
  assumes "with_call H (Removal_stopping event w) r" and "loop_frame w w'" and "rg_workers r' = rg_workers r"
    and "store_step (rg_store r) (rg_store r')" and "rg_cfg r' = rg_cfg r" and "oracles (rg_env r') = oracles (rg_env r)"
    and "rg_conns r' = rg_conns r" and "rg_subs r' = rg_subs r"
    and "GatewaysRunning (rg_metrics r') = GatewaysRunning (rg_metrics r)"
  shows "with_call H (Removal_stopping event w') r'"
proof -
  let ?H = "held_both (held_worker w') H"
  have 1: "registry_holds ?H gws ok r" and 2: "worker_sound w'"
    using assms(1) held_worker_frame [OF assms(2), of H gws ok r] worker_sound_frame [OF assms(2)]
    by (simp_all add: with_call_def)
  have st: "ok (rg_store r')" "same_gateways (gws (rg_store r)) (gws (rg_store r'))"
    using assms(4) ok_store [OF 1] by (simp_all add: store_step_def)
  have "registry_holds ?H gws ok (r\<lparr>rg_env := rg_env r'\<rparr>)" by (rule registry_ok_env [OF 1 assms(6)])
  then have "registry_holds ?H gws ok r'"
    by (rule registry_ok_store) (use assms(3-9) st in simp_all)
  with 2 show ?thesis by (simp add: with_call_def)
qed

lemma calls_step_ok:
  assumes "calls_step L ops s s'" and "calls_hold x gws ok s"
  shows "calls_hold x gws ok s'"
  using assms
proof (induction rule: calls_step.induct)
  case (step_arrival c cs r)
  then show ?case using held_arriving [of c] by (simp add: calls_hold_def held_all_append)
next
  case (step_part c r c' r' cs ds)
  then show ?case unfolding calls_hold_focus using call_step_ok held_all_inexact by blast
next
  case (step_other r r' cs)
  then show ?case using registry_step_ok by (auto simp: calls_hold_def)
next
  case (step_removed_loop w k r w' s' m' e' cs event ds)
  note f = loop_case_frame [OF step_removed_loop(2)] and st = loop_case_store [OF step_removed_loop(2)]
  from step_removed_loop(3) show ?case
    unfolding calls_hold_focus deletion_failed.simps failed_deletions_simps by (elim conjE, intro conjI, elim removed_step) (use f st in simp_all)
next
  case (step_removed_flush w r b p m' e' cs event ds)
  note f = flush_frame [OF step_removed_flush(1)]
  from step_removed_flush(2) show ?case
    unfolding calls_hold_focus deletion_failed.simps failed_deletions_simps by (elim conjE, intro conjI, elim removed_step) (use f store_step_refl in simp_all)
next
  case (step_removed_pump w cmd ch cs event ds r)
  note f = keeps_loop_frame [OF channel_steps_keep(1) [OF step_removed_pump(2)]]
  from step_removed_pump(3) show ?case
    unfolding calls_hold_focus deletion_failed.simps failed_deletions_simps by (elim conjE, intro conjI, elim removed_step) (use f store_step_refl in simp_all)
next
  case (step_removed_message s w data r d s' p e' cs event ds)
  note f = publisher_loop_frame [of w p] and o = handleMsg_oracles [OF step_removed_message(2)]
  from step_removed_message(3) show ?case
    unfolding calls_hold_focus deletion_failed.simps failed_deletions_simps by (elim conjE, intro conjI, elim removed_step) (use f o store_step_refl in simp_all)
qed

lemma calls_reachable_ok: "(calls_step L ops)\<^sup>*\<^sup>* s s' \<Longrightarrow> calls_hold x gws ok s \<Longrightarrow> calls_hold x gws ok s'"
  by (induction rule: rtranclp_induct) (auto intro: calls_step_ok)

text \<open>When every call is over, the registry is as between calls.\<close>

lemma calls_ok_over: "calls_ok gws ok (cs, r) \<Longrightarrow> list_all call_over cs \<Longrightarrow> registry_ok gws ok r"
  by (simp add: calls_ok_iff held_all_over)

text \<open>The start of the program, where every stored gateway is still to be restored.\<close>

lemma boot_calls_ok:
  assumes "registry_holds (held_lost x 0) gws ok r" and "rg_workers r = []"
  shows "calls_hold x gws ok (boot_calls ops cfg r)"
proof (cases "cf_RecoveryMode cfg")
  case False
  then show ?thesis using assms(1) by (simp add: boot_calls_def calls_hold_def)
next
  case True
  obtain y r1 where ls: "on_store (op_ListGateways ops) r = (y, r1)" by force
  note ok1 = reads_ok(2) [OF assms(1) ls]
  show ?thesis
  proof (cases y)
    case (Inl err)
    then show ?thesis using ok1 ls True by (simp add: boot_calls_def calls_hold_def)
  next
    case (Inr gs)
    note l = listed_gateways [OF assms ls [unfolded Inr]]
    then have "rows_held (gws (rg_store r1)) (rg_workers r1) (filter gw_Provisioned gs)"
      by (auto simp: rows_held_def list_all_iff distinct_map_filter)
    then have "registry_holds (held_both (held_lost x 0) (held_to_restore gs)) gws ok r1"
      using ok1 by (simp add: registry_holds_def held_to_restore_def)
    then show ?thesis using Inr ls True by (simp add: boot_calls_def calls_hold_def)
  qed
qed

end

context relational_store
begin

text \<open>From the start of the program.\<close>

lemma calls_ok_from_boot:
  assumes "Load getenv = Inr cfg" and "ok s" and "onboard_lawful e"
    and "(calls_step L ops)\<^sup>*\<^sup>* (boot_calls ops cfg (NewGatewayRegistry s e cfg NewMetrics)) s'"
  shows "calls_hold x gws ok s'"
proof -
  have "registry_ok gws ok (NewGatewayRegistry s e cfg NewMetrics)"
    using assms(2,3) Load_ok [OF assms(1)] by (intro NewGatewayRegistry_ok) (simp_all add: NewMetrics_def)
  then have "registry_holds (held_lost x 0) gws ok (NewGatewayRegistry s e cfg NewMetrics)"
    by (simp add: registry_holds_def NewGatewayRegistry_def NewMetrics_def)
  from calls_reachable_ok [OF assms(4) boot_calls_ok [OF this]] show ?thesis by (simp add: NewGatewayRegistry_def)
qed

end

text \<open>A call has at most one connection and one subscription of its own, and none when it is over.\<close>

lemma held_few: "held_conns (held_by c) \<le> (if call_over c then 0 else 1)" "held_subs (held_by c) \<le> (if call_over c then 0 else 1)"
  by (cases c; simp add: held_defs held_connected_def held_to_restore_def)+

lemma held_all_few:
  "held_conns (held_all cs) \<le> length (filter (\<lambda>c. \<not> call_over c) cs) \<and>
   held_subs (held_all cs) \<le> length (filter (\<lambda>c. \<not> call_over c) cs)"
proof (induction cs)
  case (Cons c cs)
  then show ?case using held_few [of c] by (cases "call_over c") auto
qed simp

text \<open>A run of one call, next to others that do nothing, is a run of the system.\<close>

lemma run_call_steps:
  "run_call L ops n c r = Return (c', r') \<Longrightarrow> (calls_step L ops)\<^sup>*\<^sup>* (cs @ c # ds, r) (cs @ c' # ds, r')"
proof (induction n arbitrary: c r)
  case (Suc n)
  then obtain c1 r1 where s: "call_step L ops c r = Return (c1, r1)" and rest: "run_call L ops n c1 r1 = Return (c', r')"
    by (auto simp: go_bind_eq_Return)
  from step_part [OF s, of cs ds] Suc.IH [OF rest] show ?case by (rule converse_rtranclp_into_rtranclp)
qed simp

end
