(* ===== verification/Registry_Bulk.thy ===== *)
theory Registry_Bulk
  imports Registry_Interleaving
begin

text \<open>
  \<^verbatim>\<open>BulkCreateGateways\<close> of \<^verbatim>\<open>internal/app/registry.go\<close> with its goroutines as they are: one creation per
  factory id, their parts interleaved, and the semaphore that lets ten of them be under way at a time. Every
  schedule ends, and whatever the schedule each id has its own answer and each success its own worker.
\<close>

subsection \<open>The goroutines and the semaphore\<close>

definition bulkCreateConcurrency :: nat where
  "bulkCreateConcurrency = 10"

definition bulk_requests :: "BulkCreateRequest \<Rightarrow> CreateGatewayRequest list" where
  "bulk_requests req = map (bulk_request req) (resolveBulkFactoryIDs (br_FactoryIDs req))"

text \<open>A goroutine holds a slot of the semaphore from its first part to its last.\<close>

fun holds_slot :: "registry_call \<Rightarrow> bool" where
  "holds_slot (Create_called req) = False"
| "holds_slot c = (\<not> call_over c)"

definition slots_taken :: "registry_call list \<Rightarrow> nat" where
  "slots_taken cs = length (filter holds_slot cs)"

definition bulk_ready :: "registry_call list \<Rightarrow> nat \<Rightarrow> bool" where
  "bulk_ready cs i \<longleftrightarrow>
     i < length cs \<and> \<not> call_over (cs ! i) \<and> (holds_slot (cs ! i) \<or> slots_taken cs < bulkCreateConcurrency)"

inductive bulk_step ::
  "'x libs_scheme \<Rightarrow> 's store_ops \<Rightarrow> registry_call list \<times> 's GatewayRegistry
     \<Rightarrow> registry_call list \<times> 's GatewayRegistry \<Rightarrow> bool" for L ops where
  bulk_part:
  "bulk_ready cs i \<Longrightarrow> call_step L ops (cs ! i) r = Return (c, r') \<Longrightarrow> bulk_step L ops (cs, r) (cs[i := c], r')"

inductive_cases bulk_stepE: "bulk_step L ops s s'"

text \<open>The steps of the goroutines are steps of the calls.\<close>

lemma bulk_step_calls: "bulk_step L ops s s' \<Longrightarrow> calls_step L ops s s'"
proof (erule bulk_stepE)
  fix cs i r c r'
  assume s: "s = (cs, r)" "s' = (cs[i := c], r')" and b: "bulk_ready cs i" "call_step L ops (cs ! i) r = Return (c, r')"
  from b(1) have i: "i < length cs" by (simp add: bulk_ready_def)
  show "calls_step L ops s s'"
    using step_part [OF b(2), of "take i cs" "drop (Suc i) cs"] i
    by (simp add: s upd_conv_take_nth_drop id_take_nth_drop [symmetric])
qed

subsection \<open>Every schedule ends\<close>

definition bulk_left :: "registry_call list \<Rightarrow> nat" where
  "bulk_left cs = (\<Sum>c\<leftarrow>cs. parts_left c)"

lemma bulk_left_update:
  "i < length cs \<Longrightarrow> bulk_left (cs[i := c]) + parts_left (cs ! i) = bulk_left cs + parts_left c"
  by (induction cs arbitrary: i) (auto simp: bulk_left_def split: nat.splits)

lemma bulk_step_left: "bulk_step L ops (cs, r) (cs', r') \<Longrightarrow> bulk_left cs' < bulk_left cs"
proof (erule bulk_stepE)
  fix ds i q c q'
  assume s: "(cs, r) = (ds, q)" "(cs', r') = (ds[i := c], q')"
    and b: "bulk_ready ds i" "call_step L ops (ds ! i) q = Return (c, q')"
  from b(1) have i: "i < length ds" "\<not> call_over (ds ! i)" by (simp_all add: bulk_ready_def)
  from call_step_progress [OF b(2) i(2)] bulk_left_update [OF i(1), of c] s
  show "bulk_left cs' < bulk_left cs" by simp
qed

lemma bulk_steps_left: "(bulk_step L ops ^^ n) s s' \<Longrightarrow> n + bulk_left (fst s') \<le> bulk_left (fst s)"
proof (induction n arbitrary: s')
  case (Suc n)
  from Suc.prems obtain t where "(bulk_step L ops ^^ n) s t" and t: "bulk_step L ops t s'" by auto
  from Suc.IH [OF this(1)] bulk_step_left [of L ops "fst t" "snd t" "fst s'" "snd s'"] t show ?case by simp
qed simp

text \<open>The semaphore never blocks all of them: as long as one is not over, one is ready.\<close>

lemma bulk_not_stuck:
  assumes "\<not> list_all call_over cs"
  shows "\<exists>i. bulk_ready cs i"
proof -
  from assms obtain k where k: "k < length cs" "\<not> call_over (cs ! k)" by (auto simp: list_all_length)
  show ?thesis
  proof (cases "\<exists>i < length cs. holds_slot (cs ! i)")
    case True
    then obtain i where i: "i < length cs" "holds_slot (cs ! i)" by blast
    then have "\<not> call_over (cs ! i)" by (cases "cs ! i") simp_all
    with i show ?thesis by (auto simp: bulk_ready_def)
  next
    case False
    then have "slots_taken cs = 0" by (auto simp: slots_taken_def filter_empty_conv in_set_conv_nth)
    with k show ?thesis by (auto simp: bulk_ready_def bulkCreateConcurrency_def)
  qed
qed

text \<open>The semaphore is never held by more than ten.\<close>

lemma slots_taken_update:
  "i < length cs \<Longrightarrow> slots_taken (cs[i := c]) + (if holds_slot (cs ! i) then 1 else 0) =
     slots_taken cs + (if holds_slot c then 1 else 0)"
proof (induction cs arbitrary: i)
  case (Cons d ds)
  then show ?case by (cases i) (auto simp: slots_taken_def dest: Cons.IH [of "i - 1"])
qed simp

lemma bulk_step_slots:
  assumes "bulk_step L ops (cs, r) (cs', r')" and "slots_taken cs \<le> bulkCreateConcurrency"
  shows "slots_taken cs' \<le> bulkCreateConcurrency"
  using assms(1)
proof (cases rule: bulk_step.cases)
  case (bulk_part i c)
  then have "i < length cs" "holds_slot (cs ! i) \<or> slots_taken cs < bulkCreateConcurrency" by (simp_all add: bulk_ready_def)
  with slots_taken_update [of i cs c] assms(2) bulk_part(1) show ?thesis by (auto split: if_splits)
qed

subsection \<open>Every id has its answer and every success its worker\<close>

text \<open>The management id under which a creation has put its worker into the map.\<close>

fun call_worker :: "registry_call \<Rightarrow> uuid option" where
  "call_worker (Create_counting gw) = Some (gw_ManagementGatewayID gw)"
| "call_worker (Create_updating gw) = Some (gw_ManagementGatewayID gw)"
| "call_worker (Create_succeeding gw) = Some (gw_ManagementGatewayID gw)"
| "call_worker (Create_returned (Inr gw)) = Some (gw_ManagementGatewayID gw)"
| "call_worker c = None"

text \<open>The gateway a creation is about, as far as it knows it.\<close>

fun call_gateway :: "registry_call \<Rightarrow> SimGateway option" where
  "call_gateway (Create_onboarding gw) = Some gw"
| "call_gateway (Create_storing gw) = Some gw"
| "call_gateway (Create_connecting gw) = Some gw"
| "call_gateway (Create_listing gw pub) = Some gw"
| "call_gateway (Create_starting gw pub sensors) = Some gw"
| "call_gateway (Create_counting gw) = Some gw"
| "call_gateway (Create_updating gw) = Some gw"
| "call_gateway (Create_succeeding gw) = Some gw"
| "call_gateway (Create_returned (Inr gw)) = Some gw"
| "call_gateway c = None"

text \<open>A creation for the factory id \<open>fid\<close>, whose worker, once there is one, is a running one of its gateway.\<close>

definition creates :: "string \<Rightarrow> (uuid \<times> GatewayWorker) list \<Rightarrow> registry_call \<Rightarrow> bool" where
  "creates fid ws c \<longleftrightarrow>
     kind_of c = Creation \<and> (\<forall>req. c = Create_called req \<longrightarrow> cr_FactoryID req = fid) \<and>
     (\<forall>gw. call_gateway c = Some gw \<longrightarrow> gw_FactoryID gw = fid) \<and>
     (\<forall>u gw. call_worker c = Some u \<longrightarrow> call_gateway c = Some gw \<longrightarrow>
        (\<exists>w. map_of ws u = Some w \<and> w_isRunning w \<and> w_pumpRunning w \<and> \<not> w_connClosed w \<and> gw_ID (w_gateway w) = gw_ID gw))"

text \<open>A part of a creation leaves the map of workers alone, or adds its own worker.\<close>

lemma create_part_workers:
  assumes "call_step L ops c r = Return (c', r')" and "kind_of c = Creation" and "registry_holds (held_both (held_by c) H) G ok r"
  shows "rg_workers r' = rg_workers r \<and> call_worker c' = call_worker c \<or>
    (\<exists>u w. u \<notin> fst ` set (rg_workers r) \<and> rg_workers r' = map_put u w (rg_workers r) \<and>
       call_worker c = None \<and> call_worker c' = Some u)"
proof (cases "\<exists>gw pub sensors. c = Create_starting gw pub sensors")
  case True
  then obtain gw pub sensors where c: "c = Create_starting gw pub sensors" by blast
  with assms(1) have st: "register_worker L gw sensors pub r = Return r'" and c': "c' = Create_counting gw"
    by (auto simp: go_bind_eq_Return)
  have "config_ok (rg_cfg r)" using assms(3) by (simp add: registry_holds_def)
  from register_workerD [OF st this] obtain w where "rg_workers r' = map_put (gw_ManagementGatewayID gw) w (rg_workers r)"
    by metis
  moreover have "gw_ManagementGatewayID gw \<notin> fst ` set (rg_workers r)"
    using assms(3) c by (auto simp: registry_holds_def held_connected_def rows_held_def)
  ultimately show ?thesis using c c' by auto
next
  case False
  with assms(1,2) show ?thesis
    by (cases "(L, ops, c, r)" rule: create_step.cases)
      (auto simp: registry_Now_def provisioner_Onboard_def connector_Connect_def on_store_def Let_def case_prod_unfold
        split: sum.splits option.splits)
qed

lemma create_part_creates:
  assumes "call_step L ops c r = Return (c', r')" and "creates fid (rg_workers r) c" and "config_ok (rg_cfg r)"
  shows "creates fid (rg_workers r') c'"
proof (cases "\<exists>gw pub sensors. c = Create_starting gw pub sensors")
  case True
  then obtain gw pub sensors where c: "c = Create_starting gw pub sensors" by blast
  with assms(1) have st: "register_worker L gw sensors pub r = Return r'" and c': "c' = Create_counting gw"
    by (auto simp: go_bind_eq_Return)
  from register_workerD [OF st assms(3)] obtain w where
    "rg_workers r' = map_put (gw_ManagementGatewayID gw) w (rg_workers r)" "w_gateway w = gw" "w_isRunning w"
    "\<not> w_connClosed w" "w_pumpRunning w" by metis
  then show ?thesis using assms(2) c c' by (auto simp: creates_def)
next
  case False
  with assms(1,2) show ?thesis
    by (cases "(L, ops, c, r)" rule: create_step.cases)
      (auto simp: creates_def registry_Now_def provisioner_Onboard_def connector_Connect_def on_store_def Let_def
        case_prod_unfold requested_gateway_def provisioned_gateway_def split: sum.splits option.splits)
qed

text \<open>The other creations keep what they have.\<close>

lemma creates_other: "u \<notin> fst ` set ws \<Longrightarrow> creates fid ws c \<Longrightarrow> creates fid (map_put u w ws) c"
  by (auto simp: creates_def map_of_eq_None_iff [symmetric])

text \<open>What holds while a bulk creation is under way that began with the workers \<open>base\<close>.\<close>

definition created :: "registry_call list \<Rightarrow> uuid set" where
  "created cs = {u. \<exists>i < length cs. call_worker (cs ! i) = Some u}"

definition own_workers :: "uuid set \<Rightarrow> registry_call list \<Rightarrow> bool" where
  "own_workers base cs \<longleftrightarrow> base \<inter> created cs = {} \<and>
     (\<forall>i < length cs. \<forall>j < length cs. \<forall>u. call_worker (cs ! i) = Some u \<longrightarrow> call_worker (cs ! j) = Some u \<longrightarrow> i = j)"

definition bulk_inv ::
  "string list \<Rightarrow> uuid set \<Rightarrow> registry_call list \<times> 's GatewayRegistry \<Rightarrow> bool" where
  "bulk_inv fids base s \<longleftrightarrow>
     list_all2 (\<lambda>fid. creates fid (rg_workers (snd s))) fids (fst s) \<and>
     fst ` set (rg_workers (snd s)) = base \<union> created (fst s) \<and> own_workers base (fst s)"


lemma created_same: "i < length cs \<Longrightarrow> call_worker c = call_worker (cs ! i) \<Longrightarrow> created (cs[i := c]) = created cs"
  by (auto simp: created_def nth_list_update)

lemma created_new:
  "i < length cs \<Longrightarrow> call_worker (cs ! i) = None \<Longrightarrow> call_worker c = Some u \<Longrightarrow>
   created (cs[i := c]) = insert u (created cs)"
  by (auto simp: created_def nth_list_update split: if_splits) (metis option.distinct(1))+

lemma own_workers_same:
  "i < length cs \<Longrightarrow> call_worker c = call_worker (cs ! i) \<Longrightarrow> own_workers base cs \<Longrightarrow> own_workers base (cs[i := c])"
  by (auto simp: own_workers_def created_same nth_list_update)

lemma own_workers_new:
  assumes "i < length cs" and "call_worker (cs ! i) = None" and "call_worker c = Some u" and "u \<notin> base" and "u \<notin> created cs"
    and "own_workers base cs"
  shows "own_workers base (cs[i := c])"
proof -
  have "call_worker (cs ! j) \<noteq> Some u" if "j < length cs" for j
    using assms(5) that by (auto simp: created_def)
  with assms show ?thesis by (auto simp: own_workers_def created_new nth_list_update)
qed

lemma list_all2_update:
  "list_all2 P xs ys \<Longrightarrow> i < length ys \<Longrightarrow> (\<And>x y. P x y \<Longrightarrow> Q x y) \<Longrightarrow> Q (xs ! i) y \<Longrightarrow> list_all2 Q xs (ys[i := y])"
  by (auto simp: list_all2_conv_all_nth nth_list_update)

context relational_store
begin

lemma bulk_step_inv:
  assumes "bulk_step L ops s s'" and "bulk_inv fids base s" and "calls_ok gws ok s"
  shows "bulk_inv fids base s'"
  using assms(1)
proof (cases rule: bulk_step.cases)
  case (bulk_part cs i r c r')
  then have i: "i < length cs" by (simp add: bulk_ready_def)
  have split: "cs = take i cs @ cs ! i # drop (Suc i) cs" by (rule id_take_nth_drop [OF i])
  have h: "registry_holds (held_both (held_by (cs ! i)) (held_all (take i cs @ drop (Suc i) cs))) gws ok r"
    using assms(3) split bulk_part(1) by (metis calls_ok_iff fst_conv holds_focus [of nothing_held, unfolded held_both_simps] snd_conv)
  then have cfg: "config_ok (rg_cfg r)" by (simp add: registry_holds_def)
  have all: "list_all2 (\<lambda>fid. creates fid (rg_workers r)) fids cs"
    and keys: "fst ` set (rg_workers r) = base \<union> created cs" and own: "own_workers base cs"
    using assms(2) bulk_part(1) by (simp_all add: bulk_inv_def)
  have "creates (fids ! i) (rg_workers r) (cs ! i)" using all i by (simp add: list_all2_conv_all_nth)
  note c = create_part_creates [OF bulk_part(4) this cfg]
  have "kind_of (cs ! i) = Creation" using \<open>creates (fids ! i) (rg_workers r) (cs ! i)\<close> by (simp add: creates_def)
  from create_part_workers [OF bulk_part(4) this h] show ?thesis
  proof (elim disjE conjE exE)
    assume same: "rg_workers r' = rg_workers r" "call_worker c = call_worker (cs ! i)"
    then have "list_all2 (\<lambda>fid. creates fid (rg_workers r')) fids (cs[i := c])"
      using c by (auto intro: list_all2_update [OF all i])
    then show ?thesis
      using own_workers_same [OF i same(2) own] keys created_same [OF i same(2)] bulk_part(2) same(1)
      by (simp add: bulk_inv_def)
  next
    fix u w
    assume new: "u \<notin> fst ` set (rg_workers r)" "rg_workers r' = map_put u w (rg_workers r)"
      "call_worker (cs ! i) = None" "call_worker c = Some u"
    have "list_all2 (\<lambda>fid. creates fid (rg_workers r')) fids (cs[i := c])"
      using c creates_other [OF new(1)] by (auto simp: new(2) intro: list_all2_update [OF all i])
    moreover have "u \<notin> base" "u \<notin> created cs" using new(1) keys by blast+
    ultimately show ?thesis
      using own_workers_new [OF i new(3,4) _ _ own] keys created_new [OF i new(3,4)] bulk_part(2) new(2)
      by (simp add: bulk_inv_def)
  qed
qed

lemma bulk_reachable:
  assumes "(bulk_step L ops)\<^sup>*\<^sup>* s s'" and "bulk_inv fids base s" and "calls_ok gws ok s"
    and "slots_taken (fst s) \<le> bulkCreateConcurrency"
  shows "bulk_inv fids base s' \<and> calls_ok gws ok s' \<and> slots_taken (fst s') \<le> bulkCreateConcurrency"
  using assms(1)
proof (induction rule: rtranclp_induct)
  case base
  then show ?case using assms(2-4) by simp
next
  case (step t t')
  then show ?case
    using bulk_step_inv [OF step(2)] calls_step_ok [OF bulk_step_calls [OF step(2)]]
      bulk_step_slots [of L ops "fst t" "snd t" "fst t'" "snd t'"] by simp
qed

text \<open>How it starts.\<close>

lemma bulk_start:
  assumes "registry_ok gws ok r" and "cs = map Create_called (bulk_requests req)"
  shows "bulk_inv (resolveBulkFactoryIDs (br_FactoryIDs req)) (fst ` set (rg_workers r)) (cs, r)"
    and "calls_ok gws ok (cs, r)" and "slots_taken cs = 0"
    and "bulk_left cs = 9 * length (resolveBulkFactoryIDs (br_FactoryIDs req))"
proof -
  show "bulk_inv (resolveBulkFactoryIDs (br_FactoryIDs req)) (fst ` set (rg_workers r)) (cs, r)"
    by (auto simp: assms(2) bulk_inv_def bulk_requests_def bulk_request_def list_all2_conv_all_nth creates_def created_def own_workers_def)
  have "held_all (map Create_called rs) = nothing_held" "list_all call_sound (map Create_called rs)" for rs
    by (induction rs) simp_all
  then show "calls_ok gws ok (cs, r)" using assms by (simp add: calls_ok_iff)
  show "slots_taken cs = 0" by (simp add: assms(2) slots_taken_def filter_empty_conv)
  show "bulk_left cs = 9 * length (resolveBulkFactoryIDs (br_FactoryIDs req))"
    by (simp add: assms(2) bulk_left_def bulk_requests_def o_def sum_list_triv)
qed

end

text \<open>When all are over, the workers that were made are those of the successes.\<close>

lemma created_over:
  assumes "list_all2 (\<lambda>fid. creates fid ws) fids cs" and "list_all call_over cs"
  shows "created cs = {gw_ManagementGatewayID gw | gw. Create_returned (Inr gw) \<in> set cs}"
proof -
  have "call_worker c = Some u \<longleftrightarrow> (\<exists>gw. c = Create_returned (Inr gw) \<and> u = gw_ManagementGatewayID gw)"
    if "call_over c" for c u
    using that by (cases c rule: call_worker.cases) auto
  moreover have "call_over (cs ! i)" if "i < length cs" for i using assms(2) that by (simp add: list_all_length)
  ultimately show ?thesis unfolding created_def in_set_conv_nth by (intro Collect_cong) metis
qed

subsection \<open>A schedule, played\<close>

text \<open>The goroutines run one part each in the order \<open>is\<close>; a turn of one that is not ready is passed over.\<close>

fun run_schedule ::
  "'x libs_scheme \<Rightarrow> 's store_ops \<Rightarrow> nat list \<Rightarrow> registry_call list \<times> 's GatewayRegistry
     \<Rightarrow> (registry_call list \<times> 's GatewayRegistry) go" where
  "run_schedule L ops [] s = Return s"
| "run_schedule L ops (i # is) (cs, r) =
     (if bulk_ready cs i then
        go_bind (call_step L ops (cs ! i) r) (\<lambda>(c, r). run_schedule L ops is (cs[i := c], r))
      else run_schedule L ops is (cs, r))"

lemma run_schedule_steps: "run_schedule L ops is s = Return s' \<Longrightarrow> (bulk_step L ops)\<^sup>*\<^sup>* s s'"
proof (induction "is" arbitrary: s)
  case (Cons i "is")
  obtain cs r where s: "s = (cs, r)" by (cases s)
  show ?case
  proof (cases "bulk_ready cs i")
    case True
    with Cons.prems s obtain c r1 where "call_step L ops (cs ! i) r = Return (c, r1)"
      and "run_schedule L ops is (cs[i := c], r1) = Return s'" by (auto simp: go_bind_eq_Return)
    with bulk_part [OF True this(1)] Cons.IH s show ?thesis by (meson converse_rtranclp_into_rtranclp)
  next
    case False
    with Cons s show ?thesis by simp
  qed
qed simp

text \<open>How a finished creation came out.\<close>

lemma creates_returned:
  assumes "creates fid ws c" and "call_over c"
  shows "(\<exists>err. c = Create_returned (Inl err)) \<or>
    (\<exists>gw w. c = Create_returned (Inr gw) \<and> gw_FactoryID gw = fid \<and>
       map_of ws (gw_ManagementGatewayID gw) = Some w \<and> gw_ID (w_gateway w) = gw_ID gw \<and>
       w_isRunning w \<and> w_pumpRunning w \<and> \<not> w_connClosed w)"
proof (cases c)
  case (Create_returned x)
  then show ?thesis using assms(1) by (cases x) (auto simp: creates_def)
qed (use assms in \<open>auto simp: creates_def\<close>)

end
