(* ===== verification/Registry_Races.thy ===== *)
theory Registry_Races
  imports Registry_Interleaving
begin

text \<open>
  Two orders of parts that the registry does not guard against: a sensor added between the listing of a new
  gateway's sensors and the entry of its worker into the map, and a decommission event that comes before its
  gateway is restored.
\<close>

context relational_store
begin

text \<open>A sensor that was added has a new row; without a worker nothing else happens.\<close>

lemma AddSensor_success:
  assumes "registry_holds H gws ok r" and "AddSensor L ops u n r = (Inr n', r')"
  shows "sns (rg_store r) (sn_ID n') = None" and "sns (rg_store r') = (sns (rg_store r))(sn_ID n' \<mapsto> stored n')"
    and "rg_cfg r' = rg_cfg r"
    and "map_of (rg_workers r) u = None \<Longrightarrow> rg_workers r' = rg_workers r"
proof -
  obtain x r1 where g: "on_store (op_GetGatewayByManagementID ops u) r = (x, r1)" by force
  with assms(2) obtain gw where x: "x = Inr gw" by (cases x) (auto simp: AddSensor_def split: if_splits)
  obtain n1 r2 where st: "stamp_sensor u gw n r1 = (n1, r2)" by force
  obtain y r3 where c: "on_store (op_CreateSensor ops n1) r2 = (y, r3)" by force
  with assms(2) g x st obtain i where y: "y = Inr i" and a: "attach_to_worker u (n1\<lparr>sn_ID := i\<rparr>) r3 = (Inr n', r')"
    by (cases y) (auto simp: AddSensor_def split: if_splits)
  note gf = on_storeD [OF g] and cf = on_storeD [OF c]
  from stamp_sensor_frame [OF st] have r2: "r2 = r1\<lparr>rg_env := env_tick (env_tick (rg_env r1))\<rparr>" by simp
  note gl = GetGatewayByManagementID [OF ok_store [OF assms(1)] gf(1)]
  have "ok (rg_store r2)" and same: "sns (rg_store r2) = sns (rg_store r)" using gl by (simp_all add: r2)
  note law = CreateSensor [OF this(1) cf(1)]
  from a have n': "n' = n1\<lparr>sn_ID := i\<rparr>" and st': "rg_store r' = rg_store r3" and cfg: "rg_cfg r' = rg_cfg r3"
    and ws: "map_of (rg_workers r3) u = None \<Longrightarrow> rg_workers r' = rg_workers r3"
    by (auto simp: attach_to_worker_def Let_def split: option.splits prod.splits sum.splits)
  show "sns (rg_store r) (sn_ID n') = None" and "sns (rg_store r') = (sns (rg_store r))(sn_ID n' \<mapsto> stored n')"
    using law y same by (simp_all add: n' st')
  show "rg_cfg r' = rg_cfg r" using cfg gf cf by (simp add: r2)
  show "map_of (rg_workers r) u = None \<Longrightarrow> rg_workers r' = rg_workers r" using ws gf cf by (simp add: r2)
qed

text \<open>The worker of a new gateway has the sensors that were listed.\<close>

lemma sensor_missed:
  assumes "with_call H (Create_listing gw pub) r"
    and "call_step L ops (Create_listing gw pub) r = Return (Create_starting gw pub ns, r1)"
    and "AddSensor L ops (gw_ManagementGatewayID gw) n r1 = (Inr n', r2)"
    and "call_step L ops (Create_starting gw pub ns) r2 = Return (c, r3)"
  shows "c = Create_counting gw \<and>
    (\<exists>w. map_of (rg_workers r3) (gw_ManagementGatewayID gw) = Some w \<and> w_isRunning w \<and>
       sns (rg_store r3) (sn_ID n') = Some (stored n') \<and> sn_ID n' \<notin> sn_ID ` set (w_sensors w))"
proof -
  have h: "registry_holds (held_both (held_connected gw) H) gws ok r" using assms(1) by (simp add: with_call_def)
  obtain x r0 where "on_store (op_ListSensors ops (gw_ID gw)) r = (x, r0)" by force
  with assms(2) have ls: "on_store (op_ListSensors ops (gw_ID gw)) r = (Inr ns, r1)" by (cases x) auto
  note law = ListSensors [OF ok_store [OF h] on_storeD(1) [OF ls]]
  have h1: "registry_holds (held_both (held_connected gw) H) gws ok r1" by (rule reads_ok(3) [OF h ls])
  note added = AddSensor_success [OF h1 assms(3)]
  have new: "sn_ID n' \<notin> sn_ID ` set ns"
  proof
    assume "sn_ID n' \<in> sn_ID ` set ns"
    then obtain m where m: "m \<in> set ns" "sn_ID m = sn_ID n'" by auto
    then have "stored m \<in> ran (sns (rg_store r))" using law by auto
    from ran_sns_id [OF ok_store [OF h] this] m(2) law added(1) show False by simp
  qed
  have st: "register_worker L gw ns pub r2 = Return r3" and c: "c = Create_counting gw"
    using assms(4) by (auto simp: go_bind_eq_Return)
  have "config_ok (rg_cfg r2)" using h1 added(3) by (simp add: registry_holds_def)
  from register_workerD [OF st this] obtain w where "rg_workers r3 = map_put (gw_ManagementGatewayID gw) w (rg_workers r2)"
    "w_isRunning w" "w_sensors w = ns" "rg_store r3 = rg_store r2" by metis
  with new added(2) c show ?thesis by simp
qed

text \<open>An event for a gateway that is still to be restored changes nothing, and the gateway is restored after it.\<close>

lemma decommission_missed:
  assumes "with_call H (Restore_next (gw # gs)) r" and "gw_Provisioned gw"
    and "uuid_Parse L i = Some (gw_ManagementGatewayID gw)"
    and "restoreGateway L ops gw (HandleDecommission L ops t i r) = Return (Inr (), r')"
  shows "HandleDecommission L ops t i r = r \<and>
    (\<exists>w. map_of (rg_workers r') (gw_ManagementGatewayID gw) = Some w \<and> w_isRunning w \<and> w_gateway w = gw) \<and>
    has_row (gws (rg_store r')) gw"
proof -
  have h: "registry_holds (held_both (held_only_row 0 gw) (held_both (held_to_restore gs) H)) gws ok r"
    using assms(1,2) by (simp add: with_call_def)
  then have none: "map_of (rg_workers r) (gw_ManagementGatewayID gw) = None" and row: "has_row (gws (rg_store r)) gw"
    by (auto simp: registry_holds_def held_only_row_def rows_held_def map_of_eq_None_iff)
  then have same: "HandleDecommission L ops t i r = r" using assms(3) by (simp add: HandleDecommission_def)
  from assms(4) obtain sensors r1 pub r2 r3 where
    l: "on_store (op_ListSensors ops (gw_ID gw)) r = (Inr sensors, r1)"
    and c: "connector_Connect (gw_CertPEM gw) (gw_PrivateKeyPEM gw) (gw_TenantID gw) (gw_ManagementGatewayID gw) r1 =
      (Inr pub, r2)"
    and w: "register_worker L gw sensors pub r2 = Return r3"
    and r': "r' = snd (on_store (op_UpdateStatus ops (gw_ID gw) Online) (inc_running 1 r3))"
    by (auto simp: same restoreGateway_def startWorker_parts go_bind_eq_Return split: sum.splits prod.splits)
  note h1 = reads_ok(3) [OF h l]
  note h2 = holds_connected [OF h1 c]
  have "config_ok (rg_cfg r2)" using h2 by (simp add: registry_holds_def)
  from register_workerD [OF w this] obtain v where v: "rg_workers r3 = map_put (gw_ManagementGatewayID gw) v (rg_workers r2)"
    "w_gateway v = gw" "w_isRunning v" "rg_store r3 = rg_store r2" by metis
  have "has_row (gws (rg_store r2)) gw" and ok2: "ok (rg_store (inc_running 1 r3))"
    using h2 v(4) by (simp_all add: registry_holds_def held_connected_def rows_held_def)
  obtain y r4 where u: "on_store (op_UpdateStatus ops (gw_ID gw) Online) (inc_running 1 r3) = (y, r4)" by force
  note uf = UpdateStatus_frame(2) [OF ok2 on_storeD(1) [OF u]]
  have "has_row (gws (rg_store r4)) gw"
    using has_row_same [OF uf] \<open>has_row (gws (rg_store r2)) gw\<close> v(4) by simp
  with same v on_storeD(2) [OF u] show ?thesis by (simp add: r' u)
qed

end

end
