(* ===== verification/Calls_Properties.thy ===== *)
theory Calls_Properties
  imports Registry_Bulk Registry_Races Registry_Properties
begin

text \<open>
  The properties of calls of the registry that are under way at the same time, over the SQLite store.
\<close>

subsection \<open>Any interleaving\<close>

text \<open>
  C1: from the start of the program, with the gateways that are still to be restored, and
  through every interleaving of the parts of creations, deletions, decommissions, additions of sensors
  and of the restoring with each other, with the other calls and with the workers, that does not panic: every
  registered worker is well formed, filed under its own management id and has exactly one row; every
  open connection and subscription belongs to a registered worker or to one call under way, which has at
  most one of each; the gauge, with what the calls under way still owe it, is exactly the number of workers
  and of the calls of \<^verbatim>\<open>Delete\<close> that gave up because the store failed, which take a worker out and never
  count it down; the rows of gateways being created, deleted or restored are there and have no registered worker; and
  when no call is under way nothing is held or owed.
\<close>

theorem interleaved_calls_stay_consistent:
  assumes "Load getenv = Inr cfg" and "sqlite_ok L s" and "onboard_lawful e"
    and "(calls_step L (sqlite_ops L))\<^sup>*\<^sup>*
      (boot_calls (sqlite_ops L) cfg (NewGatewayRegistry s e cfg NewMetrics)) (cs, r)"
  shows "distinct (map fst (rg_workers r)) \<and>
    (\<forall>u w. map_of (rg_workers r) u = Some w \<longrightarrow>
       worker_ok w \<and> gw_ManagementGatewayID (w_gateway w) = u \<and>
       (\<exists>!g. g \<in> ran (sqlite_gws L (rg_store r)) \<and> gw_ManagementGatewayID g = u) \<and>
       (\<not> w_isRunning w \<longrightarrow> w_connClosed w \<and> \<not> w_pumpRunning w)) \<and>
    rg_conns r = held_conns (held_all cs) + length (filter (\<lambda>(_, w). \<not> w_connClosed w) (rg_workers r)) \<and>
    rg_subs r = held_subs (held_all cs) + length (filter (\<lambda>(_, w). w_pumpRunning w) (rg_workers r)) \<and>
    held_conns (held_all cs) \<le> length (filter (\<lambda>c. \<not> call_over c) cs) \<and>
    held_subs (held_all cs) \<le> length (filter (\<lambda>c. \<not> call_over c) cs) \<and>
    GatewaysRunning (rg_metrics r) + held_gauge (held_all cs) = int (length (rg_workers r)) + int (failed_deletions cs) \<and>
    (\<forall>gw \<in> set (held_rows (held_all cs)).
       (\<exists>g. sqlite_gws L (rg_store r) (gw_ID gw) = Some g \<and> gw_ManagementGatewayID g = gw_ManagementGatewayID gw) \<and>
       map_of (rg_workers r) (gw_ManagementGatewayID gw) = None) \<and>
    (list_all call_over cs \<longrightarrow> held_all cs = nothing_held)"
proof -
  have h: "registry_holds (held_all cs) (sqlite_gws L) (sqlite_ok L) r"
    using sqlite.calls_ok_from_boot [OF assms, of False] by (simp add: calls_ok_iff)
  have gauge: "GatewaysRunning (rg_metrics r) + held_gauge (held_all cs) =
      int (length (rg_workers r)) + int (failed_deletions cs)"
    using sqlite.calls_ok_from_boot [OF assms, of True] by (simp add: calls_hold_def registry_holds_def)
  note workers = sqlite.registered_worker [OF h]
  have "\<forall>gw \<in> set (held_rows (held_all cs)).
      (\<exists>g. sqlite_gws L (rg_store r) (gw_ID gw) = Some g \<and> gw_ManagementGatewayID g = gw_ManagementGatewayID gw) \<and>
      map_of (rg_workers r) (gw_ManagementGatewayID gw) = None"
    using h by (auto simp: registry_holds_def rows_held_def has_row_def list_all_iff map_of_eq_None_iff)
  with h workers gauge held_all_over held_all_few [of cs] show ?thesis
    by (simp add: registry_holds_def open_conns_def open_subs_def)
qed

text \<open>A run of one creation from the start of the program.\<close>

lemma ex_no_recovery: "boot_calls (sqlite_ops ex_libs) ex_cfg (NewGatewayRegistry ex_db ex_env ex_cfg NewMetrics) = ([], ex_registry ex_env)"
  by (simp add: boot_calls_def ex_cfg_def ex_registry_def ex_db_def)

lemma ex_arrival:
  assumes "run_call ex_libs (sqlite_ops ex_libs) n (Create_called ex_request) (ex_registry ex_env) = Return (c, r)"
  shows "(calls_step ex_libs (sqlite_ops ex_libs))\<^sup>*\<^sup>*
    (boot_calls (sqlite_ops ex_libs) ex_cfg (NewGatewayRegistry ex_db ex_env ex_cfg NewMetrics)) ([] @ c # [], r)"
  using step_arrival [of "Create_called ex_request" ex_libs "sqlite_ops ex_libs" "[]" "ex_registry ex_env"]
    run_call_steps [OF assms, of "[]" "[]"]
  by (simp add: ex_no_recovery converse_rtranclp_into_rtranclp)

lemma interleaved_calls_stay_consistent_witness:
  "\<exists>gw r. (calls_step ex_libs (sqlite_ops ex_libs))\<^sup>*\<^sup>* ([], ex_registry ex_env) ([Create_returned (Inr gw)], r) \<and>
     rg_conns r = 1 \<and> length (filter (\<lambda>(_, w). \<not> w_connClosed w) (rg_workers r)) = 1 \<and>
     GatewaysRunning (rg_metrics r) = int (length (rg_workers r))"
proof -
  obtain gw r where c: "CreateAndStart ex_libs (sqlite_ops ex_libs) ex_request (ex_registry ex_env) =
      Return (Inr gw, r)" using outcome_cases(2) [OF ex_creations(2)] by blast
  have "run_call ex_libs (sqlite_ops ex_libs) 9 (Create_called ex_request) (ex_registry ex_env) =
      Return (Create_returned (Inr gw), r)" using c by (simp add: run_create)
  note reach = ex_arrival [OF this, unfolded append_Nil]
  have "rg_conns r = 1"
    using sqlite.CreateAndStart_success(2) [OF ex_registry_ok [OF ex_env_lawful(1)] c]
    by (simp add: gateway_handed_over_def ex_registry_def NewGatewayRegistry_def)
  with interleaved_calls_stay_consistent [OF ex_Load ex_db_ok ex_env_lawful(1) reach] reach
  show ?thesis by (force simp: ex_no_recovery)
qed

subsection \<open>Bulk creation\<close>

text \<open>
  C3: in every schedule of the goroutines of a bulk creation, each id takes at most nine parts, at
  most ten creations are under way at a time, and as long as one has not returned one is ready to go on. When all have
  returned the registry is consistent; each slot holds an error, or the gateway of its own factory
  id with its own running worker; no two slots hold the same gateway; and the workers are the old ones and
  exactly one for each success.
\<close>

theorem interleaved_bulk_creation:
  assumes "registry_ok (sqlite_gws L) (sqlite_ok L) r"
    and "(bulk_step L (sqlite_ops L) ^^ n) (map Create_called (bulk_requests req), r) (cs, r')"
  defines "fids \<equiv> resolveBulkFactoryIDs (br_FactoryIDs req)"
  shows "n \<le> 9 * length fids \<and> length cs = length fids \<and> slots_taken cs \<le> 10 \<and>
    (if list_all call_over cs then
       registry_ok (sqlite_gws L) (sqlite_ok L) r' \<and>
       (\<forall>i < length fids. (\<exists>err. cs ! i = Create_returned (Inl err)) \<or>
          (\<exists>gw w. cs ! i = Create_returned (Inr gw) \<and> gw_FactoryID gw = fids ! i \<and>
             map_of (rg_workers r') (gw_ManagementGatewayID gw) = Some w \<and> gw_ID (w_gateway w) = gw_ID gw \<and>
             w_isRunning w \<and> w_pumpRunning w \<and> \<not> w_connClosed w)) \<and>
       (\<forall>i < length fids. \<forall>j < length fids. \<forall>g h. cs ! i = Create_returned (Inr g) \<longrightarrow> cs ! j = Create_returned (Inr h) \<longrightarrow>
          gw_ManagementGatewayID g = gw_ManagementGatewayID h \<longrightarrow> i = j) \<and>
       fst ` set (rg_workers r') = fst ` set (rg_workers r) \<union>
         {gw_ManagementGatewayID gw | gw. Create_returned (Inr gw) \<in> set cs} \<and>
       fst ` set (rg_workers r) \<inter> {gw_ManagementGatewayID gw | gw. Create_returned (Inr gw) \<in> set cs} = {}
     else \<exists>i. bulk_ready cs i)"
proof -
  note st = sqlite.bulk_start [OF assms(1) refl, of req]
  from sqlite.bulk_reachable [OF relpowp_imp_rtranclp [OF assms(2)] st(1,2)] st(3)
  have inv: "bulk_inv fids (fst ` set (rg_workers r)) (cs, r')" and ok: "calls_ok (sqlite_gws L) (sqlite_ok L) (cs, r')"
    and slots: "slots_taken cs \<le> 10" by (simp_all add: fids_def bulkCreateConcurrency_def)
  from bulk_steps_left [OF assms(2)] st(4) have n: "n \<le> 9 * length fids" by (simp add: fids_def)
  from inv have all: "list_all2 (\<lambda>fid. creates fid (rg_workers r')) fids cs" by (simp add: bulk_inv_def)
  then have len: "length cs = length fids" by (simp add: list_all2_conv_all_nth)
  show ?thesis
  proof (cases "list_all call_over cs")
    case False
    then show ?thesis using n len slots bulk_not_stuck [OF False] by simp
  next
    case True
    have answers: "(\<exists>err. cs ! i = Create_returned (Inl err)) \<or>
          (\<exists>gw w. cs ! i = Create_returned (Inr gw) \<and> gw_FactoryID gw = fids ! i \<and>
             map_of (rg_workers r') (gw_ManagementGatewayID gw) = Some w \<and> gw_ID (w_gateway w) = gw_ID gw \<and>
             w_isRunning w \<and> w_pumpRunning w \<and> \<not> w_connClosed w)" if "i < length fids" for i
      using that all True len by (intro creates_returned) (simp_all add: list_all2_conv_all_nth list_all_length)
    have made: "created cs = {gw_ManagementGatewayID gw | gw. Create_returned (Inr gw) \<in> set cs}"
      by (rule created_over [OF all True])
    have own: "own_workers (fst ` set (rg_workers r)) cs" using inv by (simp add: bulk_inv_def)
    then have "\<forall>i < length fids. \<forall>j < length fids. \<forall>g h. cs ! i = Create_returned (Inr g) \<longrightarrow>
        cs ! j = Create_returned (Inr h) \<longrightarrow> gw_ManagementGatewayID g = gw_ManagementGatewayID h \<longrightarrow> i = j"
      by (auto simp: own_workers_def len)
    then show ?thesis
      using n len slots True answers made own inv sqlite.calls_ok_over [OF ok True]
      by (simp add: bulk_inv_def own_workers_def)
  qed
qed

definition ex_bulk :: BulkCreateRequest where
  "ex_bulk = \<lparr>br_FactoryIDs = [''7'', '' '', ''8'', ''x''], br_FactoryKey = ''fk'', br_Model = ''m'',
     br_FirmwareVersion = ''1.0'', br_SendFrequencyMs = 0\<rparr>"

lemma ex_bulk_played:
  "case run_schedule ex_libs (sqlite_ops ex_libs) [1, 0, 2, 1, 0, 1, 0, 2, 1, 0, 1, 0, 2, 1, 0, 1, 0, 1, 0, 1, 0]
       (map Create_called (bulk_requests ex_bulk), ex_registry ex_env) of
     Return (cs, r) \<Rightarrow> list_all call_over cs \<and> map fst (rg_workers r) = [8, 7] | Panic _ \<Rightarrow> False"
  by code_simp

lemma interleaved_bulk_creation_witness:
  "\<exists>cs r. list_all call_over cs \<and> length cs = 3 \<and> registry_ok (sqlite_gws ex_libs) (sqlite_ok ex_libs) r \<and>
     fst ` set (rg_workers r) = {gw_ManagementGatewayID gw | gw. Create_returned (Inr gw) \<in> set cs} \<and>
     map fst (rg_workers r) = [8, 7]"
proof -
  from ex_bulk_played obtain cs r where run: "run_schedule ex_libs (sqlite_ops ex_libs) [1, 0, 2, 1, 0, 1, 0, 2, 1, 0, 1, 0, 2, 1, 0, 1, 0, 1, 0, 1, 0]
       (map Create_called (bulk_requests ex_bulk), ex_registry ex_env) = Return (cs, r)"
    and over: "list_all call_over cs" "map fst (rg_workers r) = [8, 7]" by (auto split: go.splits prod.splits)
  from rtranclp_imp_relpowp [OF run_schedule_steps [OF run]] obtain n where
    n: "(bulk_step ex_libs (sqlite_ops ex_libs) ^^ n) (map Create_called (bulk_requests ex_bulk), ex_registry ex_env) (cs, r)" ..
  have "length (resolveBulkFactoryIDs (br_FactoryIDs ex_bulk)) = 3" by code_simp
  with interleaved_bulk_creation [OF ex_registry_ok [OF ex_env_lawful(1)] n] over show ?thesis
    by (intro exI [of _ cs] exI [of _ r]) (simp add: ex_registry_def NewGatewayRegistry_def)
qed

subsection \<open>A call on its own\<close>

text \<open>
  A call whose parts run without others in between is the operation of the registry: a creation
  in nine parts, a deletion and a decommission in four, the addition of a sensor in three, and the restoring of
  a list of gateways in at most five parts for each.
\<close>

lemma calls_alone_are_the_operations:
  "run_call L ops 9 (Create_called req) r =
     go_bind (CreateAndStart L ops req r) (\<lambda>(x, r). Return (Create_returned x, r)) \<and>
   run_call L ops 4 (Delete_called u) r =
     (let (y, r) = registry_Delete L ops u r in Return (Removal_returned y, r)) \<and>
   run_call L ops 4 (Decommission_called t i) r = Return (Removal_returned (Inr ()), HandleDecommission L ops t i r) \<and>
   run_call L ops 3 (Sensor_called u sensor) r =
     (let (z, r) = AddSensor L ops u sensor r in Return (Sensor_returned z, r)) \<and>
   run_call L ops (5 * length gws + 1) (Restore_next gws) r =
     go_bind (restore_each L ops gws r) (\<lambda>r. Return (Restore_returned, r))"
  by (intro conjI run_create run_delete run_decommission run_sensor run_restore) simp_all

subsection \<open>Orders that the registry does not guard against\<close>

text \<open>
  C9: a sensor that is added between the listing of a new gateway's sensors and the entry of its worker into
  the map is reported as added and has its row, but the worker that starts does not have it.
\<close>

theorem sensor_added_during_creation_is_missed:
  assumes "Load getenv = Inr cfg" and "sqlite_ok L s" and "onboard_lawful e"
    and "(calls_step L (sqlite_ops L))\<^sup>*\<^sup>*
      (boot_calls (sqlite_ops L) cfg (NewGatewayRegistry s e cfg NewMetrics)) (cs @ Create_listing gw pub # ds, r)"
    and "call_step L (sqlite_ops L) (Create_listing gw pub) r = Return (Create_starting gw pub ns, r1)"
    and "AddSensor L (sqlite_ops L) (gw_ManagementGatewayID gw) n r1 = (Inr n', r2)"
    and "call_step L (sqlite_ops L) (Create_starting gw pub ns) r2 = Return (c, r3)"
  shows "c = Create_counting gw \<and>
    (\<exists>w. map_of (rg_workers r3) (gw_ManagementGatewayID gw) = Some w \<and> w_isRunning w \<and>
       sqlite_sns L (rg_store r3) (sn_ID n') = Some (stored n') \<and> sn_ID n' \<notin> sn_ID ` set (w_sensors w))"
  by (rule sqlite.sensor_missed [OF sqlite.calls_ok_from_boot
        [OF assms(1-4), of False, unfolded sqlite.calls_ok_focus, THEN conjunct1] assms(5-7)])

definition ex_creating :: "(registry_call \<times> SQLiteGatewayStore GatewayRegistry) go" where
  "ex_creating = run_call ex_libs (sqlite_ops ex_libs) 4 (Create_called ex_request) (ex_registry ex_env)"

text \<open>Results followed by what is to hold of them.\<close>

fun listing_then :: "(registry_call \<times> 'r) go \<Rightarrow> (SimGateway \<Rightarrow> NATSGatewayPublisher \<Rightarrow> 'r \<Rightarrow> bool) \<Rightarrow> bool" where
  "listing_then (Return (Create_listing gw pub, r)) P = P gw pub r"
| "listing_then x P = False"

fun success_then :: "'a result \<times> 'r \<Rightarrow> ('a \<Rightarrow> 'r \<Rightarrow> bool) \<Rightarrow> bool" where
  "success_then (Inr x, r) P = P x r"
| "success_then (Inl err, r) P = False"

fun return_then :: "'r go \<Rightarrow> ('r \<Rightarrow> bool) \<Rightarrow> bool" where
  "return_then (Return r) P = P r"
| "return_then (Panic msg) P = False"

lemma listing_then_cases: "listing_then x P \<Longrightarrow> \<exists>gw pub r. x = Return (Create_listing gw pub, r) \<and> P gw pub r"
  by (cases "(x, P)" rule: listing_then.cases) simp_all

lemma success_then_cases: "success_then y Q \<Longrightarrow> \<exists>v r. y = (Inr v, r) \<and> Q v r"
  by (cases "(y, Q)" rule: success_then.cases) simp_all

lemma return_then_cases: "return_then z R \<Longrightarrow> \<exists>r. z = Return r \<and> R r"
  by (cases z) simp_all

lemma ex_sensor_race:
  "listing_then ex_creating (\<lambda>gw pub r.
     success_then (on_store (op_ListSensors (sqlite_ops ex_libs) (gw_ID gw)) r) (\<lambda>ns r1.
       success_then (AddSensor ex_libs (sqlite_ops ex_libs) (gw_ManagementGatewayID gw) ex_sensor r1) (\<lambda>n r2.
         return_then (register_worker ex_libs gw ns pub r2) (\<lambda>r3. sn_ID n = 1))))"
  by code_simp

lemma sensor_added_during_creation_is_missed_witness:
  "\<exists>u (r :: SQLiteGatewayStore GatewayRegistry) w. map_of (rg_workers r) u = Some w \<and> w_isRunning w \<and> sqlite_sns ex_libs (rg_store r) 1 \<noteq> None \<and>
     1 \<notin> sn_ID ` set (w_sensors w)"
proof -
  from listing_then_cases [OF ex_sensor_race] obtain gw pub r where
    c: "run_call ex_libs (sqlite_ops ex_libs) 4 (Create_called ex_request) (ex_registry ex_env) =
      Return (Create_listing gw pub, r)"
    and 1: "success_then (on_store (op_ListSensors (sqlite_ops ex_libs) (gw_ID gw)) r) (\<lambda>ns r1.
       success_then (AddSensor ex_libs (sqlite_ops ex_libs) (gw_ManagementGatewayID gw) ex_sensor r1) (\<lambda>n r2.
         return_then (register_worker ex_libs gw ns pub r2) (\<lambda>r3. sn_ID n = 1)))"
    unfolding ex_creating_def by blast
  from success_then_cases [OF 1] obtain ns r1 where
    l: "on_store (op_ListSensors (sqlite_ops ex_libs) (gw_ID gw)) r = (Inr ns, r1)"
    and 2: "success_then (AddSensor ex_libs (sqlite_ops ex_libs) (gw_ManagementGatewayID gw) ex_sensor r1) (\<lambda>n r2.
         return_then (register_worker ex_libs gw ns pub r2) (\<lambda>r3. sn_ID n = 1))" by blast
  from success_then_cases [OF 2] obtain n r2 r3 where
    a: "AddSensor ex_libs (sqlite_ops ex_libs) (gw_ManagementGatewayID gw) ex_sensor r1 = (Inr n, r2)"
    and s: "register_worker ex_libs gw ns pub r2 = Return r3" and n: "sn_ID n = 1"
    by (blast dest: return_then_cases)
  from l have listing: "call_step ex_libs (sqlite_ops ex_libs) (Create_listing gw pub) r = Return (Create_starting gw pub ns, r1)"
    by simp
  from s have start: "call_step ex_libs (sqlite_ops ex_libs) (Create_starting gw pub ns) r2 = Return (Create_counting gw, r3)"
    by simp
  from sensor_added_during_creation_is_missed [OF ex_Load ex_db_ok ex_env_lawful(1) ex_arrival [OF c] listing a start] n
  show ?thesis by auto
qed

text \<open>
  C10: a decommission event that is handled before its gateway has been restored changes nothing, and when the
  gateway is restored afterwards it has a running worker and still its row.
\<close>

theorem decommission_during_recovery_is_missed:
  assumes "Load getenv = Inr cfg" and "sqlite_ok L s" and "onboard_lawful e"
    and "(calls_step L (sqlite_ops L))\<^sup>*\<^sup>*
      (boot_calls (sqlite_ops L) cfg (NewGatewayRegistry s e cfg NewMetrics)) (cs @ Restore_next (gw # gs) # ds, r)"
    and "gw_Provisioned gw" and "uuid_Parse L i = Some (gw_ManagementGatewayID gw)"
    and "restoreGateway L (sqlite_ops L) gw (HandleDecommission L (sqlite_ops L) t i r) = Return (Inr (), r')"
  shows "HandleDecommission L (sqlite_ops L) t i r = r \<and>
    (\<exists>w. map_of (rg_workers r') (gw_ManagementGatewayID gw) = Some w \<and> w_isRunning w \<and> w_gateway w = gw) \<and>
    (\<exists>g. sqlite_gws L (rg_store r') (gw_ID gw) = Some g \<and> gw_ManagementGatewayID g = gw_ManagementGatewayID gw)"
  using sqlite.calls_ok_from_boot [OF assms(1-4), of False, unfolded sqlite.calls_ok_focus]
    sqlite.decommission_missed [OF _ assms(5-7), unfolded has_row_def] by blast

text \<open>A database with one provisioned gateway, and the recovery switched on.\<close>

definition ex_getenv_recovery :: "string \<Rightarrow> string" where
  "ex_getenv_recovery key = (if key = ''RECOVERY_MODE'' then ''true'' else ex_getenv key)"

definition ex_stored :: SQLiteGatewayStore where
  "ex_stored = snd (CreateGateway ex_libs ex_gateway ex_db)"

lemma ex_stored_ok: "sqlite_ok ex_libs ex_stored"
proof -
  have "op_CreateGateway (sqlite_ops ex_libs) ex_gateway ex_db = (Inr 1, ex_stored)"
    using ex_created by (simp add: ex_stored_def sqlite_ops_def)
  from sqlite.CreateGateway [OF ex_db_ok ex_gateway_key this] show ?thesis by simp
qed

lemma ex_Load_recovery: "Load ex_getenv_recovery = Inr (ex_cfg\<lparr>cf_RecoveryMode := True\<rparr>)"
  by code_simp

definition ex_restored :: "registry_call list \<times> SQLiteGatewayStore GatewayRegistry \<Rightarrow> (unit result \<times> SQLiteGatewayStore GatewayRegistry) go" where
  "ex_restored s = (case s of
     ([Restore_next [gw]], r) \<Rightarrow>
       if gw_Provisioned gw \<and> gw_ManagementGatewayID gw = 7 then
         restoreGateway ex_libs (sqlite_ops ex_libs) gw (HandleDecommission ex_libs (sqlite_ops ex_libs) ''t1'' ''7'' r)
       else Panic ''x'' | _ \<Rightarrow> Panic ''x'')"

lemma ex_restoring:
  "outcome (ex_restored (boot_calls (sqlite_ops ex_libs) (ex_cfg\<lparr>cf_RecoveryMode := True\<rparr>)
     (NewGatewayRegistry ex_stored ex_env (ex_cfg\<lparr>cf_RecoveryMode := True\<rparr>) NewMetrics))) = 1"
  by code_simp

lemma decommission_during_recovery_is_missed_witness:
  "\<exists>gw r (r' :: SQLiteGatewayStore GatewayRegistry) w. HandleDecommission ex_libs (sqlite_ops ex_libs) ''t1'' ''7'' r = r \<and>
     map_of (rg_workers r') 7 = Some w \<and> w_isRunning w \<and> w_gateway w = gw \<and> sqlite_gws ex_libs (rg_store r') (gw_ID gw) \<noteq> None"
proof -
  let ?cfg = "ex_cfg\<lparr>cf_RecoveryMode := True\<rparr>"
  obtain cs r where b: "boot_calls (sqlite_ops ex_libs) ?cfg (NewGatewayRegistry ex_stored ex_env ?cfg NewMetrics) = (cs, r)"
    by force
  from outcome_cases(2) [OF ex_restoring] obtain r' where "ex_restored (cs, r) = Return (Inr (), r')"
    unfolding b by auto
  then obtain gw where cs: "cs = [Restore_next [gw]]" and g: "gw_Provisioned gw" "gw_ManagementGatewayID gw = 7"
    and r': "restoreGateway ex_libs (sqlite_ops ex_libs) gw
         (HandleDecommission ex_libs (sqlite_ops ex_libs) ''t1'' ''7'' r) = Return (Inr (), r')"
    by (auto simp: ex_restored_def split: registry_call.splits list.splits if_splits)
  have reach: "(calls_step ex_libs (sqlite_ops ex_libs))\<^sup>*\<^sup>*
      (boot_calls (sqlite_ops ex_libs) ?cfg (NewGatewayRegistry ex_stored ex_env ?cfg NewMetrics)) ([] @ Restore_next [gw] # [], r)"
    by (simp add: b cs)
  have p: "uuid_Parse ex_libs ''7'' = Some (gw_ManagementGatewayID gw)" by (simp add: g) code_simp
  from decommission_during_recovery_is_missed [OF ex_Load_recovery ex_stored_ok ex_env_lawful(1) reach g(1) p r']
  obtain w h where "HandleDecommission ex_libs (sqlite_ops ex_libs) ''t1'' ''7'' r = r" "map_of (rg_workers r') 7 = Some w"
    "w_isRunning w" "w_gateway w = gw" "sqlite_gws ex_libs (rg_store r') (gw_ID gw) = Some h" using g(2) by auto
  then show ?thesis by (intro exI [of _ gw] exI [of _ r] exI [of _ r'] exI [of _ w]) simp
qed

end
