(* ===== verification/Driving_Ports.thy ===== *)
theory Driving_Ports
  imports Registry
begin

text \<open>
  The driving ports of \<^verbatim>\<open>internal/ports/driving.go\<close>: the three services the HTTP handlers call,
  as records of operations over any state, and the registry as their implementation. A slice of
  pointers is a list of options. \<open>schedule n\<close> is the order in which the goroutines of a bulk creation of
  \<open>n\<close> gateways run.
\<close>

record 'r GatewayLifecycleService =
  ls_CreateAndStart :: "CreateGatewayRequest \<Rightarrow> 'r \<Rightarrow> (SimGateway result \<times> 'r) go"
  ls_BulkCreateGateways ::
    "BulkCreateRequest \<Rightarrow> 'r \<Rightarrow> ((SimGateway option list \<times> go_error option list) \<times> 'r) go"
  ls_Start :: "uuid \<Rightarrow> 'r \<Rightarrow> (unit result \<times> 'r) go"
  ls_Stop :: "uuid \<Rightarrow> 'r \<Rightarrow> (unit result \<times> 'r) go"
  ls_Delete :: "uuid \<Rightarrow> 'r \<Rightarrow> (unit result \<times> 'r) go"
  ls_ListGateways :: "'r \<Rightarrow> (SimGateway option list result \<times> 'r) go"
  ls_GetGateway :: "uuid \<Rightarrow> 'r \<Rightarrow> (SimGateway result \<times> 'r) go"

record 'r SensorManagementService =
  ss_AddSensor :: "uuid \<Rightarrow> SimSensor \<Rightarrow> 'r \<Rightarrow> (SimSensor result \<times> 'r) go"
  ss_ListSensors :: "uuid \<Rightarrow> 'r \<Rightarrow> (SimSensor option list result \<times> 'r) go"
  ss_DeleteSensor :: "uuid \<Rightarrow> 'r \<Rightarrow> (unit result \<times> 'r) go"

record 'r SimulatorControlService =
  cs_UpdateConfig :: "uuid \<Rightarrow> GatewayConfigUpdate \<Rightarrow> 'r \<Rightarrow> (unit result \<times> 'r) go"
  cs_InjectGatewayAnomaly :: "uuid \<Rightarrow> GatewayAnomalyCommand \<Rightarrow> 'r \<Rightarrow> (unit result \<times> 'r) go"
  cs_InjectSensorOutlier :: "uuid \<Rightarrow> float64 option \<Rightarrow> 'r \<Rightarrow> (unit result \<times> 'r) go"

fun slot_gateway :: "SimGateway result option \<Rightarrow> SimGateway option" where
  "slot_gateway (Some (Inr gw)) = Some gw"
| "slot_gateway _ = None"

fun slot_error :: "SimGateway result option \<Rightarrow> go_error option" where
  "slot_error (Some (Inl e)) = Some e"
| "slot_error _ = None"

definition pointers :: "'a list result \<Rightarrow> 'a option list result" where
  "pointers = map_sum id (map Some)"

definition registry_lifecycle ::
  "'x libs_scheme \<Rightarrow> 's store_ops \<Rightarrow> (nat \<Rightarrow> nat list) \<Rightarrow> 's GatewayRegistry GatewayLifecycleService" where
  "registry_lifecycle L ops schedule =
     \<lparr>ls_CreateAndStart = CreateAndStart L ops,
      ls_BulkCreateGateways = (\<lambda>req r.
        go_bind (BulkCreateGateways L ops (schedule (length (resolveBulkFactoryIDs (br_FactoryIDs req)))) req r)
          (\<lambda>(slots, r). Return ((map slot_gateway slots, map slot_error slots), r))),
      ls_Start = registry_Start L ops,
      ls_Stop = (\<lambda>u r. Return (registry_Stop L ops u r)),
      ls_Delete = (\<lambda>u r. Return (registry_Delete L ops u r)),
      ls_ListGateways = (\<lambda>r. let (gws, r) = registry_ListGateways ops r in Return (pointers gws, r)),
      ls_GetGateway = (\<lambda>u r. Return (registry_GetGateway L ops u r))\<rparr>"

definition registry_sensors ::
  "'x libs_scheme \<Rightarrow> 's store_ops \<Rightarrow> 's GatewayRegistry SensorManagementService" where
  "registry_sensors L ops =
     \<lparr>ss_AddSensor = (\<lambda>u sensor r. Return (AddSensor L ops u sensor r)),
      ss_ListSensors = (\<lambda>u r. let (sns, r) = registry_ListSensors L ops u r in Return (pointers sns, r)),
      ss_DeleteSensor = (\<lambda>u r. Return (registry_DeleteSensor ops u r))\<rparr>"

definition registry_control ::
  "'x libs_scheme \<Rightarrow> 's store_ops \<Rightarrow> 's GatewayRegistry SimulatorControlService" where
  "registry_control L ops =
     \<lparr>cs_UpdateConfig = (\<lambda>u update r. Return (UpdateConfig L u update r)),
      cs_InjectGatewayAnomaly = (\<lambda>u cmd r. Return (InjectGatewayAnomaly L u cmd r)),
      cs_InjectSensorOutlier = (\<lambda>u v r. Return (InjectSensorOutlier L ops u v r))\<rparr>"

end
