(* ===== verification/Http_Api.thy ===== *)
theory Http_Api
  imports Driving_Ports
begin

text \<open>
  The HTTP API: \<^verbatim>\<open>internal/adapters/http\<close>. A request is what the handlers read of it: the path value and the
  outcome of reading one JSON value from the body (end of input, a syntax error or a body of more than 1 MiB
  is an error of the reader). A response is its status and its body. A value that cannot be encoded leaves
  the body empty, with the status already sent.
\<close>

datatype body = No_body | Text_body string | Json_body json

record response =
  rs_status :: nat
  rs_body :: body

record request =
  rq_id :: string
  rq_body :: "json result"

text \<open>\<^verbatim>\<open>http.Error\<close> ends the text with a newline.\<close>

definition http_Error :: "string \<Rightarrow> nat \<Rightarrow> response" where
  "http_Error msg code = \<lparr>rs_status = code, rs_body = Text_body (msg @ [char_of (10 :: nat)])\<rparr>"

definition no_content :: response where
  "no_content = \<lparr>rs_status = 204, rs_body = No_body\<rparr>"

definition json_response :: "nat \<Rightarrow> json result \<Rightarrow> response" where
  "json_response code out =
     \<lparr>rs_status = code, rs_body = (case out of Inl _ \<Rightarrow> No_body | Inr j \<Rightarrow> Json_body j)\<rparr>"

definition writeError :: "go_error \<Rightarrow> response" where
  "writeError err =
     (if err_is err ErrGatewayNotFound then http_Error (err_text err) 404
      else if err_is err ErrSensorNotFound then http_Error (err_text err) 404
      else if err_is err ErrGatewayAlreadyRunning then http_Error (err_text err) 409
      else if err_is err ErrGatewayAlreadyProvisioned then http_Error (err_text err) 409
      else if err_is err ErrInvalidFactoryCredentials then http_Error (err_text err) 401
      else http_Error ''internal server error'' 500)"

definition invalidGatewayIDFormat :: string where
  "invalidGatewayIDFormat = ''invalid gateway ID format''"

definition decode_body :: "string \<Rightarrow> 'r field list \<Rightarrow> 'r \<Rightarrow> request \<Rightarrow> 'r result" where
  "decode_body name fs zero rq =
     (case rq_body rq of Inl e \<Rightarrow> Inl e | Inr j \<Rightarrow> decode_struct name fs zero (Some j))"

subsection \<open>The data transfer objects\<close>

record GatewayResponse =
  gr_ID :: uuid
  gr_FactoryID :: string
  gr_Model :: string
  gr_FirmwareVersion :: string
  gr_Provisioned :: bool
  gr_SendFrequencyMs :: int64
  gr_Status :: GatewayStatus
  gr_TenantID :: string
  gr_CreatedAt :: time

definition GatewayFromDomain :: "SimGateway \<Rightarrow> GatewayResponse" where
  "GatewayFromDomain gw =
     \<lparr>gr_ID = gw_ManagementGatewayID gw, gr_FactoryID = gw_FactoryID gw, gr_Model = gw_Model gw,
      gr_FirmwareVersion = gw_FirmwareVersion gw, gr_Provisioned = gw_Provisioned gw,
      gr_SendFrequencyMs = gw_SendFrequencyMs gw, gr_Status = gw_Status gw,
      gr_TenantID = gw_TenantID gw, gr_CreatedAt = gw_CreatedAt gw\<rparr>"

definition GatewayListFromDomain :: "SimGateway option list \<Rightarrow> GatewayResponse list" where
  "GatewayListFromDomain gws = map GatewayFromDomain (List.map_filter id gws)"

record SensorResponse =
  sp_ID :: uuid
  sp_GatewayID :: uuid
  sp_Type :: SensorType
  sp_MinRange :: float64
  sp_MaxRange :: float64
  sp_Algorithm :: GenerationAlgorithmType
  sp_CreatedAt :: time

definition SensorFromDomain :: "SimSensor \<Rightarrow> SensorResponse" where
  "SensorFromDomain s =
     \<lparr>sp_ID = sn_SensorID s, sp_GatewayID = sn_ManagementGatewayID s, sp_Type = sn_Type s,
      sp_MinRange = sn_MinRange s, sp_MaxRange = sn_MaxRange s, sp_Algorithm = sn_Algorithm s,
      sp_CreatedAt = sn_CreatedAt s\<rparr>"

definition SensorListFromDomain :: "SimSensor option list \<Rightarrow> SensorResponse list" where
  "SensorListFromDomain ss = map SensorFromDomain (List.map_filter id ss)"

record CreateSensorRequest =
  sq_Type :: SensorType
  sq_MinRange :: float64
  sq_MaxRange :: float64
  sq_Algorithm :: GenerationAlgorithmType

text \<open>The zero values of the fields that the request does not carry.\<close>

definition ToDomain :: "CreateSensorRequest \<Rightarrow> SimSensor" where
  "ToDomain q =
     \<lparr>sn_ID = 0, sn_GatewayID = 0, sn_ManagementGatewayID = 0, sn_SensorID = 0, sn_Type = sq_Type q,
      sn_MinRange = sq_MinRange q, sn_MaxRange = sq_MaxRange q, sn_Algorithm = sq_Algorithm q, sn_CreatedAt = 0\<rparr>"

text \<open>Their encodings.\<close>

definition encode_GatewayResponse :: "'x libs_scheme \<Rightarrow> GatewayResponse \<Rightarrow> json result" where
  "encode_GatewayResponse L g =
     (case encode_time L (gr_CreatedAt g) of
        Inl e \<Rightarrow> Inl e
      | Inr t \<Rightarrow> Inr (JObj
          [(''id'', JStr (uuid_String L (gr_ID g))), (''factoryId'', JStr (gr_FactoryID g)),
           (''model'', JStr (gr_Model g)), (''firmwareVersion'', JStr (gr_FirmwareVersion g)),
           (''provisioned'', JBool (gr_Provisioned g)),
           (''sendFrequencyMs'', JInt (sint (gr_SendFrequencyMs g))), (''status'', JStr (gr_Status g)),
           (''tenantId'', JStr (gr_TenantID g)), (''createdAt'', t)]))"

definition encode_SensorResponse :: "'x libs_scheme \<Rightarrow> SensorResponse \<Rightarrow> json result" where
  "encode_SensorResponse L s =
     (case encode_float (sp_MinRange s) of
        Inl e \<Rightarrow> Inl e
      | Inr lo \<Rightarrow>
          (case encode_float (sp_MaxRange s) of
             Inl e \<Rightarrow> Inl e
           | Inr hi \<Rightarrow>
               (case encode_time L (sp_CreatedAt s) of
                  Inl e \<Rightarrow> Inl e
                | Inr t \<Rightarrow> Inr (JObj
                    [(''id'', JStr (uuid_String L (sp_ID s))), (''gatewayId'', JStr (uuid_String L (sp_GatewayID s))),
                     (''type'', JStr (sp_Type s)), (''minRange'', lo), (''maxRange'', hi),
                     (''algorithm'', JStr (sp_Algorithm s)), (''createdAt'', t)]))))"

fun encode_list :: "('a \<Rightarrow> json result) \<Rightarrow> 'a list \<Rightarrow> json list result" where
  "encode_list enc [] = Inr []"
| "encode_list enc (x # xs) =
     (case enc x of
        Inl e \<Rightarrow> Inl e
      | Inr j \<Rightarrow> (case encode_list enc xs of Inl e \<Rightarrow> Inl e | Inr js \<Rightarrow> Inr (j # js)))"

definition encode_array :: "('a \<Rightarrow> json result) \<Rightarrow> 'a list \<Rightarrow> json result" where
  "encode_array enc xs = map_sum id JArr (encode_list enc xs)"

subsection \<open>Gateways: \<^verbatim>\<open>gateway_handler.go\<close>\<close>

definition create_request_fields :: "CreateGatewayRequest field list" where
  "create_request_fields =
     [(''factoryId'', plain_field decode_string (\<lambda>v. cr_FactoryID_update (\<lambda>_. v))),
      (''factoryKey'', plain_field decode_string (\<lambda>v. cr_FactoryKey_update (\<lambda>_. v))),
      (''model'', plain_field decode_string (\<lambda>v. cr_Model_update (\<lambda>_. v))),
      (''firmwareVersion'', plain_field decode_string (\<lambda>v. cr_FirmwareVersion_update (\<lambda>_. v))),
      (''sendFrequencyMs'', plain_field decode_int (\<lambda>v. cr_SendFrequencyMs_update (\<lambda>_. v)))]"

definition decode_CreateGatewayRequest :: "request \<Rightarrow> CreateGatewayRequest result" where
  "decode_CreateGatewayRequest =
     decode_body ''domain.CreateGatewayRequest'' create_request_fields
       \<lparr>cr_FactoryID = '''', cr_FactoryKey = '''', cr_Model = '''', cr_FirmwareVersion = '''',
        cr_SendFrequencyMs = 0\<rparr>"

text \<open>An array of strings; a null element is the empty string and a null array has no element.\<close>

fun decode_strings :: "json list \<Rightarrow> string list result" where
  "decode_strings [] = Inr []"
| "decode_strings (j # js) =
     (case (if j = JNull then Inr '''' else decode_string j) of
        Inl e \<Rightarrow> Inl e
      | Inr s \<Rightarrow> (case decode_strings js of Inl e \<Rightarrow> Inl e | Inr ss \<Rightarrow> Inr (s # ss)))"

fun decode_string_list :: "json \<Rightarrow> string list result" where
  "decode_string_list JNull = Inr []"
| "decode_string_list (JArr js) = decode_strings js"
| "decode_string_list j = Inl (type_mismatch j ''[]string'')"

definition bulk_request_fields :: "BulkCreateRequest field list" where
  "bulk_request_fields =
     [(''factoryIds'', \<lambda>j r. map_sum id (\<lambda>v. r\<lparr>br_FactoryIDs := v\<rparr>) (decode_string_list j)),
      (''factoryKey'', plain_field decode_string (\<lambda>v. br_FactoryKey_update (\<lambda>_. v))),
      (''model'', plain_field decode_string (\<lambda>v. br_Model_update (\<lambda>_. v))),
      (''firmwareVersion'', plain_field decode_string (\<lambda>v. br_FirmwareVersion_update (\<lambda>_. v))),
      (''sendFrequencyMs'', plain_field decode_int (\<lambda>v. br_SendFrequencyMs_update (\<lambda>_. v)))]"

definition decode_BulkCreateRequest :: "request \<Rightarrow> BulkCreateRequest result" where
  "decode_BulkCreateRequest =
     decode_body ''domain.BulkCreateRequest'' bulk_request_fields
       \<lparr>br_FactoryIDs = [], br_FactoryKey = '''', br_Model = '''', br_FirmwareVersion = '''',
        br_SendFrequencyMs = 0\<rparr>"

definition sanitizeFactoryIDs :: "string list \<Rightarrow> string list" where
  "sanitizeFactoryIDs factoryIDs =
     List.map_filter (\<lambda>s. let t = TrimSpace s in if t \<noteq> '''' then Some t else None) factoryIDs"

text \<open>The handlers take the service and its state, and give the response and the new state.\<close>

definition gateway_Create ::
  "'x libs_scheme \<Rightarrow> 'r GatewayLifecycleService \<Rightarrow> request \<Rightarrow> 'r \<Rightarrow> (response \<times> 'r) go" where
  "gateway_Create L svc rq r =
     (case decode_CreateGatewayRequest rq of
        Inl err \<Rightarrow> Return (http_Error (err_text err) 400, r)
      | Inr req \<Rightarrow>
          go_bind (ls_CreateAndStart svc req r) (\<lambda>(res, r). Return
            (case res of
               Inl err \<Rightarrow> writeError err
             | Inr gw \<Rightarrow> json_response 201 (encode_GatewayResponse L (GatewayFromDomain gw)), r)))"

definition gateway_transition ::
  "'x libs_scheme \<Rightarrow> (uuid \<Rightarrow> 'r \<Rightarrow> (unit result \<times> 'r) go) \<Rightarrow> string \<Rightarrow> request \<Rightarrow> 'r \<Rightarrow> (response \<times> 'r) go" where
  "gateway_transition L act invalid rq r =
     (case uuid_Parse L (rq_id rq) of
        None \<Rightarrow> Return (http_Error invalid 400, r)
      | Some u \<Rightarrow>
          go_bind (act u r) (\<lambda>(res, r). Return
            (case res of Inl err \<Rightarrow> writeError err | Inr _ \<Rightarrow> no_content, r)))"

definition gateway_Start ::
  "'x libs_scheme \<Rightarrow> 'r GatewayLifecycleService \<Rightarrow> request \<Rightarrow> 'r \<Rightarrow> (response \<times> 'r) go" where
  "gateway_Start L svc = gateway_transition L (ls_Start svc) invalidGatewayIDFormat"

definition gateway_Stop ::
  "'x libs_scheme \<Rightarrow> 'r GatewayLifecycleService \<Rightarrow> request \<Rightarrow> 'r \<Rightarrow> (response \<times> 'r) go" where
  "gateway_Stop L svc = gateway_transition L (ls_Stop svc) invalidGatewayIDFormat"

definition gateway_Delete ::
  "'x libs_scheme \<Rightarrow> 'r GatewayLifecycleService \<Rightarrow> request \<Rightarrow> 'r \<Rightarrow> (response \<times> 'r) go" where
  "gateway_Delete L svc = gateway_transition L (ls_Delete svc) invalidGatewayIDFormat"

definition gateway_List ::
  "'x libs_scheme \<Rightarrow> 'r GatewayLifecycleService \<Rightarrow> request \<Rightarrow> 'r \<Rightarrow> (response \<times> 'r) go" where
  "gateway_List L svc rq r =
     go_bind (ls_ListGateways svc r) (\<lambda>(res, r). Return
       (case res of
          Inl err \<Rightarrow> writeError err
        | Inr gws \<Rightarrow> json_response 200 (encode_array (encode_GatewayResponse L) (GatewayListFromDomain gws)), r))"

definition gateway_Get ::
  "'x libs_scheme \<Rightarrow> 'r GatewayLifecycleService \<Rightarrow> request \<Rightarrow> 'r \<Rightarrow> (response \<times> 'r) go" where
  "gateway_Get L svc rq r =
     (case uuid_Parse L (rq_id rq) of
        None \<Rightarrow> Return (http_Error invalidGatewayIDFormat 400, r)
      | Some u \<Rightarrow>
          go_bind (ls_GetGateway svc u r) (\<lambda>(res, r). Return
            (case res of
               Inl err \<Rightarrow> writeError err
             | Inr gw \<Rightarrow> json_response 200 (encode_GatewayResponse L (GatewayFromDomain gw)), r)))"

definition bulk_response ::
  "'x libs_scheme \<Rightarrow> SimGateway option list \<Rightarrow> go_error option list \<Rightarrow> response" where
  "bulk_response L gws errs =
     (let stringErrs = map (\<lambda>e. case e of None \<Rightarrow> '''' | Some err \<Rightarrow> err_text err) errs;
          hasErrors = list_ex (\<lambda>e. e \<noteq> None) errs
      in json_response (if hasErrors then 207 else 201)
           (case encode_array (encode_GatewayResponse L) (GatewayListFromDomain gws) of
              Inl e \<Rightarrow> Inl e
            | Inr j \<Rightarrow> Inr (JObj [(''gateways'', j), (''errors'', JArr (map JStr stringErrs))])))"

definition gateway_BulkCreate ::
  "'x libs_scheme \<Rightarrow> 'r GatewayLifecycleService \<Rightarrow> request \<Rightarrow> 'r \<Rightarrow> (response \<times> 'r) go" where
  "gateway_BulkCreate L svc rq r =
     (case decode_BulkCreateRequest rq of
        Inl err \<Rightarrow> Return (http_Error (err_text err) 400, r)
      | Inr req \<Rightarrow>
          let req = req\<lparr>br_FactoryIDs := sanitizeFactoryIDs (br_FactoryIDs req)\<rparr>
          in if length (br_FactoryIDs req) = 0
             then Return (http_Error ''factoryIds is required and must contain at least one non-empty value'' 400, r)
             else go_bind (ls_BulkCreateGateways svc req r)
                    (\<lambda>((gws, errs), r). Return (bulk_response L gws errs, r)))"

subsection \<open>Sensors: \<^verbatim>\<open>sensor_handler.go\<close>\<close>

definition sensor_request_fields :: "CreateSensorRequest field list" where
  "sensor_request_fields =
     [(''type'', plain_field decode_string (\<lambda>v. sq_Type_update (\<lambda>_. v))),
      (''minRange'', plain_field decode_float (\<lambda>v. sq_MinRange_update (\<lambda>_. v))),
      (''maxRange'', plain_field decode_float (\<lambda>v. sq_MaxRange_update (\<lambda>_. v))),
      (''algorithm'', plain_field decode_string (\<lambda>v. sq_Algorithm_update (\<lambda>_. v)))]"

definition decode_CreateSensorRequest :: "request \<Rightarrow> CreateSensorRequest result" where
  "decode_CreateSensorRequest =
     decode_body ''dto.CreateSensorRequest'' sensor_request_fields
       \<lparr>sq_Type = '''', sq_MinRange = Finite 0, sq_MaxRange = Finite 0, sq_Algorithm = ''''\<rparr>"

definition sensor_Add ::
  "'x libs_scheme \<Rightarrow> 'r SensorManagementService \<Rightarrow> request \<Rightarrow> 'r \<Rightarrow> (response \<times> 'r) go" where
  "sensor_Add L svc rq r =
     (case uuid_Parse L (rq_id rq) of
        None \<Rightarrow> Return (http_Error invalidGatewayIDFormat 400, r)
      | Some u \<Rightarrow>
          (case decode_CreateSensorRequest rq of
             Inl err \<Rightarrow> Return (http_Error (err_text err) 400, r)
           | Inr req \<Rightarrow>
               go_bind (ss_AddSensor svc u (ToDomain req) r) (\<lambda>(res, r). Return
                 (case res of
                    Inl err \<Rightarrow> writeError err
                  | Inr s \<Rightarrow> json_response 201 (encode_SensorResponse L (SensorFromDomain s)), r))))"

definition sensor_List ::
  "'x libs_scheme \<Rightarrow> 'r SensorManagementService \<Rightarrow> request \<Rightarrow> 'r \<Rightarrow> (response \<times> 'r) go" where
  "sensor_List L svc rq r =
     (case uuid_Parse L (rq_id rq) of
        None \<Rightarrow> Return (http_Error invalidGatewayIDFormat 400, r)
      | Some u \<Rightarrow>
          go_bind (ss_ListSensors svc u r) (\<lambda>(res, r). Return
            (case res of
               Inl err \<Rightarrow> writeError err
             | Inr ss \<Rightarrow> json_response 200 (encode_array (encode_SensorResponse L) (SensorListFromDomain ss)), r)))"

definition sensor_Delete ::
  "'x libs_scheme \<Rightarrow> 'r SensorManagementService \<Rightarrow> request \<Rightarrow> 'r \<Rightarrow> (response \<times> 'r) go" where
  "sensor_Delete L svc = gateway_transition L (ss_DeleteSensor svc) ''invalid sensor ID format''"

subsection \<open>Anomalies: \<^verbatim>\<open>anomaly_handler.go\<close>\<close>

definition degradation_fields :: "NetworkDegradationParams field list" where
  "degradation_fields =
     [(''duration_seconds'', plain_field decode_int (\<lambda>v. nd_DurationSeconds_update (\<lambda>_. v))),
      (''packet_loss_pct'', plain_field decode_float (\<lambda>v. nd_PacketLossPct_update (\<lambda>_. v)))]"

definition disconnect_fields :: "DisconnectParams field list" where
  "disconnect_fields =
     [(''duration_seconds'', plain_field decode_int (\<lambda>v. dc_DurationSeconds_update (\<lambda>_. v)))]"

text \<open>The default loss is the float64 nearest to 0.3.\<close>

definition default_loss :: float64 where
  "default_loss = Finite (5404319552844595 / 18014398509481984)"

definition InjectNetworkDegradation ::
  "'x libs_scheme \<Rightarrow> 'r SimulatorControlService \<Rightarrow> request \<Rightarrow> 'r \<Rightarrow> (response \<times> 'r) go" where
  "InjectNetworkDegradation L svc rq r =
     (case uuid_Parse L (rq_id rq) of
        None \<Rightarrow> Return (http_Error invalidGatewayIDFormat 400, r)
      | Some u \<Rightarrow>
          (case decode_body ''struct'' degradation_fields
                  \<lparr>nd_DurationSeconds = 0, nd_PacketLossPct = Finite 0\<rparr> rq of
             Inl err \<Rightarrow> Return (http_Error (err_text err) 400, r)
           | Inr req \<Rightarrow>
               let req = (if nd_PacketLossPct req = Finite 0 then req\<lparr>nd_PacketLossPct := default_loss\<rparr> else req);
                   cmd = \<lparr>ac_Type = NetworkDegradation, ac_NetworkDegradation = Some req, ac_Disconnect = None\<rparr>
               in go_bind (cs_InjectGatewayAnomaly svc u cmd r) (\<lambda>(res, r). Return
                    (case res of Inl err \<Rightarrow> writeError err | Inr _ \<Rightarrow> no_content, r))))"

definition InjectDisconnect ::
  "'x libs_scheme \<Rightarrow> 'r SimulatorControlService \<Rightarrow> request \<Rightarrow> 'r \<Rightarrow> (response \<times> 'r) go" where
  "InjectDisconnect L svc rq r =
     (case uuid_Parse L (rq_id rq) of
        None \<Rightarrow> Return (http_Error invalidGatewayIDFormat 400, r)
      | Some u \<Rightarrow>
          (case decode_body ''struct'' disconnect_fields \<lparr>dc_DurationSeconds = 0\<rparr> rq of
             Inl err \<Rightarrow> Return (http_Error (err_text err) 400, r)
           | Inr req \<Rightarrow>
               if sint (dc_DurationSeconds req) \<le> 0
               then Return (http_Error ''duration_seconds is required and must be > 0'' 400, r)
               else
                 let cmd = \<lparr>ac_Type = Disconnect, ac_NetworkDegradation = None, ac_Disconnect = Some req\<rparr>
                 in go_bind (cs_InjectGatewayAnomaly svc u cmd r) (\<lambda>(res, r). Return
                      (case res of Inl err \<Rightarrow> writeError err | Inr _ \<Rightarrow> no_content, r))))"

definition InjectOutlier ::
  "'x libs_scheme \<Rightarrow> 'r SimulatorControlService \<Rightarrow> request \<Rightarrow> 'r \<Rightarrow> (response \<times> 'r) go" where
  "InjectOutlier L svc rq r =
     (case uuid_Parse L (rq_id rq) of
        None \<Rightarrow> Return (http_Error ''invalid sensor ID format'' 400, r)
      | Some u \<Rightarrow>
          (case decode_body ''struct'' [(''value'', pointer_field decode_float (\<lambda>v _. v))] None rq of
             Inl err \<Rightarrow> Return (http_Error (err_text err) 400, r)
           | Inr v \<Rightarrow>
               go_bind (cs_InjectSensorOutlier svc u v r) (\<lambda>(res, r). Return
                 (case res of Inl err \<Rightarrow> writeError err | Inr _ \<Rightarrow> no_content, r))))"

subsection \<open>Routing: \<^verbatim>\<open>server.go\<close>\<close>

text \<open>
  A path is its list of unescaped segments; None in a pattern is a wildcard, whose segment is the path
  value. Methods are compared literally, so \<^verbatim>\<open>HEAD\<close>, which \<^verbatim>\<open>ServeMux\<close> sends to a \<^verbatim>\<open>GET\<close>
  pattern, is left out, and so are paths that it would redirect.
\<close>

datatype endpoint =
    Health
  | Gateway_Create | Gateway_BulkCreate | Gateway_List | Gateway_Get | Gateway_Start | Gateway_Stop | Gateway_Delete
  | Sensor_Add | Sensor_List | Sensor_Delete
  | Anomaly_Degradation | Anomaly_Disconnect | Anomaly_Outlier

definition routes :: "(string \<times> string option list \<times> endpoint) list" where
  "routes =
     (let gateways = [Some ''sim'', Some ''gateways'']; gateway = gateways @ [None];
          sensor = [Some ''sim'', Some ''sensors'', None]
      in [(''GET'', [Some ''health''], Health),
          (''POST'', gateways, Gateway_Create),
          (''POST'', gateways @ [Some ''bulk''], Gateway_BulkCreate),
          (''GET'', gateways, Gateway_List),
          (''GET'', gateway, Gateway_Get),
          (''POST'', gateway @ [Some ''start''], Gateway_Start),
          (''POST'', gateway @ [Some ''stop''], Gateway_Stop),
          (''DELETE'', gateway, Gateway_Delete),
          (''POST'', gateway @ [Some ''sensors''], Sensor_Add),
          (''GET'', gateway @ [Some ''sensors''], Sensor_List),
          (''DELETE'', sensor, Sensor_Delete),
          (''POST'', gateway @ [Some ''anomaly'', Some ''network-degradation''], Anomaly_Degradation),
          (''POST'', gateway @ [Some ''anomaly'', Some ''disconnect''], Anomaly_Disconnect),
          (''POST'', sensor @ [Some ''anomaly'', Some ''outlier''], Anomaly_Outlier)])"

fun path_matches :: "string option list \<Rightarrow> string list \<Rightarrow> bool" where
  "path_matches [] [] = True"
| "path_matches (p # ps) (s # ss) = ((p = None \<or> p = Some s) \<and> path_matches ps ss)"
| "path_matches _ _ = False"

fun path_value :: "string option list \<Rightarrow> string list \<Rightarrow> string" where
  "path_value (None # ps) (s # ss) = s"
| "path_value (Some _ # ps) (s # ss) = path_value ps ss"
| "path_value _ _ = ''''"

record 'r api =
  api_lifecycle :: "'r GatewayLifecycleService"
  api_sensors :: "'r SensorManagementService"
  api_control :: "'r SimulatorControlService"

text \<open>The handler of \<^verbatim>\<open>internal/health/handler.go\<close>.\<close>

definition health_Handler :: "'r \<Rightarrow> (response \<times> 'r) go" where
  "health_Handler r = Return (json_response 200 (Inr (JObj [(''status'', JStr ''ok'')])), r)"

fun handle :: "'x libs_scheme \<Rightarrow> 'r api \<Rightarrow> endpoint \<Rightarrow> request \<Rightarrow> 'r \<Rightarrow> (response \<times> 'r) go" where
  "handle L A Health rq r = health_Handler r"
| "handle L A Gateway_Create rq r = gateway_Create L (api_lifecycle A) rq r"
| "handle L A Gateway_BulkCreate rq r = gateway_BulkCreate L (api_lifecycle A) rq r"
| "handle L A Gateway_List rq r = gateway_List L (api_lifecycle A) rq r"
| "handle L A Gateway_Get rq r = gateway_Get L (api_lifecycle A) rq r"
| "handle L A Gateway_Start rq r = gateway_Start L (api_lifecycle A) rq r"
| "handle L A Gateway_Stop rq r = gateway_Stop L (api_lifecycle A) rq r"
| "handle L A Gateway_Delete rq r = gateway_Delete L (api_lifecycle A) rq r"
| "handle L A Sensor_Add rq r = sensor_Add L (api_sensors A) rq r"
| "handle L A Sensor_List rq r = sensor_List L (api_sensors A) rq r"
| "handle L A Sensor_Delete rq r = sensor_Delete L (api_sensors A) rq r"
| "handle L A Anomaly_Degradation rq r = InjectNetworkDegradation L (api_control A) rq r"
| "handle L A Anomaly_Disconnect rq r = InjectDisconnect L (api_control A) rq r"
| "handle L A Anomaly_Outlier rq r = InjectOutlier L (api_control A) rq r"

definition serve ::
  "'x libs_scheme \<Rightarrow> 'r api \<Rightarrow> string \<Rightarrow> string list \<Rightarrow> json result \<Rightarrow> 'r \<Rightarrow> (response \<times> 'r) go" where
  "serve L A m path content r =
     (case List.find (\<lambda>(m', ps, _). m' = m \<and> path_matches ps path) routes of
        Some (_, ps, ep) \<Rightarrow> handle L A ep \<lparr>rq_id = path_value ps path, rq_body = content\<rparr> r
      | None \<Rightarrow> Return
          (if list_ex (\<lambda>(_, ps, _). path_matches ps path) routes then http_Error ''Method Not Allowed'' 405
           else http_Error ''404 page not found'' 404, r))"

text \<open>The API of the simulator, as \<^verbatim>\<open>startAPIServer\<close> puts it together: the registry is all three services.\<close>

definition registry_api ::
  "'x libs_scheme \<Rightarrow> 's store_ops \<Rightarrow> (nat \<Rightarrow> nat list) \<Rightarrow> 's GatewayRegistry api" where
  "registry_api L ops schedule =
     \<lparr>api_lifecycle = registry_lifecycle L ops schedule, api_sensors = registry_sensors L ops,
      api_control = registry_control L ops\<rparr>"

end
