(* ===== verification/Http_Facts.thy ===== *)
theory Http_Facts
  imports Http_Api Registry_System
begin

text \<open>
  What holds of the HTTP handlers for every implementation of the services, and of the bulk creation over
  any relational store.
\<close>

lemma response_status [simp]:
  "rs_status (http_Error msg c) = c" "rs_status (json_response c j) = c" "rs_status no_content = 204"
  by (simp_all add: http_Error_def json_response_def no_content_def)

lemma writeError_status:
  "rs_status (writeError e) \<in> {401, 404, 409, 500}"
  by (simp add: writeError_def)

subsection \<open>A refused request leaves the state of the services alone\<close>

definition refused :: "response \<Rightarrow> bool" where
  "refused resp \<longleftrightarrow> rs_status resp = 400 \<or> rs_status resp = 405"

lemma not_refused [simp]:
  "\<not> refused (writeError e)" "\<not> refused no_content" "\<not> refused (bulk_response L gws errs)"
  "refused (json_response c j) \<longleftrightarrow> c = 400 \<or> c = 405"
  using writeError_status [of e] by (auto simp: refused_def bulk_response_def Let_def)

definition refuses_cleanly :: "(response \<times> 'r) go \<Rightarrow> 'r \<Rightarrow> bool" where
  "refuses_cleanly m r \<longleftrightarrow> (\<forall>resp r'. m = Return (resp, r') \<and> refused resp \<longrightarrow> r' = r)"

lemma refuses_Return [inv_intros]: "refuses_cleanly (Return (resp, r)) r"
  by (simp add: refuses_cleanly_def)

lemma refuses_bind [inv_intros]:
  "(\<And>res. \<not> refused (f res)) \<Longrightarrow> refuses_cleanly (go_bind m (\<lambda>(res, r). Return (f res, r))) r"
  by (auto simp: refuses_cleanly_def go_bind_eq_Return)

lemma refuses_bind_pair [inv_intros]:
  "(\<And>a b. \<not> refused (f a b)) \<Longrightarrow> refuses_cleanly (go_bind m (\<lambda>((a, b), r). Return (f a b, r))) r"
  by (auto simp: refuses_cleanly_def go_bind_eq_Return)

lemmas handler_defs = health_Handler_def gateway_Create_def gateway_transition_def gateway_Start_def gateway_Stop_def gateway_Delete_def
  gateway_List_def gateway_Get_def gateway_BulkCreate_def sensor_Add_def sensor_List_def sensor_Delete_def
  InjectNetworkDegradation_def InjectDisconnect_def InjectOutlier_def

lemma refused_case_result [simp]:
  "refused (case res of Inl e \<Rightarrow> writeError e | Inr x \<Rightarrow> f x) \<longleftrightarrow> (\<exists>x. res = Inr x \<and> refused (f x))"
  by (cases res) simp_all

lemma handle_refuses: "refuses_cleanly (handle L A ep rq r) r"
  by (cases ep)
    (auto simp: handler_defs Let_def intro!: refuses_Return refuses_bind refuses_bind_pair
      split: option.split sum.split)

lemma serve_refuses: "refuses_cleanly (serve L A m path content r) r"
  by (auto simp: serve_def intro!: handle_refuses refuses_Return split: option.split prod.split)

text \<open>Every status that a request can be answered with.\<close>

definition api_statuses :: "nat set" where
  "api_statuses = {200, 201, 204, 207, 400, 401, 404, 405, 409, 500}"

definition answers_within :: "(response \<times> 'r) go \<Rightarrow> bool" where
  "answers_within m \<longleftrightarrow> (\<forall>resp r'. m = Return (resp, r') \<longrightarrow> rs_status resp \<in> api_statuses)"

lemma answers_Return [inv_intros]: "rs_status resp \<in> api_statuses \<Longrightarrow> answers_within (Return (resp, r))"
  by (simp add: answers_within_def)

lemma answers_bind [inv_intros]:
  "(\<And>res. rs_status (f res) \<in> api_statuses) \<Longrightarrow> answers_within (go_bind m (\<lambda>(res, r). Return (f res, r)))"
  by (auto simp: answers_within_def go_bind_eq_Return)

lemma answers_bind_pair [inv_intros]:
  "(\<And>a b. rs_status (f a b) \<in> api_statuses) \<Longrightarrow> answers_within (go_bind m (\<lambda>((a, b), r). Return (f a b, r)))"
  by (auto simp: answers_within_def go_bind_eq_Return)

lemma status_case_result [simp]:
  "rs_status (case res of Inl e \<Rightarrow> writeError e | Inr x \<Rightarrow> f x) \<in> api_statuses \<longleftrightarrow>
   (\<forall>x. res = Inr x \<longrightarrow> rs_status (f x) \<in> api_statuses)"
  using writeError_status by (cases res) (auto simp: api_statuses_def)

lemma status_bulk [simp]: "rs_status (bulk_response L gws errs) \<in> api_statuses"
  by (simp add: bulk_response_def Let_def api_statuses_def)

lemma status_codes [simp]:
  "200 \<in> api_statuses" "201 \<in> api_statuses" "204 \<in> api_statuses" "400 \<in> api_statuses" "404 \<in> api_statuses" "405 \<in> api_statuses"
  by (simp_all add: api_statuses_def)

lemma handle_status: "answers_within (handle L A ep rq r)"
  by (cases ep)
    (auto simp: handler_defs Let_def intro!: inv_intros split: option.split sum.split)

lemma serve_status: "answers_within (serve L A m path content r)"
  by (auto simp: serve_def intro!: handle_status answers_Return split: option.split prod.split)

subsection \<open>What the responses do not show\<close>

text \<open>A gateway without its secrets, and the service that never sees them.\<close>

definition redact :: "SimGateway \<Rightarrow> SimGateway" where
  "redact gw = gw\<lparr>gw_FactoryKey := [], gw_CertPEM := [], gw_PrivateKeyPEM := [], gw_EncryptionKey := zero_EncryptionKey\<rparr>"

definition redacted_lifecycle :: "'r GatewayLifecycleService \<Rightarrow> 'r GatewayLifecycleService" where
  "redacted_lifecycle svc = svc\<lparr>
     ls_CreateAndStart := (\<lambda>req r. go_bind (ls_CreateAndStart svc req r) (\<lambda>(res, r). Return (map_sum id redact res, r))),
     ls_BulkCreateGateways := (\<lambda>req r. go_bind (ls_BulkCreateGateways svc req r)
       (\<lambda>((gws, errs), r). Return ((map (map_option redact) gws, errs), r))),
     ls_ListGateways := (\<lambda>r. go_bind (ls_ListGateways svc r)
       (\<lambda>(res, r). Return (map_sum id (map (map_option redact)) res, r))),
     ls_GetGateway := (\<lambda>u r. go_bind (ls_GetGateway svc u r) (\<lambda>(res, r). Return (map_sum id redact res, r)))\<rparr>"

lemma GatewayFromDomain_redact [simp]: "GatewayFromDomain (redact gw) = GatewayFromDomain gw"
  by (simp add: GatewayFromDomain_def redact_def)

lemma GatewayListFromDomain_redact [simp]:
  "GatewayListFromDomain (map (map_option redact) gws) = GatewayListFromDomain gws"
  by (induction gws) (auto simp: GatewayListFromDomain_def List.map_filter_simps split: option.split)

lemma bulk_response_redact [simp]: "bulk_response L (map (map_option redact) gws) errs = bulk_response L gws errs"
  by (simp add: bulk_response_def)

lemma handle_redacted:
  "handle L (A\<lparr>api_lifecycle := redacted_lifecycle (api_lifecycle A)\<rparr>) ep rq r = handle L A ep rq r"
  by (cases ep)
    (auto simp: handler_defs redacted_lifecycle_def go_bind_assoc Let_def intro!: go_bind_cong split: option.split sum.split)

subsection \<open>The routes are disjoint\<close>

fun overlap :: "string option list \<Rightarrow> string option list \<Rightarrow> bool" where
  "overlap [] [] = True"
| "overlap (p # ps) (q # qs) = ((p = None \<or> q = None \<or> p = q) \<and> overlap ps qs)"
| "overlap _ _ = False"

lemma both_match_overlap: "path_matches ps ss \<Longrightarrow> path_matches qs ss \<Longrightarrow> overlap ps qs"
proof (induction ps arbitrary: qs ss)
  case Nil
  then show ?case by (cases ss; cases qs) auto
next
  case (Cons p ps)
  then show ?case by (cases ss; cases qs) auto
qed

definition routes_apart :: bool where
  "routes_apart \<longleftrightarrow>
     list_all (\<lambda>(m, ps, ep). list_all (\<lambda>(n, qs, ep'). m = n \<and> overlap ps qs \<longrightarrow> ep = ep') routes) routes"

lemma routes_apart: "routes_apart"
  by code_simp

lemma routes_disjoint:
  assumes "(m, ps, ep) \<in> set routes" and "(m, qs, ep') \<in> set routes" and "path_matches ps path" and "path_matches qs path"
  shows "ep = ep'"
  using routes_apart assms(1,2) both_match_overlap [OF assms(3,4)]
  unfolding routes_apart_def list_all_iff by fastforce

subsection \<open>Trimming the factory ids twice\<close>

lemma has_prefix_append: "has_prefix s p \<Longrightarrow> has_prefix (s @ t) p"
  by (metis append_eq_conv_conj append_take_drop_id append.assoc has_prefix_def)

lemma trim_front_fixed: "List.find (\<lambda>p. p \<noteq> [] \<and> has_prefix s p) ws = None \<Longrightarrow> trim_front ws s = s"
  by (subst trim_front.simps) simp

lemma TrimSpace_idem: "TrimSpace (TrimSpace s) = TrimSpace s"
proof -
  let ?b = "trim_front white_space s" and ?t = "TrimSpace s"
  obtain q where "rev ?b = q @ trim_front (map rev white_space) (rev ?b)" using trim_front_suffix by blast
  then have b: "?b = ?t @ rev q" unfolding TrimSpace_def by (metis rev_append rev_rev_ident)
  have "List.find (\<lambda>p. p \<noteq> [] \<and> has_prefix ?t p) white_space = None"
    using trim_front_stops [of white_space s] b has_prefix_append [of ?t _ "rev q"]
    by (auto simp: find_None_iff)
  then have "trim_front white_space ?t = ?t" by (rule trim_front_fixed)
  moreover have "trim_front (map rev white_space) (rev ?t) = rev ?t"
    by (simp add: TrimSpace_def trim_front_idem)
  ultimately show ?thesis by (simp add: TrimSpace_def [of ?t])
qed

lemma sanitize_resolve: "sanitizeFactoryIDs xs = resolveBulkFactoryIDs xs"
  by (induction xs) (simp_all add: sanitizeFactoryIDs_def resolveBulkFactoryIDs_def List.map_filter_def Let_def)

lemma resolve_idem: "resolveBulkFactoryIDs (resolveBulkFactoryIDs xs) = resolveBulkFactoryIDs xs"
  by (induction xs) (simp_all add: resolveBulkFactoryIDs_def TrimSpace_idem)

subsection \<open>Bulk creation\<close>

lemma bulk_run_slots:
  "bulk_run L ops req ids is (slots, r) = Return (slots', r') \<Longrightarrow>
   length slots' = length slots \<and> (\<forall>i. i \<notin> set is \<longrightarrow> slots' ! i = slots ! i) \<and>
   (\<forall>i \<in> set is. i < length slots \<longrightarrow> slots' ! i \<noteq> None)"
proof (induction "is" arbitrary: slots r)
  case (Cons i js)
  from Cons.prems obtain res r1 where
    rest: "bulk_run L ops req ids js (slots[i := Some res], r1) = Return (slots', r')"
    by (auto simp: go_bind_eq_Return)
  from Cons.IH [OF this] show ?case
    by (cases "i \<in> set js") auto
qed simp

context relational_store
begin

lemma bulk_run_ok:
  "bulk_run L ops req ids is (slots, r) = Return (slots', r') \<Longrightarrow> registry_ok gws ok r \<Longrightarrow> registry_ok gws ok r'"
proof (induction "is" arbitrary: slots r)
  case (Cons i js)
  from Cons.prems(1) obtain res r1 where
    one: "CreateAndStart L ops (bulk_request req (ids ! i)) r = Return (res, r1)"
    and rest: "bulk_run L ops req ids js (slots[i := Some res], r1) = Return (slots', r')"
    by (auto simp: go_bind_eq_Return)
  from Cons.IH [OF rest create_ok [OF Cons.prems(2) one]] show ?case .
qed simp

text \<open>The workers after a bulk creation: one more for each slot that holds a gateway.\<close>

lemma bulk_run_workers:
  "bulk_run L ops req ids is (slots, r) = Return (slots', r') \<Longrightarrow> registry_ok gws ok r \<Longrightarrow> distinct is \<Longrightarrow>
   \<forall>i \<in> set is. i < length slots \<Longrightarrow>
   length (rg_workers r') = length (rg_workers r) + length (filter (\<lambda>i. slot_error (slots' ! i) = None) is)"
proof (induction "is" arbitrary: slots r)
  case (Cons i js)
  from Cons.prems(1) obtain res r1 where
    one: "CreateAndStart L ops (bulk_request req (ids ! i)) r = Return (res, r1)"
    and rest: "bulk_run L ops req ids js (slots[i := Some res], r1) = Return (slots', r')"
    by (auto simp: go_bind_eq_Return)
  note ok1 = create_ok [OF Cons.prems(2) one]
  have ih: "length (rg_workers r') = length (rg_workers r1) + length (filter (\<lambda>i. slot_error (slots' ! i) = None) js)"
    using Cons.IH [OF rest ok1] Cons.prems(3,4) by simp
  have s: "slots' ! i = Some res" using bulk_run_slots [OF rest] Cons.prems(3,4) by simp
  show ?case
  proof (cases res)
    case (Inl e)
    from CreateAndStart_failure [OF Cons.prems(2) one [unfolded Inl]] have "rg_workers r1 = rg_workers r"
      by (simp add: left_no_trace_def)
    with ih s Inl show ?thesis by simp
  next
    case (Inr gw)
    from CreateAndStart_success(2) [OF Cons.prems(2) one [unfolded Inr]] obtain w where
      "map_of (rg_workers r) (gw_ManagementGatewayID gw) = None"
      "rg_workers r1 = map_put (gw_ManagementGatewayID gw) w (rg_workers r)"
      by (auto simp: gateway_handed_over_def)
    then have "length (rg_workers r1) = Suc (length (rg_workers r))"
      by (simp add: length_map_put_new map_of_eq_None_iff)
    with ih s Inr show ?thesis by simp
  qed
qed simp

text \<open>A slot that holds a gateway holds the one of its id.\<close>

lemma bulk_run_ids:
  "bulk_run L ops req ids is (slots, r) = Return (slots', r') \<Longrightarrow> registry_ok gws ok r \<Longrightarrow> distinct is \<Longrightarrow>
   i \<in> set is \<Longrightarrow> i < length slots \<Longrightarrow> slot_gateway (slots' ! i) = Some g \<Longrightarrow> gw_FactoryID g = ids ! i"
proof (induction "is" arbitrary: slots r)
  case (Cons j js)
  from Cons.prems(1) obtain res r1 where
    one: "CreateAndStart L ops (bulk_request req (ids ! j)) r = Return (res, r1)"
    and rest: "bulk_run L ops req ids js (slots[j := Some res], r1) = Return (slots', r')"
    by (auto simp: go_bind_eq_Return)
  show ?case
  proof (cases "i = j")
    case True
    with bulk_run_slots [OF rest] Cons.prems(3,5) have "slots' ! i = Some res" by simp
    with Cons.prems(6) have "res = Inr g" by (cases res) auto
    from CreateAndStart_success(3) [OF Cons.prems(2) one [unfolded this]] True show ?thesis by (simp add: bulk_request_def)
  next
    case False
    with Cons.IH [OF rest create_ok [OF Cons.prems(2) one]] Cons.prems(3-6) show ?thesis by simp
  qed
qed simp

text \<open>The goroutines run in any order, each once.\<close>

lemma bulk_create_ok:
  assumes "BulkCreateGateways L ops sched req r = Return (slots, r')" and "registry_ok gws ok r"
    and "distinct sched" and "set sched = {..<length (resolveBulkFactoryIDs (br_FactoryIDs req))}"
  shows "length slots = length (resolveBulkFactoryIDs (br_FactoryIDs req))" and "\<forall>slot \<in> set slots. slot \<noteq> None"
    and "registry_ok gws ok r'"
    and "length (rg_workers r') = length (rg_workers r) + length (filter (\<lambda>slot. slot_error slot = None) slots)"
    and "list_all2 (\<lambda>fid slot. \<forall>g. slot_gateway slot = Some g \<longrightarrow> gw_FactoryID g = fid)
      (resolveBulkFactoryIDs (br_FactoryIDs req)) slots"
proof -
  let ?n = "length (resolveBulkFactoryIDs (br_FactoryIDs req))"
  have run: "bulk_run L ops req (resolveBulkFactoryIDs (br_FactoryIDs req)) sched (replicate ?n None, r) = Return (slots, r')"
    using assms(1) by (simp add: BulkCreateGateways_def Let_def)
  note sl = bulk_run_slots [OF run]
  show len: "length slots = ?n" using sl by simp
  show "\<forall>slot \<in> set slots. slot \<noteq> None" using sl assms(4) by (auto simp: in_set_conv_nth)
  show "registry_ok gws ok r'" by (rule bulk_run_ok [OF run assms(2)])
  show "list_all2 (\<lambda>fid slot. \<forall>g. slot_gateway slot = Some g \<longrightarrow> gw_FactoryID g = fid)
      (resolveBulkFactoryIDs (br_FactoryIDs req)) slots"
    using bulk_run_ids [OF run assms(2,3)] len assms(4) by (auto simp: list_all2_conv_all_nth)
  have "length (filter (\<lambda>i. slot_error (slots ! i) = None) sched) = card ({i. slot_error (slots ! i) = None} \<inter> {..<?n})"
    using distinct_length_filter [OF assms(3)] assms(4) by simp
  also have "\<dots> = length (filter (\<lambda>i. slot_error (slots ! i) = None) [0..<?n])"
    using distinct_length_filter [of "[0..<?n]"] by (simp add: atLeast0LessThan)
  also have "\<dots> = length (filter (\<lambda>slot. slot_error slot = None) (map ((!) slots) [0..<?n]))"
    by (simp add: filter_map comp_def)
  also have "map ((!) slots) [0..<?n] = slots" using len by (metis map_nth)
  finally show "length (rg_workers r') = length (rg_workers r) + length (filter (\<lambda>slot. slot_error slot = None) slots)"
    using bulk_run_workers [OF run assms(2,3)] assms(4) by simp
qed

end

end
