(* ===== verification/Base64.thy ===== *)
theory Base64
  imports Sim_Domain
begin

text \<open>
  What the code uses of \<^verbatim>\<open>encoding/base64\<close>: \<^verbatim>\<open>StdEncoding\<close> with padding. The decoder skips line
  ends, wants complete padding and ignores the unused bits of the last sextet. The position that its error
  carries is left out of the text here.
\<close>

definition alphabet :: string where
  "alphabet = ''ABCDEFGHIJKLMNOPQRSTUVWXYZabcdefghijklmnopqrstuvwxyz0123456789+/''"

fun position :: "char \<Rightarrow> string \<Rightarrow> nat option" where
  "position c [] = None"
| "position c (d # ds) = (if d = c then Some 0 else map_option Suc (position c ds))"

definition sextet_char :: "nat \<Rightarrow> char" where
  "sextet_char n = alphabet ! n"

definition sextet_value :: "char \<Rightarrow> nat option" where
  "sextet_value c = position c alphabet"

fun EncodeToString :: "bytes \<Rightarrow> string" where
  "EncodeToString [] = []"
| "EncodeToString [a] =
     (let n = of_char a in [sextet_char (n div 4), sextet_char (n mod 4 * 16), CHR ''='', CHR ''=''])"
| "EncodeToString [a, b] =
     (let n = of_char a; m = of_char b
      in [sextet_char (n div 4), sextet_char (n mod 4 * 16 + m div 16), sextet_char (m mod 16 * 4), CHR ''=''])"
| "EncodeToString (a # b # c # bs) =
     (let n = of_char a; m = of_char b; k = of_char c
      in sextet_char (n div 4) # sextet_char (n mod 4 * 16 + m div 16) # sextet_char (m mod 16 * 4 + k div 64)
         # sextet_char (k mod 64) # EncodeToString bs)"

definition line_end :: "char \<Rightarrow> bool" where
  "line_end c \<longleftrightarrow> c = CHR 0x0A \<or> c = CHR 0x0D"

fun decode_quanta :: "string \<Rightarrow> bytes option" where
  "decode_quanta [] = Some []"
| "decode_quanta (p # q # r # s # cs) =
     (case (sextet_value p, sextet_value q, sextet_value r, sextet_value s) of
        (Some a, Some b, Some c, Some d) \<Rightarrow>
          map_option (\<lambda>bs. char_of (a * 4 + b div 16) # char_of (b mod 16 * 16 + c div 4) # char_of (c mod 4 * 64 + d) # bs)
            (decode_quanta cs)
      | (Some a, Some b, Some c, None) \<Rightarrow>
          if s = CHR ''='' \<and> cs = [] then Some [char_of (a * 4 + b div 16), char_of (b mod 16 * 16 + c div 4)] else None
      | (Some a, Some b, None, None) \<Rightarrow>
          if r = CHR ''='' \<and> s = CHR ''='' \<and> cs = [] then Some [char_of (a * 4 + b div 16)] else None
      | _ \<Rightarrow> None)"
| "decode_quanta _ = None"

definition DecodeString :: "string \<Rightarrow> bytes result" where
  "DecodeString s =
     (case decode_quanta (filter (\<lambda>c. \<not> line_end c) s) of
        None \<Rightarrow> Inl (Plain ''illegal base64 data'') | Some bs \<Rightarrow> Inr bs)"

subsection \<open>Round trip\<close>

lemma position_nth: "distinct cs \<Longrightarrow> n < length cs \<Longrightarrow> position (cs ! n) cs = Some n"
  by (induction cs arbitrary: n) (auto simp: nth_Cons split: nat.split)

lemma alphabet_facts: "distinct alphabet" "length alphabet = 64" "list_all (\<lambda>c. \<not> line_end c) alphabet"
  by (simp_all add: alphabet_def line_end_def)

lemma sextet_round [simp]:
  "n < 64 \<Longrightarrow> sextet_value (sextet_char n) = Some n" "n < 64 \<Longrightarrow> \<not> line_end (sextet_char n)"
  using position_nth [OF alphabet_facts(1)] alphabet_facts(2,3)
  by (simp_all add: sextet_char_def sextet_value_def list_all_iff)

lemma padding [simp]: "sextet_value CHR ''='' = None" "\<not> line_end CHR ''=''"
  by (simp_all add: sextet_value_def alphabet_def line_end_def)

text \<open>The sextets of one to three bytes, and the bytes back from them.\<close>

lemma byte_less: "of_char (a :: char) < (256 :: nat)"
proof -
  have "of_char a = (of_char (char_of (of_char a :: nat) :: char) :: nat)" by simp
  also have "\<dots> = (of_char a :: nat) mod 256" by (simp only: of_char_of)
  finally show ?thesis using mod_less_divisor [of 256 "of_char a :: nat"] by simp
qed

lemma byte_parts [simp]:
  "of_char (a :: char) div 4 < (64 :: nat)" "of_char a div 16 div 16 = (0 :: nat)"
  "of_char a div 64 div 4 = (0 :: nat)" "of_char a div 16 mod 16 = (of_char a div 16 :: nat)"
  "of_char a div 64 mod 4 = (of_char a div 64 :: nat)"
  using byte_less [of a] by (simp_all add: less_mult_imp_div_less div_mult2_eq [symmetric])

lemma sextet_bounds [simp]:
  "(n :: nat) mod 4 * 16 < 64" "(m :: nat) mod 16 * 4 < 64"
  "n mod 4 * 16 + of_char (b :: char) div 16 < (64 :: nat)" "m mod 16 * 4 + of_char (b :: char) div 64 < (64 :: nat)"
  using byte_less [of b] by linarith+

lemma decode_EncodeToString: "decode_quanta (EncodeToString bs) = Some bs"
  by (induction bs rule: EncodeToString.induct) (simp_all add: Let_def)

lemma encoded_no_line_end: "filter (\<lambda>c. \<not> line_end c) (EncodeToString bs) = EncodeToString bs"
  by (induction bs rule: EncodeToString.induct) (simp_all add: Let_def)

lemma DecodeString_EncodeToString: "DecodeString (EncodeToString bs) = Inr bs"
  by (simp add: DecodeString_def encoded_no_line_end decode_EncodeToString)


end
