(* ===== verification/Provisioning_Client.thy ===== *)
theory Provisioning_Client
  imports Runtime Base64 Go_Strings
begin

text \<open>
  \<^verbatim>\<open>internal/adapters/http/provisioning_client.go\<close>: the client of the provisioning service. Keys and
  certificate requests, the HTTP transport and the reading of one JSON value are libraries: parameters, in
  the record \<open>onboard_libs\<close>, that may answer anything. The number is the position in the world's history,
  since the same call may be answered differently later.
\<close>

record http_request =
  hq_method :: string
  hq_url :: string
  hq_ContentType :: string
  hq_body :: bytes

record http_reply =
  hr_StatusCode :: int
  hr_body :: bytes

record 'k onboard_libs =
  rsa_GenerateKey :: "nat \<Rightarrow> 'k result"
  MarshalPKCS1PrivateKey :: "'k \<Rightarrow> bytes"
  CreateCertificateRequest :: "nat \<Rightarrow> 'k \<Rightarrow> bytes result"
  pem_EncodeToMemory :: "string \<Rightarrow> bytes \<Rightarrow> bytes"
  parse_url :: "string \<Rightarrow> unit result"
  HTTPClient_Do :: "nat \<Rightarrow> http_request \<Rightarrow> http_reply result"
  first_json :: "bytes \<Rightarrow> json result"

record ProvisioningServiceClient =
  pc_BaseURL :: string

definition NewProvisioningServiceClient :: "string \<Rightarrow> ProvisioningServiceClient" where
  "NewProvisioningServiceClient baseURL = \<lparr>pc_BaseURL = baseURL\<rparr>"

subsection \<open>The request\<close>

record factoryCredentials =
  fc_FactoryID :: string
  fc_FactoryKey :: string

record onboardRequest =
  oq_Credentials :: factoryCredentials
  oq_CSR :: string
  oq_SendFrequencyMs :: int64
  oq_FirmwareVersion :: string

definition encode_onboardRequest :: "onboardRequest \<Rightarrow> json" where
  "encode_onboardRequest q =
     JObj [(''credentials'', JObj [(''factoryId'', JStr (fc_FactoryID (oq_Credentials q))),
                                   (''factoryKey'', JStr (fc_FactoryKey (oq_Credentials q)))]),
           (''csr'', JStr (oq_CSR q)), (''sendFrequencyMs'', JInt (sint (oq_SendFrequencyMs q))),
           (''firmwareVersion'', JStr (oq_FirmwareVersion q))]"

definition generateKeypairAndCSR :: "'k onboard_libs \<Rightarrow> nat \<Rightarrow> (bytes \<times> bytes) result" where
  "generateKeypairAndCSR K n =
     (case rsa_GenerateKey K n of
        Inl err \<Rightarrow> Inl (Wrap ''generate RSA key: '' err '''')
      | Inr privateKey \<Rightarrow>
          let keyPEM = pem_EncodeToMemory K ''RSA PRIVATE KEY'' (MarshalPKCS1PrivateKey K privateKey)
          in case CreateCertificateRequest K n privateKey of
               Inl err \<Rightarrow> Inl (Wrap ''create CSR: '' err '''')
             | Inr csrBytes \<Rightarrow> Inr (keyPEM, pem_EncodeToMemory K ''CERTIFICATE REQUEST'' csrBytes))"

subsection \<open>The response\<close>

record gatewayIdentity =
  gi_GatewayID :: string
  gi_TenantID :: string

record onboardResponse =
  or_CertPEM :: string
  or_AESKey :: string
  or_Identity :: gatewayIdentity
  or_SendFrequencyMs :: int64

definition identity_fields :: "gatewayIdentity field list" where
  "identity_fields =
     [(''gatewayId'', plain_field decode_string (\<lambda>v. gi_GatewayID_update (\<lambda>_. v))),
      (''tenantId'', plain_field decode_string (\<lambda>v. gi_TenantID_update (\<lambda>_. v)))]"

text \<open>A struct inside a struct: its members go into the value it has.\<close>

fun decode_identity :: "json \<Rightarrow> onboardResponse \<Rightarrow> onboardResponse result" where
  "decode_identity JNull r = Inr r"
| "decode_identity (JObj ms) r =
     map_sum id (\<lambda>i. r\<lparr>or_Identity := i\<rparr>) (decode_members identity_fields ms (or_Identity r) None)"
| "decode_identity j r = Inl (type_mismatch j ''http.gatewayIdentity'')"

definition onboard_response_fields :: "onboardResponse field list" where
  "onboard_response_fields =
     [(''certPem'', plain_field decode_string (\<lambda>v. or_CertPEM_update (\<lambda>_. v))),
      (''aesKey'', plain_field decode_string (\<lambda>v. or_AESKey_update (\<lambda>_. v))),
      (''identity'', decode_identity),
      (''sendFrequencyMs'', plain_field decode_int (\<lambda>v. or_SendFrequencyMs_update (\<lambda>_. v)))]"

definition decode_onboardResponse :: "'k onboard_libs \<Rightarrow> bytes \<Rightarrow> onboardResponse result" where
  "decode_onboardResponse K b =
     (case first_json K b of
        Inl err \<Rightarrow> Inl err
      | Inr j \<Rightarrow> decode_struct ''http.onboardResponse'' onboard_response_fields
          \<lparr>or_CertPEM = '''', or_AESKey = '''', or_Identity = \<lparr>gi_GatewayID = '''', gi_TenantID = ''''\<rparr>,
           or_SendFrequencyMs = 0\<rparr> (Some j))"

definition mapOnboardStatusError :: "int \<Rightarrow> string \<Rightarrow> go_error" where
  "mapOnboardStatusError statusCode responseText =
     (if statusCode = 409 \<or> statusCode = 401 then
        let base = Sentinel (if statusCode = 409 then ErrGatewayAlreadyProvisioned else ErrInvalidFactoryCredentials)
        in if responseText = '''' then base else Wrap '''' base ('': '' @ responseText)
      else Plain (''onboard request failed with status: '' @ fmt_d statusCode @
             (if responseText = '''' then '''' else '': '' @ responseText)))"

definition decodeBase64Key :: "string \<Rightarrow> bytes result" where
  "decodeBase64Key = DecodeString"

subsection \<open>The call\<close>

definition onboard_result ::
  "'k onboard_libs \<Rightarrow> bytes \<Rightarrow> http_reply \<Rightarrow> ProvisionResult result" where
  "onboard_result K keyPEM resp =
     (if hr_StatusCode resp < 200 \<or> 300 \<le> hr_StatusCode resp
      then Inl (mapOnboardStatusError (hr_StatusCode resp) (TrimSpace (hr_body resp)))
      else case decode_onboardResponse K (hr_body resp) of
             Inl err \<Rightarrow> Inl (Wrap ''decode onboard response: '' err '''')
           | Inr onboardResp \<Rightarrow>
               (case decodeBase64Key (or_AESKey onboardResp) of
                  Inl err \<Rightarrow> Inl (Wrap ''decode AES key: '' err '''')
                | Inr aesKeyBytes \<Rightarrow>
                    (case NewEncryptionKey aesKeyBytes of
                       Inl err \<Rightarrow> Inl (Wrap ''create encryption key: '' err '''')
                     | Inr encKey \<Rightarrow> Inr
                         \<lparr>pr_CertPEM = or_CertPEM onboardResp, pr_PrivateKeyPEM = keyPEM, pr_AESKey = encKey,
                          pr_GatewayID = gi_GatewayID (or_Identity onboardResp),
                          pr_TenantID = gi_TenantID (or_Identity onboardResp),
                          pr_SendFrequencyMs = or_SendFrequencyMs onboardResp\<rparr>)))"

definition onboard_request ::
  "'x libs_scheme \<Rightarrow> ProvisioningServiceClient \<Rightarrow> bytes \<Rightarrow> string \<Rightarrow> string \<Rightarrow> int64 \<Rightarrow> string \<Rightarrow> http_request" where
  "onboard_request L c csrPEM factoryID factoryKey sendFrequencyMs firmwareVersion =
     \<lparr>hq_method = ''POST'', hq_url = pc_BaseURL c @ ''/api/provision/onboard'',
      hq_ContentType = ''application/json'',
      hq_body = json_text L (encode_onboardRequest
        \<lparr>oq_Credentials = \<lparr>fc_FactoryID = factoryID, fc_FactoryKey = factoryKey\<rparr>, oq_CSR = csrPEM,
         oq_SendFrequencyMs = sendFrequencyMs, oq_FirmwareVersion = firmwareVersion\<rparr>)\<rparr>"

text \<open>The encoding of the request cannot fail: it holds strings and a whole number.\<close>

definition Onboard ::
  "'x libs_scheme \<Rightarrow> 'k onboard_libs \<Rightarrow> ProvisioningServiceClient \<Rightarrow> nat
     \<Rightarrow> string \<Rightarrow> string \<Rightarrow> int64 \<Rightarrow> string \<Rightarrow> ProvisionResult result" where
  "Onboard L K c n factoryID factoryKey sendFrequencyMs firmwareVersion =
     (case generateKeypairAndCSR K n of
        Inl err \<Rightarrow> Inl (Wrap ''generate keypair and CSR: '' err '''')
      | Inr (keyPEM, csrPEM) \<Rightarrow>
          let rq = onboard_request L c csrPEM factoryID factoryKey sendFrequencyMs firmwareVersion
          in case parse_url K (hq_url rq) of
               Inl err \<Rightarrow> Inl (Wrap ''create onboard request: '' err '''')
             | Inr _ \<Rightarrow>
                 (case HTTPClient_Do K n rq of
                    Inl err \<Rightarrow> Inl (Wrap ''send onboard request: '' err '''')
                  | Inr resp \<Rightarrow> onboard_result K keyPEM resp))"

subsection \<open>What a caller gets\<close>

lemma mapOnboardStatusError_is:
  "err_is (mapOnboardStatusError c t) ErrGatewayAlreadyProvisioned \<longleftrightarrow> c = 409"
  "err_is (mapOnboardStatusError c t) ErrInvalidFactoryCredentials \<longleftrightarrow> c = 401"
  "s \<notin> {ErrGatewayAlreadyProvisioned, ErrInvalidFactoryCredentials} \<Longrightarrow> \<not> err_is (mapOnboardStatusError c t) s"
  by (auto simp: mapOnboardStatusError_def Let_def)

text \<open>A result exists for a reply in the 200s with a key of 32 bytes only.\<close>

lemma onboard_result_ok:
  assumes "onboard_result K keyPEM resp = Inr res"
  shows "200 \<le> hr_StatusCode resp" and "hr_StatusCode resp < 300" and "length (key_value (pr_AESKey res)) = 32"
    and "pr_PrivateKeyPEM res = keyPEM"
  using assms by (auto simp: onboard_result_def NewEncryptionKey_def split: if_splits sum.splits)

lemma Onboard_key:
  assumes "Onboard L K c n fid fkey freq v = Inr res"
  shows "length (key_value (pr_AESKey res)) = 32"
  using assms onboard_result_ok(3) by (fastforce simp: Onboard_def Let_def split: sum.splits prod.splits)

text \<open>The oracle of the registry's environment for provisioning, when it is this client.\<close>

definition client_oracle ::
  "'x libs_scheme \<Rightarrow> 'k onboard_libs \<Rightarrow> ProvisioningServiceClient
     \<Rightarrow> nat \<Rightarrow> string \<Rightarrow> string \<Rightarrow> int64 \<Rightarrow> string \<Rightarrow> ProvisionResult result" where
  "client_oracle L K c n = Onboard L K c n"

end
