(* ===== verification/Api_Properties.thy ===== *)
theory Api_Properties
  imports Http_Facts Provisioning_Client Registry_Properties
begin

text \<open>
  The properties of the HTTP API: of the handlers over any services, and of the API over the registry and the
  SQLite store.
\<close>

subsection \<open>Over any services\<close>

text \<open>
  C23: whatever the services do, a request is answered with one of ten statuses, and one that is answered with 400
  or 405, or whose path no route matches, has not changed their state.
\<close>

theorem bad_request_changes_nothing:
  assumes "serve L A m path content r = Return (resp, r')"
  shows "rs_status resp \<in> {200, 201, 204, 207, 400, 401, 404, 405, 409, 500} \<and>
    (rs_status resp \<in> {400, 405} \<or> (\<forall>(n, ps, ep) \<in> set routes. \<not> path_matches ps path) \<longrightarrow> r' = r)"
proof -
  have "r' = r" if "\<forall>(n, ps, ep) \<in> set routes. \<not> path_matches ps path"
  proof -
    from that have "List.find (\<lambda>(m', ps, _). m' = m \<and> path_matches ps path) routes = None"
      by (force simp: find_None_iff)
    with assms show ?thesis by (simp add: serve_def)
  qed
  with serve_refuses [of L A m path content r] serve_status [of L A m path content r] assms
  show ?thesis by (auto simp: refuses_cleanly_def refused_def answers_within_def api_statuses_def)
qed

definition ex_api :: "SQLiteGatewayStore GatewayRegistry api" where
  "ex_api = registry_api ex_libs (sqlite_ops ex_libs) (\<lambda>n. [0..<n])"

lemma bad_request_changes_nothing_witness:
  "\<exists>resp. serve ex_libs ex_api ''POST'' [''sim'', ''gateways'', ''x'', ''start''] (Inr JNull) (ex_registry ex_env) =
     Return (resp, ex_registry ex_env) \<and> rs_status resp = 400"
proof -
  obtain resp r' where s: "serve ex_libs ex_api ''POST'' [''sim'', ''gateways'', ''x'', ''start''] (Inr JNull) (ex_registry ex_env) =
      Return (resp, r') \<and> rs_status resp = 400"
    by (simp add: serve_def routes_def Let_def gateway_Start_def gateway_transition_def ex_libs_def ex_uuid_Parse_def
        digit_value_def)
  with bad_request_changes_nothing [of ex_libs ex_api _ _ _ _ resp r'] show ?thesis by auto
qed

text \<open>
  The services that are not told the factory key of a request, and what is left of a body when its factory key is
  taken out after decoding.
\<close>

definition unkeyed_lifecycle :: "'r GatewayLifecycleService \<Rightarrow> 'r GatewayLifecycleService" where
  "unkeyed_lifecycle svc = svc\<lparr>
     ls_CreateAndStart := (\<lambda>req. ls_CreateAndStart svc (req\<lparr>cr_FactoryKey := ''''\<rparr>)),
     ls_BulkCreateGateways := (\<lambda>req. ls_BulkCreateGateways svc (req\<lparr>br_FactoryKey := ''''\<rparr>))\<rparr>"

definition unkeyed_create :: "json result \<Rightarrow> CreateGatewayRequest result" where
  "unkeyed_create content =
     map_sum id (\<lambda>req. req\<lparr>cr_FactoryKey := ''''\<rparr>) (decode_CreateGatewayRequest \<lparr>rq_id = '''', rq_body = content\<rparr>)"

definition unkeyed_bulk :: "json result \<Rightarrow> BulkCreateRequest result" where
  "unkeyed_bulk content =
     map_sum id (\<lambda>req. req\<lparr>br_FactoryKey := ''''\<rparr>) (decode_BulkCreateRequest \<lparr>rq_id = '''', rq_body = content\<rparr>)"

lemma create_unkeyed:
  assumes "unkeyed_create content = unkeyed_create content'"
  shows "gateway_Create L (unkeyed_lifecycle svc) \<lparr>rq_id = '''', rq_body = content\<rparr> r =
    gateway_Create L (unkeyed_lifecycle svc) \<lparr>rq_id = '''', rq_body = content'\<rparr> r"
  using assms
  by (cases "decode_CreateGatewayRequest \<lparr>rq_id = '''', rq_body = content\<rparr>";
      cases "decode_CreateGatewayRequest \<lparr>rq_id = '''', rq_body = content'\<rparr>")
    (simp_all add: unkeyed_create_def gateway_Create_def unkeyed_lifecycle_def)

lemma bulk_unkeyed:
  assumes "unkeyed_bulk content = unkeyed_bulk content'"
  shows "gateway_BulkCreate L (unkeyed_lifecycle svc) \<lparr>rq_id = '''', rq_body = content\<rparr> r =
    gateway_BulkCreate L (unkeyed_lifecycle svc) \<lparr>rq_id = '''', rq_body = content'\<rparr> r"
proof (cases "decode_BulkCreateRequest \<lparr>rq_id = '''', rq_body = content\<rparr>")
  case (Inl err)
  with assms show ?thesis
    by (cases "decode_BulkCreateRequest \<lparr>rq_id = '''', rq_body = content'\<rparr>") (simp_all add: unkeyed_bulk_def gateway_BulkCreate_def)
next
  case (Inr req)
  with assms obtain req' where req': "decode_BulkCreateRequest \<lparr>rq_id = '''', rq_body = content'\<rparr> = Inr req'"
    and same: "req\<lparr>br_FactoryKey := ''''\<rparr> = req'\<lparr>br_FactoryKey := ''''\<rparr>"
    by (cases "decode_BulkCreateRequest \<lparr>rq_id = '''', rq_body = content'\<rparr>") (simp_all add: unkeyed_bulk_def)
  from same have ids: "br_FactoryIDs req = br_FactoryIDs req'"
    by (cases req; cases req') simp
  have "req\<lparr>br_FactoryIDs := x, br_FactoryKey := ''''\<rparr> = req'\<lparr>br_FactoryIDs := x, br_FactoryKey := ''''\<rparr>" for x
    using same by (cases req; cases req') simp
  then show ?thesis using Inr req' ids by (simp add: gateway_BulkCreate_def unkeyed_lifecycle_def Let_def)
qed

text \<open>
  C25: no response shows a secret of a gateway that a service handed to the API: with a service that blanks out factory
  keys, certificates, private keys and encryption keys, every request gets the same response and
  leaves the same state. Nor does the API itself show the factory key of a request: when the services are not told it, two
  bodies that differ in it only get the same response from a creation and from a bulk creation. The text
  of a service's error is passed on as it is and is not covered.
\<close>

theorem responses_hide_secrets:
  assumes "unkeyed_create body1 = unkeyed_create body2" and "unkeyed_bulk bulk1 = unkeyed_bulk bulk2"
  shows "serve L (A\<lparr>api_lifecycle := redacted_lifecycle (api_lifecycle A)\<rparr>) m path content r = serve L A m path content r \<and>
    serve L (A\<lparr>api_lifecycle := unkeyed_lifecycle (api_lifecycle A)\<rparr>) ''POST'' [''sim'', ''gateways''] body1 r =
      serve L (A\<lparr>api_lifecycle := unkeyed_lifecycle (api_lifecycle A)\<rparr>) ''POST'' [''sim'', ''gateways''] body2 r \<and>
    serve L (A\<lparr>api_lifecycle := unkeyed_lifecycle (api_lifecycle A)\<rparr>) ''POST'' [''sim'', ''gateways'', ''bulk''] bulk1 r =
      serve L (A\<lparr>api_lifecycle := unkeyed_lifecycle (api_lifecycle A)\<rparr>) ''POST'' [''sim'', ''gateways'', ''bulk''] bulk2 r"
proof (intro conjI)
  show "serve L (A\<lparr>api_lifecycle := redacted_lifecycle (api_lifecycle A)\<rparr>) m path content r = serve L A m path content r"
    by (simp add: serve_def handle_redacted split: option.split)
qed (simp_all add: serve_def routes_def Let_def create_unkeyed [OF assms(1)] bulk_unkeyed [OF assms(2)])

lemma responses_hide_secrets_witness:
  "\<forall>k k'. serve ex_libs (ex_api\<lparr>api_lifecycle := unkeyed_lifecycle (api_lifecycle ex_api)\<rparr>) ''POST'' [''sim'', ''gateways'']
      (Inr (JObj [(''factoryId'', JStr ''7''), (''factoryKey'', JStr k)])) (ex_registry ex_env) =
    serve ex_libs (ex_api\<lparr>api_lifecycle := unkeyed_lifecycle (api_lifecycle ex_api)\<rparr>) ''POST'' [''sim'', ''gateways'']
      (Inr (JObj [(''factoryId'', JStr ''7''), (''factoryKey'', JStr k')])) (ex_registry ex_env)"
proof (intro allI)
  fix k k' :: string
  have "unkeyed_create (Inr (JObj [(''factoryId'', JStr ''7''), (''factoryKey'', JStr k)])) =
      unkeyed_create (Inr (JObj [(''factoryId'', JStr ''7''), (''factoryKey'', JStr k')]))"
    by (simp add: unkeyed_create_def decode_CreateGatewayRequest_def decode_body_def decode_struct_def
        create_request_fields_def find_field_def plain_field_def)
  from responses_hide_secrets [OF this refl, THEN conjunct2, THEN conjunct1]
  show "serve ex_libs (ex_api\<lparr>api_lifecycle := unkeyed_lifecycle (api_lifecycle ex_api)\<rparr>) ''POST'' [''sim'', ''gateways'']
      (Inr (JObj [(''factoryId'', JStr ''7''), (''factoryKey'', JStr k)])) (ex_registry ex_env) =
    serve ex_libs (ex_api\<lparr>api_lifecycle := unkeyed_lifecycle (api_lifecycle ex_api)\<rparr>) ''POST'' [''sim'', ''gateways'']
      (Inr (JObj [(''factoryId'', JStr ''7''), (''factoryKey'', JStr k')])) (ex_registry ex_env)" .
qed

subsection \<open>Over the registry and the store\<close>

text \<open>
  C6: a bulk creation over the registry, with its goroutines in any order: the response has one gateway, with
  that factory id, or one error for each id that is not blank, in the order of the ids; it is 207 exactly
  if there is an error; exactly one worker was added for each id without an error; and the registry is
  consistent.
\<close>

theorem bulk_creation_answers_every_id:
  assumes "registry_ok (sqlite_gws L) (sqlite_ok L) r"
    and "\<And>n. distinct (schedule n) \<and> set (schedule n) = {..<n}"
    and "decode_BulkCreateRequest \<lparr>rq_id = '''', rq_body = content\<rparr> = Inr req"
    and "sanitizeFactoryIDs (br_FactoryIDs req) \<noteq> []"
    and "serve L (registry_api L (sqlite_ops L) schedule) ''POST'' [''sim'', ''gateways'', ''bulk''] content r = Return (resp, r')"
  shows "\<exists>gws errs. resp = bulk_response L gws errs \<and>
    length gws = length (sanitizeFactoryIDs (br_FactoryIDs req)) \<and> length errs = length gws \<and>
    list_all2 (\<lambda>gw err. gw = None \<longleftrightarrow> err \<noteq> None) gws errs \<and>
    list_all2 (\<lambda>fid gw. gw = None \<or> map_option gw_FactoryID gw = Some fid) (sanitizeFactoryIDs (br_FactoryIDs req)) gws \<and>
    rs_status resp = (if filter (\<lambda>err. err \<noteq> None) errs = [] then 201 else 207) \<and>
    length (rg_workers r') = length (rg_workers r) + length (filter (\<lambda>err. err = None) errs) \<and>
    registry_ok (sqlite_gws L) (sqlite_ok L) r'"
proof -
  let ?ids = "sanitizeFactoryIDs (br_FactoryIDs req)" and ?req = "req\<lparr>br_FactoryIDs := sanitizeFactoryIDs (br_FactoryIDs req)\<rparr>"
  have ids: "resolveBulkFactoryIDs ?ids = ?ids" by (simp add: sanitize_resolve resolve_idem)
  from assms(3-5) ids obtain slots where
    b: "BulkCreateGateways L (sqlite_ops L) (schedule (length ?ids)) ?req r = Return (slots, r')"
    and resp: "resp = bulk_response L (map slot_gateway slots) (map slot_error slots)"
    by (auto simp: serve_def routes_def Let_def gateway_BulkCreate_def registry_api_def registry_lifecycle_def
        go_bind_eq_Return)
  have sch: "distinct (schedule (length ?ids))" "set (schedule (length ?ids)) = {..<length (resolveBulkFactoryIDs (br_FactoryIDs ?req))}"
    using assms(2) ids by simp_all
  note ok = sqlite.bulk_create_ok [OF b assms(1) sch]
  have filled: "\<forall>slot \<in> set slots. slot \<noteq> None" and len: "length slots = length ?ids"
    and workers: "length (rg_workers r') = length (rg_workers r) + length (filter (\<lambda>slot. slot_error slot = None) slots)"
    and rok: "registry_ok (sqlite_gws L) (sqlite_ok L) r'"
    and fids: "list_all2 (\<lambda>fid slot. \<forall>g. slot_gateway slot = Some g \<longrightarrow> gw_FactoryID g = fid) ?ids slots"
    using ok ids by auto
  from fids have "list_all2 (\<lambda>fid gw. gw = None \<or> map_option gw_FactoryID gw = Some fid) ?ids (map slot_gateway slots)"
    by (auto simp: list_all2_conv_all_nth)
  moreover
  have each: "slot_gateway slot = None \<longleftrightarrow> slot_error slot \<noteq> None" if "slot \<noteq> None" for slot
    using that by (cases slot rule: slot_gateway.cases) auto
  have "list_all2 (\<lambda>gw err. gw = None \<longleftrightarrow> err \<noteq> None) (map slot_gateway slots) (map slot_error slots)"
    using filled each by (simp add: list.rel_map list_all2_same)
  moreover have "list_ex (\<lambda>err. err \<noteq> None) (map slot_error slots) \<longleftrightarrow> filter (\<lambda>err. err \<noteq> None) (map slot_error slots) \<noteq> []"
    by (auto simp: list_ex_iff filter_empty_conv)
  then have "rs_status resp = (if filter (\<lambda>err. err \<noteq> None) (map slot_error slots) = [] then 201 else 207)"
    by (simp add: resp bulk_response_def Let_def)
  moreover have "length (filter (\<lambda>err. err = None) (map slot_error slots)) = length (filter (\<lambda>slot. slot_error slot = None) slots)"
    by (simp add: filter_map comp_def)
  ultimately show ?thesis
    using resp len workers rok
    by (intro exI [of _ "map slot_gateway slots"] exI [of _ "map slot_error slots"]) simp
qed

definition ex_bulk :: json where
  "ex_bulk = JObj [(''factoryIds'', JArr [JStr ''7'', JStr '' '', JStr ''8'']), (''factoryKey'', JStr ''fk'')]"

lemma ex_bulk_decoded:
  "decode_BulkCreateRequest \<lparr>rq_id = '''', rq_body = Inr ex_bulk\<rparr> = Inr
     \<lparr>br_FactoryIDs = [''7'', '' '', ''8''], br_FactoryKey = ''fk'', br_Model = '''', br_FirmwareVersion = '''',
      br_SendFrequencyMs = 0\<rparr>" and
  ex_bulk_ids: "sanitizeFactoryIDs [''7'', '' '', ''8''] = [''7'', ''8'']"
  by code_simp+

lemma ex_bulk_returns:
  "returns (BulkCreateGateways ex_libs (sqlite_ops ex_libs) [1, 0]
     \<lparr>br_FactoryIDs = [''7'', ''8''], br_FactoryKey = ''fk'', br_Model = '''', br_FirmwareVersion = '''',
      br_SendFrequencyMs = 0\<rparr> (ex_registry ex_env))"
  by code_simp

lemma bulk_creation_answers_every_id_witness:
  "\<exists>resp r' gws errs. serve ex_libs (registry_api ex_libs (sqlite_ops ex_libs) (\<lambda>n. rev [0..<n]))
      ''POST'' [''sim'', ''gateways'', ''bulk''] (Inr ex_bulk) (ex_registry ex_env) = Return (resp, r') \<and>
    resp = bulk_response ex_libs gws errs \<and> length gws = 2 \<and>
    length (rg_workers r') = length (filter (\<lambda>err. err = None) errs)"
proof -
  let ?L = ex_libs and ?A = "registry_api ex_libs (sqlite_ops ex_libs) (\<lambda>n. rev [0..<n])"
  have ids: "resolveBulkFactoryIDs [''7'', ''8''] = [''7'', ''8'']" by code_simp
  have two: "rev [0..<2] = [1, 0 :: nat]" by (simp add: upt_rec)
  from ex_bulk_returns obtain slots r' where
    "BulkCreateGateways ex_libs (sqlite_ops ex_libs) [1, 0]
      \<lparr>br_FactoryIDs = [''7'', ''8''], br_FactoryKey = ''fk'', br_Model = '''', br_FirmwareVersion = '''',
       br_SendFrequencyMs = 0\<rparr> (ex_registry ex_env) = Return (slots, r')"
    unfolding returns_iff by fastforce
  then obtain resp r' where s: "serve ?L ?A ''POST'' [''sim'', ''gateways'', ''bulk''] (Inr ex_bulk) (ex_registry ex_env) =
      Return (resp, r')"
    by (simp add: serve_def routes_def Let_def gateway_BulkCreate_def registry_api_def registry_lifecycle_def
        ex_bulk_decoded ex_bulk_ids ids two)
  have p: "distinct (rev [0..<n]) \<and> set (rev [0..<n]) = {..<n}" for n by (simp add: atLeast0LessThan)
  have ne: "sanitizeFactoryIDs (br_FactoryIDs \<lparr>br_FactoryIDs = [''7'', '' '', ''8''], br_FactoryKey = ''fk'',
      br_Model = '''', br_FirmwareVersion = '''', br_SendFrequencyMs = 0\<rparr>) \<noteq> []" by (simp add: ex_bulk_ids)
  have none: "rg_workers (ex_registry ex_env) = []" by (simp add: ex_registry_def NewGatewayRegistry_def)
  from bulk_creation_answers_every_id [OF ex_registry_ok [OF ex_env_lawful(1)] p ex_bulk_decoded ne s]
  obtain gws errs where "resp = bulk_response ex_libs gws errs" "length gws = 2"
    "length (rg_workers r') = length (filter (\<lambda>err. err = None) errs)"
    by (auto simp: ex_bulk_ids none)
  with s show ?thesis by blast
qed

lemma InjectDisconnect_returns: "returns (InjectDisconnect L (registry_control L ops) rq r)"
  by (auto simp: InjectDisconnect_def registry_control_def Let_def split: option.split sum.split prod.split)

text \<open>
  C24: a request to disconnect a registered gateway for a positive number of seconds is answered 204 and has put
  exactly that command at the end of that worker's queue of anomalies; with a full queue it is answered 500,
  with a number of seconds that is not positive 400, and nothing has changed.
\<close>

theorem disconnect_request_queues_one_command:
  assumes "uuid_Parse L seg = Some u" and "map_of (rg_workers r) u = Some w"
    and "min_int64 \<le> d" and "d \<le> max_int64"
    and "serve L (registry_api L ops schedule) ''POST'' [''sim'', ''gateways'', seg, ''anomaly'', ''disconnect'']
      (Inr (JObj [(''duration_seconds'', JInt d)])) r = Return (resp, r')"
  shows "if d \<le> 0 then rs_status resp = 400 \<and> r' = r
    else if length (ch_buf (w_anomalyCh w)) < ch_cap (w_anomalyCh w)
    then rs_status resp = 204 \<and> r' = r\<lparr>rg_workers := map_put u (w\<lparr>w_anomalyCh := Chan (ch_cap (w_anomalyCh w))
      (ch_buf (w_anomalyCh w) @ [\<lparr>ac_Type = Disconnect, ac_NetworkDegradation = None,
         ac_Disconnect = Some \<lparr>dc_DurationSeconds = of_int d\<rparr>\<rparr>])\<rparr>) (rg_workers r)\<rparr>
    else rs_status resp = 500 \<and> r' = r"
proof -
  have d: "sint (of_int d :: int64) = d" using assms(3,4) by (rule sint_of_int64)
  have j: "decode_body ''struct'' disconnect_fields \<lparr>dc_DurationSeconds = 0\<rparr>
      \<lparr>rq_id = seg, rq_body = Inr (JObj [(''duration_seconds'', JInt d)])\<rparr> = Inr \<lparr>dc_DurationSeconds = of_int d\<rparr>"
    using assms(3,4)
    by (simp add: decode_body_def decode_struct_def disconnect_fields_def find_field_def plain_field_def)
  from assms(5) have "InjectDisconnect L (registry_control L ops)
      \<lparr>rq_id = seg, rq_body = Inr (JObj [(''duration_seconds'', JInt d)])\<rparr> r = Return (resp, r')"
    by (simp add: serve_def routes_def Let_def registry_api_def)
  then show ?thesis
    using assms(1,2) d
    by (auto simp: InjectDisconnect_def j registry_control_def InjectGatewayAnomaly_def try_send_def writeError_def
        Let_def split: if_splits)
qed

lemma disconnect_request_queues_one_command_witness:
  "\<exists>resp r' w. serve ex_libs ex_api ''POST'' [''sim'', ''gateways'', ''7'', ''anomaly'', ''disconnect'']
      (Inr (JObj [(''duration_seconds'', JInt 30)])) ((ex_registry ex_env)\<lparr>rg_workers := [(7, ex_worker)]\<rparr>) = Return (resp, r') \<and>
    rs_status resp = 204 \<and> map_of (rg_workers r') 7 = Some w \<and> map ac_Type (ch_buf (w_anomalyCh w)) = [Disconnect]"
proof -
  let ?r = "(ex_registry ex_env)\<lparr>rg_workers := [(7, ex_worker)]\<rparr>" and ?c = "Inr (JObj [(''duration_seconds'', JInt 30)])"
  have u: "uuid_Parse ex_libs ''7'' = Some 7" by (simp add: ex_libs_def ex_uuid_Parse_def digit_value_def)
  have w: "map_of (rg_workers ?r) 7 = Some ex_worker" by simp
  have d: "min_int64 \<le> 30" "30 \<le> max_int64" by simp_all
  have "returns (serve ex_libs ex_api ''POST'' [''sim'', ''gateways'', ''7'', ''anomaly'', ''disconnect''] ?c ?r)"
    using InjectDisconnect_returns by (simp add: serve_def routes_def Let_def ex_api_def registry_api_def)
  then obtain resp r' where s: "serve ex_libs ex_api ''POST'' [''sim'', ''gateways'', ''7'', ''anomaly'', ''disconnect''] ?c ?r =
      Return (resp, r')" unfolding returns_iff by fastforce
  from disconnect_request_queues_one_command [OF u w d s [unfolded ex_api_def]] s show ?thesis
    by (auto simp: ex_worker_def NewGatewayWorker_def make_chan_def)
qed

text \<open>
  C7: if the provisioning service answers 409 (already provisioned) or 401 (invalid credentials), then so does
  the API when a gateway is created; no worker, connection, subscription or row is left of the attempt, and one
  provisioning error is counted.
\<close>

theorem refused_provisioning_is_reported:
  assumes "registry_ok (sqlite_gws L) (sqlite_ok L) r" and "env_onboard (rg_env r) = client_oracle L K c"
    and "\<And>n. \<not> isl (generateKeypairAndCSR K n)" and "parse_url K (pc_BaseURL c @ ''/api/provision/onboard'') = Inr ()"
    and "\<And>n rq. \<exists>b. HTTPClient_Do K n rq = Inr \<lparr>hr_StatusCode = code, hr_body = b\<rparr>" and "code = 409 \<or> code = 401"
    and "decode_CreateGatewayRequest \<lparr>rq_id = '''', rq_body = content\<rparr> = Inr req"
    and "serve L (registry_api L (sqlite_ops L) schedule) ''POST'' [''sim'', ''gateways''] content r = Return (resp, r')"
  shows "int (rs_status resp) = code \<and> rg_workers r' = rg_workers r \<and> rg_conns r' = rg_conns r \<and> rg_subs r' = rg_subs r \<and>
    rg_store r' = rg_store r \<and> ProvisioningErrors (rg_metrics r') = Suc (ProvisioningErrors (rg_metrics r))"
proof -
  obtain n e where now: "registry_Now r = (n, r\<lparr>rg_env := e\<rparr>)" and e: "env_onboard e = client_oracle L K c"
    using assms(2) by (auto simp: registry_Now_def clock_Now_def)
  have refused: "\<exists>err. Onboard L K c m fid fkey freq v = Inl err \<and>
      err_is err (if code = 409 then ErrGatewayAlreadyProvisioned else ErrInvalidFactoryCredentials)" for m fid fkey freq v
  proof -
    obtain pem csr where k: "generateKeypairAndCSR K m = Inr (pem, csr)"
      using assms(3) [of m] by (cases "generateKeypairAndCSR K m") auto
    obtain b where h: "HTTPClient_Do K m (onboard_request L c csr fid fkey freq v) = Inr \<lparr>hr_StatusCode = code, hr_body = b\<rparr>"
      using assms(5) by blast
    have "Onboard L K c m fid fkey freq v = Inl (mapOnboardStatusError code (TrimSpace b))"
      using k h assms(4,6) by (auto simp: Onboard_def onboard_request_def onboard_result_def Let_def)
    with mapOnboardStatusError_is(1,2) [of code "TrimSpace b"] assms(6) show ?thesis by auto
  qed
  obtain err where o: "Onboard L K c (env_pos e) (cr_FactoryID req) (cr_FactoryKey req)
      (if sint (cr_SendFrequencyMs req) \<le> 0 then cf_DefaultSendFrequencyMs (rg_cfg r) else cr_SendFrequencyMs req)
      (cr_FirmwareVersion req) = Inl err"
    and err: "err_is err (if code = 409 then ErrGatewayAlreadyProvisioned else ErrInvalidFactoryCredentials)"
    using refused by blast
  have requested: "Onboard L K c (env_pos e) (gw_FactoryID g) (gw_FactoryKey g) (gw_SendFrequencyMs g) (gw_FirmwareVersion g) =
      Inl err" if "g = requested_gateway (rg_cfg r) req n" for g n
    using o by (simp add: that requested_gateway_def Let_def split del: if_split)
  have c: "CreateAndStart L (sqlite_ops L) req r =
      Return (Inl (Wrap ''onboard: '' err ''''), inc_errors (r\<lparr>rg_env := env_tick e\<rparr>))"
    using requested now e
    by (simp add: CreateAndStart_def runProvisioningSaga_def provisioner_Onboard_def client_oracle_def Let_def)
  have "resp = writeError (Wrap ''onboard: '' err '''')" "r' = inc_errors (r\<lparr>rg_env := env_tick e\<rparr>)"
    using assms(7,8) c
    by (auto simp: serve_def routes_def Let_def registry_api_def registry_lifecycle_def gateway_Create_def)
  with err assms(6) err_is_unique [of err] show ?thesis by (auto simp: writeError_def)
qed

text \<open>A provisioning service that answers every request with the given status.\<close>

definition ex_onboard_libs :: "int \<Rightarrow> unit onboard_libs" where
  "ex_onboard_libs code =
     \<lparr>rsa_GenerateKey = (\<lambda>_. Inr ()), MarshalPKCS1PrivateKey = (\<lambda>_. ''k''),
      CreateCertificateRequest = (\<lambda>_ _. Inr ''csr''), pem_EncodeToMemory = (\<lambda>t b. t @ b), parse_url = (\<lambda>_. Inr ()),
      HTTPClient_Do = (\<lambda>_ _. Inr \<lparr>hr_StatusCode = code, hr_body = ''no''\<rparr>), first_json = (\<lambda>_. Inr JNull)\<rparr>"

definition ex_client_env :: "int \<Rightarrow> env" where
  "ex_client_env code =
     ex_env\<lparr>env_onboard := client_oracle ex_libs (ex_onboard_libs code) (NewProvisioningServiceClient ''https://p'')\<rparr>"

lemma client_oracle_lawful: "onboard_lawful (e\<lparr>env_onboard := client_oracle L K c\<rparr>)"
  by (auto simp: onboard_lawful_def client_oracle_def key_ok_def dest: Onboard_key)

definition ex_create_body :: "json result" where
  "ex_create_body = Inr (JObj [(''factoryId'', JStr ''7'')])"

lemma ex_create_decoded:
  "decode_CreateGatewayRequest \<lparr>rq_id = '''', rq_body = ex_create_body\<rparr> = Inr
     \<lparr>cr_FactoryID = ''7'', cr_FactoryKey = '''', cr_Model = '''', cr_FirmwareVersion = '''', cr_SendFrequencyMs = 0\<rparr>"
  by code_simp

lemma refused_provisioning_is_reported_witness:
  "\<exists>resp r'. serve ex_libs ex_api ''POST'' [''sim'', ''gateways''] ex_create_body (ex_registry (ex_client_env 409)) =
      Return (resp, r') \<and> rs_status resp = 409 \<and> rg_conns r' = 0 \<and> ProvisioningErrors (rg_metrics r') = 1"
proof -
  let ?r = "ex_registry (ex_client_env 409)"
  have ok: "registry_ok (sqlite_gws ex_libs) (sqlite_ok ex_libs) ?r"
    unfolding ex_client_env_def by (rule ex_registry_ok [OF client_oracle_lawful])
  have env: "env_onboard (rg_env ?r) =
      client_oracle ex_libs (ex_onboard_libs 409) (NewProvisioningServiceClient ''https://p'')"
    by (simp add: ex_registry_def NewGatewayRegistry_def ex_client_env_def)
  have k: "\<not> isl (generateKeypairAndCSR (ex_onboard_libs 409) n)" for n
    by (simp add: generateKeypairAndCSR_def ex_onboard_libs_def Let_def)
  have p: "parse_url (ex_onboard_libs 409) u = Inr ()" for u by (simp add: ex_onboard_libs_def)
  have h: "\<exists>b. HTTPClient_Do (ex_onboard_libs 409) n rq = Inr \<lparr>hr_StatusCode = 409, hr_body = b\<rparr>" for n rq
    by (simp add: ex_onboard_libs_def)
  have "returns (serve ex_libs ex_api ''POST'' [''sim'', ''gateways''] ex_create_body ?r)"
    by (simp add: serve_def routes_def Let_def ex_api_def registry_api_def registry_lifecycle_def gateway_Create_def
        ex_create_decoded CreateAndStart_def runProvisioningSaga_def provisioner_Onboard_def registry_Now_def clock_Now_def
        ex_registry_def NewGatewayRegistry_def ex_client_env_def client_oracle_def Onboard_def generateKeypairAndCSR_def
        ex_onboard_libs_def onboard_result_def)
  then obtain resp r' where s: "serve ex_libs ex_api ''POST'' [''sim'', ''gateways''] ex_create_body ?r = Return (resp, r')"
    unfolding returns_iff by fastforce
  from refused_provisioning_is_reported [OF ok env k p h _ ex_create_decoded s [unfolded ex_api_def]] s
  show ?thesis by (auto simp: ex_registry_def NewGatewayRegistry_def NewMetrics_def)
qed

end
