(* ===== verification/Decommission_Listener.thy ===== *)
theory Decommission_Listener
  imports Driving_Ports Go_Strings
begin

text \<open>
  \<^verbatim>\<open>internal/adapters/nats/decommission_listener.go\<close>: the subject of an event names the tenant and the
  gateway. The receiver (\<^verbatim>\<open>ports.DecommissionEventReceiver\<close>) is any operation on a state; the registry's
  \<^verbatim>\<open>HandleDecommission\<close> is the one the simulator installs. Every message is acknowledged.
\<close>

type_synonym 'r DecommissionEventReceiver = "string \<Rightarrow> string \<Rightarrow> 'r \<Rightarrow> 'r"

definition registry_receiver :: "'x libs_scheme \<Rightarrow> 's store_ops \<Rightarrow> 's GatewayRegistry DecommissionEventReceiver" where
  "registry_receiver L ops = HandleDecommission L ops"

definition dispatchFromSubject ::
  "'x libs_scheme \<Rightarrow> 'r DecommissionEventReceiver \<Rightarrow> string \<Rightarrow> 'r \<Rightarrow> 'r" where
  "dispatchFromSubject L receiver subject r =
     (let parts = split_at CHR ''.'' subject
      in if length parts \<noteq> 4 then r
         else
           let tenantID = parts ! 2;
               gatewayID = parts ! 3
           in case uuid_Parse L gatewayID of
                None \<Rightarrow> r
              | Some _ \<Rightarrow>
                  (case uuid_Parse L tenantID of
                     None \<Rightarrow> r
                   | Some _ \<Rightarrow> receiver tenantID gatewayID r))"

text \<open>
  \<^verbatim>\<open>Run\<close>: the answer of \<^verbatim>\<open>js.Subscribe\<close> to the subject with its wildcard, the subjects of the
  messages that come until the context ends, and the answer of \<^verbatim>\<open>Drain\<close>.
\<close>

definition listener_Run ::
  "'x libs_scheme \<Rightarrow> 'r DecommissionEventReceiver \<Rightarrow> (string \<Rightarrow> string \<Rightarrow> unit result) \<Rightarrow> string list \<Rightarrow> unit result
     \<Rightarrow> 'r \<Rightarrow> unit result \<times> 'r" where
  "listener_Run L receiver subscribe subjects drain r =
     (case subscribe ''gateway.decommissioned.>'' ''simulator-decommission'' of
        Inl err \<Rightarrow> (Inl err, r)
      | Inr _ \<Rightarrow> (drain, fold (dispatchFromSubject L receiver) subjects r))"

text \<open>The subject of the event for a gateway of a tenant.\<close>

definition decommission_subject :: "string \<Rightarrow> string \<Rightarrow> string" where
  "decommission_subject tenantID gatewayID = join_at CHR ''.'' [''gateway'', ''decommissioned'', tenantID, gatewayID]"

lemma split_decommission_subject:
  assumes "CHR ''.'' \<notin> set t" and "CHR ''.'' \<notin> set g"
  shows "split_at CHR ''.'' (decommission_subject t g) = [''gateway'', ''decommissioned'', t, g]"
  using assms unfolding decommission_subject_def by (subst split_join) auto

lemma dispatch_subject:
  assumes "CHR ''.'' \<notin> set t" and "CHR ''.'' \<notin> set g"
  shows "dispatchFromSubject L receiver (decommission_subject t g) r =
    (if uuid_Parse L g \<noteq> None \<and> uuid_Parse L t \<noteq> None then receiver t g r else r)"
  using split_decommission_subject [OF assms]
  by (auto simp: dispatchFromSubject_def Let_def numeral_2_eq_2 numeral_3_eq_3 split: option.split)

text \<open>The receiver is called with the parts of the subject or not at all.\<close>

lemma dispatch_cases:
  obtains "dispatchFromSubject L receiver subject r = r"
  | a b t g where "subject = a @ ''.'' @ b @ ''.'' @ t @ ''.'' @ g" "CHR ''.'' \<notin> set t" "CHR ''.'' \<notin> set g"
      "uuid_Parse L t \<noteq> None" "uuid_Parse L g \<noteq> None" "dispatchFromSubject L receiver subject r = receiver t g r"
proof (cases "dispatchFromSubject L receiver subject r = r")
  case True
  then show ?thesis using that(1) by blast
next
  case False
  then have "length (split_at CHR ''.'' subject) = 4" by (auto simp: dispatchFromSubject_def Let_def split: if_splits)
  then obtain a b t g where s: "split_at CHR ''.'' subject = [a, b, t, g]"
    by (auto simp: length_Suc_conv eval_nat_numeral)
  then have "subject = a @ ''.'' @ b @ ''.'' @ t @ ''.'' @ g" using join_split [of "CHR ''.''" subject] by simp
  moreover have "CHR ''.'' \<notin> set t" "CHR ''.'' \<notin> set g" using split_parts [of _ "CHR ''.''" subject] s by auto
  moreover have "uuid_Parse L t \<noteq> None" "uuid_Parse L g \<noteq> None" "dispatchFromSubject L receiver subject r = receiver t g r"
    using False s
    by (auto simp: dispatchFromSubject_def Let_def numeral_2_eq_2 numeral_3_eq_3 split: option.splits)
  ultimately show ?thesis using that(2) by blast
qed

text \<open>An invariant of the receiver is one of the listener.\<close>

lemma listener_keeps:
  assumes "\<And>t g r. P r \<Longrightarrow> P (receiver t g r)" and "P r" and "listener_Run L receiver subscribe subjects drain r = (x, r')"
  shows "P r'"
proof -
  have "P (fold (dispatchFromSubject L receiver) subjects r)" using assms(2)
  proof (induction subjects arbitrary: r)
    case (Cons s ss)
    have "P (dispatchFromSubject L receiver s r)"
      by (cases rule: dispatch_cases [of L receiver s r]) (use Cons.prems assms(1) in auto)
    with Cons.IH show ?case by simp
  qed simp
  then show ?thesis using assms(2,3) by (auto simp: listener_Run_def split: sum.splits)
qed

end
