(* ===== verification/Nats_Connector.thy ===== *)
theory Nats_Connector
  imports Nats_Subscriber Registry
begin

text \<open>
  \<^verbatim>\<open>internal/adapters/nats/connector.go\<close>: the connection of a gateway. Files, certificates and the
  NATS client are libraries (\<open>nats_libs\<close>); the connections the client has open are counted in the state,
  so that a failed set-up that leaks one would show. The handlers that log and the timing options of the
  connection carry no logic and are left out.
\<close>

record ('pool, 'cert) NATSMTLSConnector =
  nc_natsURL :: string
  nc_caPool :: 'pool
  nc_staticCert :: "'cert option"
  nc_useStaticMTLS :: bool

record ('pool, 'cert) tls_Config =
  tls_Certificates :: "'cert list"
  tls_RootCAs :: 'pool
  tls_MinVersion :: nat

definition VersionTLS13 :: nat where
  "VersionTLS13 = 772"

record ('pool, 'cert) nats_libs =
  os_ReadFile :: "string \<Rightarrow> bytes result"
  AppendCertsFromPEM :: "bytes \<Rightarrow> 'pool option"
  tls_X509KeyPair :: "bytes \<Rightarrow> bytes \<Rightarrow> 'cert result"
  nats_Connect :: "nat \<Rightarrow> string \<Rightarrow> ('pool, 'cert) tls_Config \<Rightarrow> unit result"
  nats_JetStream :: "nat \<Rightarrow> unit result"
  nats_PublisherJetStream :: "nat \<Rightarrow> unit result"
  nats_Subscribe :: "nat \<Rightarrow> string \<Rightarrow> string \<Rightarrow> unit result"

definition NewNATSMTLSConnector ::
  "('p, 'c) nats_libs \<Rightarrow> string \<Rightarrow> string \<Rightarrow> string \<Rightarrow> string \<Rightarrow> ('p, 'c) NATSMTLSConnector result" where
  "NewNATSMTLSConnector N natsURL caCertPath staticCertPath staticKeyPath =
     (case os_ReadFile N caCertPath of
        Inl err \<Rightarrow> Inl (Wrap ''read CA certificate: '' err '''')
      | Inr caCert \<Rightarrow>
          (case AppendCertsFromPEM N caCert of
             None \<Rightarrow> Inl (Plain ''failed to parse CA certificate'')
           | Some caPool \<Rightarrow>
               let useStaticMTLS = (staticCertPath \<noteq> '''' \<and> staticKeyPath \<noteq> '''')
               in if \<not> useStaticMTLS
                  then Inr \<lparr>nc_natsURL = natsURL, nc_caPool = caPool, nc_staticCert = None, nc_useStaticMTLS = False\<rparr>
                  else case os_ReadFile N staticCertPath of
                         Inl err \<Rightarrow> Inl (Wrap ''read static client certificate: '' err '''')
                       | Inr certPEM \<Rightarrow>
                           (case os_ReadFile N staticKeyPath of
                              Inl err \<Rightarrow> Inl (Wrap ''read static client key: '' err '''')
                            | Inr keyPEM \<Rightarrow>
                                (case tls_X509KeyPair N certPEM keyPEM of
                                   Inl err \<Rightarrow> Inl (Wrap ''parse static client certificate/key: '' err '''')
                                 | Inr cert \<Rightarrow> Inr \<lparr>nc_natsURL = natsURL, nc_caPool = caPool,
                                     nc_staticCert = Some cert, nc_useStaticMTLS = True\<rparr>))))"

definition buildTLSConfig ::
  "('p, 'c) nats_libs \<Rightarrow> ('p, 'c) NATSMTLSConnector \<Rightarrow> bytes \<Rightarrow> bytes \<Rightarrow> ('p, 'c) tls_Config result" where
  "buildTLSConfig N c certPEM keyPEM =
     (let cert = (if nc_useStaticMTLS c then
            (case nc_staticCert c of
               None \<Rightarrow> Inl (Plain ''static client certificate is enabled but not loaded'')
             | Some cert \<Rightarrow> Inr cert)
          else
            (case tls_X509KeyPair N certPEM keyPEM of
               Inl err \<Rightarrow> Inl (Wrap ''parse client certificate/key: '' err '''')
             | Inr parsed \<Rightarrow> Inr parsed))
      in case cert of
           Inl err \<Rightarrow> Inl err
         | Inr cert \<Rightarrow> Inr \<lparr>tls_Certificates = [cert], tls_RootCAs = nc_caPool c, tls_MinVersion = VersionTLS13\<rparr>)"

text \<open>
  \<^verbatim>\<open>Connect\<close>: the publisher and the subscriber of the new connection, or an error, and the
  number of connections that are open afterwards.
\<close>

definition connector_set_up ::
  "'x libs_scheme \<Rightarrow> ('p, 'c) nats_libs \<Rightarrow> ('p, 'c) NATSMTLSConnector \<Rightarrow> nat \<Rightarrow> bytes \<Rightarrow> bytes \<Rightarrow> string \<Rightarrow> uuid \<Rightarrow> nat
     \<Rightarrow> (NATSGatewayPublisher \<times> NATSGatewaySubscriber) result \<times> nat" where
  "connector_set_up L N c n certPEM keyPEM tenantID managementGatewayID conns =
     (case buildTLSConfig N c certPEM keyPEM of
        Inl err \<Rightarrow> (Inl (Wrap ''build TLS config: '' err ''''), conns)
      | Inr tlsCfg \<Rightarrow>
          (case nats_Connect N n (nc_natsURL c) tlsCfg of
             Inl err \<Rightarrow> (Inl (Wrap ''connect to NATS: '' err ''''), conns)
           | Inr _ \<Rightarrow>
               let conns = Suc conns
               in case nats_JetStream N n of
                    Inl err \<Rightarrow> (Inl (Wrap ''create JetStream context: '' err ''''), conns - 1)
                  | Inr _ \<Rightarrow>
                      (case NewNATSGatewayPublisher (nats_PublisherJetStream N n) of
                         Inl err \<Rightarrow> (Inl err, conns - 1)
                       | Inr pub \<Rightarrow>
                           (case NewNATSGatewaySubscriber (nats_Subscribe N n) tenantID
                                   (uuid_String L managementGatewayID) of
                              Inl err \<Rightarrow> (Inl (Wrap ''create subscriber: '' err ''''), conns - 1)
                            | Inr sub \<Rightarrow> (Inr (pub, sub), conns)))))"

lemma set_up_conns:
  assumes "connector_set_up L N c n cert key tenant u conns = (res, conns')"
  shows "conns' = (if isl res then conns else Suc conns)"
  using assms by (auto simp: connector_set_up_def Let_def split: sum.splits)

lemma set_up_hands_over:
  assumes "connector_set_up L N c n cert key tenant u conns = (Inr (pub, sub), conns')"
  shows "pub = \<lparr>pub_nc = True, pub_js = True, pub_log = []\<rparr>" and "ch_buf (sb_ch sub) = []" and "ch_cap (sb_ch sub) = 8"
    and "\<not> sb_closed sub" and "sb_ackSubject sub = ''command.ack.'' @ tenant @ ''.'' @ uuid_String L u"
  using assms
  by (auto simp: connector_set_up_def Let_def NewNATSGatewayPublisher_def NewNATSGatewaySubscriber_def
      split: sum.splits)

text \<open>
  The oracle of the registry for connections stands for this connector: with its answers taken from here, the
  registry gets the same publisher or the same error, and counts one connection more exactly
  when the connector does.
\<close>

definition connector_oracle ::
  "'x libs_scheme \<Rightarrow> ('p, 'c) nats_libs \<Rightarrow> ('p, 'c) NATSMTLSConnector
     \<Rightarrow> nat \<Rightarrow> bytes \<Rightarrow> bytes \<Rightarrow> string \<Rightarrow> uuid \<Rightarrow> unit result" where
  "connector_oracle L N c n cert key tenant u =
     map_sum id (\<lambda>_. ()) (fst (connector_set_up L N c n cert key tenant u 0))"

lemma set_up_counter:
  "fst (connector_set_up L N c n cert key tenant u conns) = fst (connector_set_up L N c n cert key tenant u 0)"
  by (auto simp: connector_set_up_def Let_def split: sum.splits)

lemma connector_refines:
  assumes "env_connect (rg_env r) = connector_oracle L N c"
    and "connector_set_up L N c (env_pos (rg_env r)) cert key tenant u (rg_conns r) = (res, conns')"
  shows "fst (connector_Connect cert key tenant u r) = map_sum id fst res"
    and "rg_conns (snd (connector_Connect cert key tenant u r)) = conns'"
proof -
  have res: "res = fst (connector_set_up L N c (env_pos (rg_env r)) cert key tenant u 0)"
    using set_up_counter [of L N c _ cert key tenant u "rg_conns r"] assms(2) by (metis fst_conv)
  show "fst (connector_Connect cert key tenant u r) = map_sum id fst res"
    "rg_conns (snd (connector_Connect cert key tenant u r)) = conns'"
    using set_up_conns [OF assms(2)] set_up_hands_over [of L N c _ cert key tenant u "rg_conns r"] assms(2)
    by (cases res; force simp: connector_Connect_def connector_oracle_def assms(1) res [symmetric] Let_def)+
qed

text \<open>Every connection asks for TLS 1.3 and shows one certificate, the static one exactly when both paths are set.\<close>

lemma buildTLSConfig_ok:
  assumes "buildTLSConfig N c cert key = Inr t"
  shows "tls_MinVersion t = VersionTLS13" and "tls_RootCAs t = nc_caPool c" and "length (tls_Certificates t) = 1"
  using assms by (auto simp: buildTLSConfig_def Let_def split: sum.splits)

lemma NewNATSMTLSConnector_static:
  assumes "NewNATSMTLSConnector N url ca cp kp = Inr c"
  shows "nc_useStaticMTLS c \<longleftrightarrow> cp \<noteq> '''' \<and> kp \<noteq> ''''" and "nc_useStaticMTLS c \<longleftrightarrow> nc_staticCert c \<noteq> None"
  using assms by (auto simp: NewNATSMTLSConnector_def Let_def split: sum.splits option.splits if_splits)

end
