(* ===== verification/Encryptor.thy ===== *)
theory Encryptor
  imports Runtime Base64
begin

text \<open>
  \<^verbatim>\<open>internal/adapters/encryptor.go\<close>: AES-GCM with a random nonce. The ciphers of \<^verbatim>\<open>crypto/aes\<close> and
  \<^verbatim>\<open>crypto/cipher\<close> and the random source are parameters, in the record \<open>gcm_libs\<close>; what the code relies
  on of them is \<open>gcm_lawful\<close>.
\<close>

record ('b, 'g) gcm_libs =
  aes_NewCipher :: "bytes \<Rightarrow> 'b result"
  cipher_NewGCM :: "'b \<Rightarrow> 'g result"
  gcm_NonceSize :: "'g \<Rightarrow> nat"
  gcm_Overhead :: "'g \<Rightarrow> nat"
  gcm_Seal :: "'g \<Rightarrow> bytes \<Rightarrow> bytes \<Rightarrow> bytes"
  gcm_Open :: "'g \<Rightarrow> bytes \<Rightarrow> bytes \<Rightarrow> bytes option"
  rand_ReadFull :: "nat \<Rightarrow> nat \<Rightarrow> bytes result"

definition Encrypt ::
  "('b, 'g) gcm_libs \<Rightarrow> nat \<Rightarrow> EncryptionKey \<Rightarrow> bytes \<Rightarrow> EncryptedPayload result go" where
  "Encrypt C n key data =
     (case aes_NewCipher C (EncryptionKey_Bytes key) of
        Inl err \<Rightarrow> Return (Inl (Wrap ''create cipher: '' err ''''))
      | Inr block \<Rightarrow>
          (case cipher_NewGCM C block of
             Inl err \<Rightarrow> Return (Inl (Wrap ''create GCM: '' err ''''))
           | Inr aesgcm \<Rightarrow>
               (case rand_ReadFull C n (gcm_NonceSize C aesgcm) of
                  Inl err \<Rightarrow> Return (Inl (Wrap ''generate IV: '' err ''''))
                | Inr iv \<Rightarrow>
                    let ciphertext = gcm_Seal C aesgcm iv data;
                        tagSize = gcm_Overhead C aesgcm
                    in if length ciphertext < tagSize
                       then Panic ''runtime error: slice bounds out of range''
                       else
                         let encryptedData = take (length ciphertext - tagSize) ciphertext;
                             authTag = drop (length ciphertext - tagSize) ciphertext
                         in Return (Inr \<lparr>ep_EncryptedData = EncodeToString encryptedData,
                              ep_IV = EncodeToString iv, ep_AuthTag = EncodeToString authTag\<rparr>))))"

text \<open>
  The documented laws: keys of 16, 24 or 32 bytes make a cipher, an AES block cipher a GCM with a nonce of
  12 and a tag of 16 bytes, \<^verbatim>\<open>ReadFull\<close> fills its buffer, \<^verbatim>\<open>Seal\<close> adds the tag and \<^verbatim>\<open>Open\<close> undoes it.
\<close>

definition gcm_lawful :: "('b, 'g) gcm_libs \<Rightarrow> bool" where
  "gcm_lawful C \<longleftrightarrow>
     (\<forall>k. isl (aes_NewCipher C k) \<longleftrightarrow> length k \<notin> {16, 24, 32}) \<and>
     (\<forall>b. \<exists>g. cipher_NewGCM C b = Inr g \<and> gcm_NonceSize C g = 12 \<and> gcm_Overhead C g = 16) \<and>
     (\<forall>n l iv. rand_ReadFull C n l = Inr iv \<longrightarrow> length iv = l) \<and>
     (\<forall>g iv d. length (gcm_Seal C g iv d) = length d + gcm_Overhead C g) \<and>
     (\<forall>g iv d. length iv = gcm_NonceSize C g \<longrightarrow> gcm_Open C g iv (gcm_Seal C g iv d) = Some d)"

text \<open>The receiver: it decodes the three parts and opens the text followed by the tag.\<close>

definition Decrypt :: "('b, 'g) gcm_libs \<Rightarrow> EncryptionKey \<Rightarrow> EncryptedPayload \<Rightarrow> bytes option" where
  "Decrypt C key p =
     (case aes_NewCipher C (EncryptionKey_Bytes key) of
        Inl _ \<Rightarrow> None
      | Inr block \<Rightarrow>
          (case cipher_NewGCM C block of
             Inl _ \<Rightarrow> None
           | Inr aesgcm \<Rightarrow>
               (case (DecodeString (ep_EncryptedData p), DecodeString (ep_IV p), DecodeString (ep_AuthTag p)) of
                  (Inr d, Inr iv, Inr t) \<Rightarrow> gcm_Open C aesgcm iv (d @ t)
                | _ \<Rightarrow> None)))"

lemma gcm_cipher: "gcm_lawful C \<Longrightarrow> length k = 32 \<Longrightarrow> \<exists>b. aes_NewCipher C k = Inr b"
  unfolding gcm_lawful_def by (metis insertCI isl_def sum.collapse(2))

lemma gcm_mode: "gcm_lawful C \<Longrightarrow> \<exists>g. cipher_NewGCM C b = Inr g \<and> gcm_NonceSize C g = 12 \<and> gcm_Overhead C g = 16"
  by (simp add: gcm_lawful_def)

text \<open>With a lawful library encryption does not panic, and fails on a bad key or a failed read only.\<close>

lemma Encrypt_returns:
  assumes "gcm_lawful C"
  shows "returns (Encrypt C n key data)"
  using assms
  by (auto simp: Encrypt_def Let_def gcm_lawful_def split: sum.splits)

lemma Encrypt_ok:
  assumes "gcm_lawful C" and "Encrypt C n key data = Return (Inr p)"
  shows "Decrypt C key p = Some data"
    and "\<exists>iv. DecodeString (ep_IV p) = Inr iv \<and> length iv = 12"
    and "\<exists>d. DecodeString (ep_EncryptedData p) = Inr d \<and> length d = length data"
    and "\<exists>t. DecodeString (ep_AuthTag p) = Inr t \<and> length t = 16"
proof -
  obtain b g iv where b: "aes_NewCipher C (EncryptionKey_Bytes key) = Inr b" and g: "cipher_NewGCM C b = Inr g"
    and iv: "rand_ReadFull C n (gcm_NonceSize C g) = Inr iv"
    using assms(2) by (auto simp: Encrypt_def split: sum.splits)
  from gcm_mode [OF assms(1), of b] g have n: "gcm_NonceSize C g = 12" "gcm_Overhead C g = 16" by auto
  have l: "length iv = 12" "length (gcm_Seal C g iv data) = length data + 16"
    "gcm_Open C g iv (gcm_Seal C g iv data) = Some data"
    using assms(1) iv n by (auto simp: gcm_lawful_def)
  have p: "p = \<lparr>ep_EncryptedData = EncodeToString (take (length data) (gcm_Seal C g iv data)),
      ep_IV = EncodeToString iv, ep_AuthTag = EncodeToString (drop (length data) (gcm_Seal C g iv data))\<rparr>"
    using assms(2) b g iv n l by (simp add: Encrypt_def Let_def)
  show "Decrypt C key p = Some data"
    using b g l by (simp add: p Decrypt_def DecodeString_EncodeToString)
  show "\<exists>iv. DecodeString (ep_IV p) = Inr iv \<and> length iv = 12"
    "\<exists>d. DecodeString (ep_EncryptedData p) = Inr d \<and> length d = length data"
    "\<exists>t. DecodeString (ep_AuthTag p) = Inr t \<and> length t = 16"
    using l by (simp_all add: p DecodeString_EncodeToString)
qed

lemma Encrypt_fails:
  assumes "gcm_lawful C" and "length (key_value key) = 32" and "Encrypt C n key data = Return (Inl err)"
  shows "isl (rand_ReadFull C n 12)"
proof -
  obtain b where b: "aes_NewCipher C (key_value key) = Inr b" using gcm_cipher [OF assms(1,2)] by blast
  with gcm_mode [OF assms(1), of b] assms(3) show ?thesis
    by (auto simp: Encrypt_def EncryptionKey_Bytes_def Let_def split: sum.splits if_splits)
qed

end
