(* ===== verification/Broker_Properties.thy ===== *)
theory Broker_Properties
  imports Decommission_Listener Nats_Connector Encryptor Provisioning_Client Registry_Properties
begin

text \<open>
  The properties of the adapters: the subscriber of a gateway and the way of its commands, the decommission listener over
  the registry, the connector, the provisioning client and the encryptor.
\<close>

subsection \<open>Commands\<close>

text \<open>
  C20: a handler that returns, which one with an open publisher and an open channel does, has settled its message in
  one way, whatever the broker and the clock do. One that does not decode is terminated. A command older
  than a minute is acknowledged to the broker and not queued, and one ACK that says it expired, with the
  time of the second look at the clock, is published for it, if its time has a JSON form and the broker
  takes it; a failure of either is not retried. Any other command is queued last and acknowledged if there is
  room, and left to be delivered again if there is none.
\<close>

theorem message_is_settled_once:
  assumes "handleMsg L data (s, p, e) = Return (d, s', p', e')"
  shows "case unmarshal_IncomingCommand L (json_parse L data) of
      Inl _ \<Rightarrow> d = Term \<and> s' = s \<and> p' = p
    | Inr cmd \<Rightarrow>
        if 60000000000 < env_clock e (env_pos e) - ic_IssuedAt cmd
        then d = Ack \<and> s' = s \<and>
          (case marshal_CommandACK L \<lparr>ack_CommandID = ic_CommandID cmd, ack_Status = Expired, ack_Message = None,
              ack_Timestamp = env_clock e (Suc (env_pos e))\<rparr> of
             Inl _ \<Rightarrow> p' = p
           | Inr msg \<Rightarrow> pub_js p \<and> env_pos e' = env_pos e + 3 \<and>
               p' = (if env_publish e (env_pos e + 2) = None
                     then p\<lparr>pub_log := pub_log p @ [(sb_ackSubject s, msg)]\<rparr> else p))
        else p' = p \<and>
          (if length (ch_buf (sb_ch s)) < ch_cap (sb_ch s)
           then d = Ack \<and> s' = s\<lparr>sb_ch := Chan (ch_cap (sb_ch s)) (ch_buf (sb_ch s) @ [cmd])\<rparr>
           else d = Nak \<and> s' = s)"
  using assms
proof (cases rule: handleMsg_cases)
  case (old cmd)
  then have "command_expired (env_clock e (env_pos e)) cmd" by (simp add: command_expired_iff)
  with old assms show ?thesis
    by (auto simp: handleMsg_def clock_Now_def env_tick_def expired_ack_def publisher_Publish_def Let_def
        go_bind_eq_Return numeral_2_eq_2 split: sum.splits if_splits option.splits)
next
  case (full cmd)
  then show ?thesis by (auto simp: go_chan.send_None)
next
  case (room cmd)
  from room(5) have "length (ch_buf (sb_ch s)) < ch_cap (sb_ch s)"
    "sb_ch s' = Chan (ch_cap (sb_ch s)) (ch_buf (sb_ch s) @ [cmd])"
    by (auto simp: try_send_def split: if_splits)
  with room show ?thesis by auto
qed auto

definition ex_subscriber :: NATSGatewaySubscriber where
  "ex_subscriber = \<lparr>sb_ch = make_chan 8, sb_closed = False, sb_ackSubject = ''command.ack.t1.7''\<rparr>"

text \<open>A world whose messages all carry the same command, issued at the given time.\<close>

definition ex_command_libs :: "int \<Rightarrow> libs" where
  "ex_command_libs t = ex_libs\<lparr>json_parse := (\<lambda>_. Some (JObj [(''command_id'', JStr ''c1''), (''issued_at'', JStr ''t'')])),
     time_parse := (\<lambda>_. Some t)\<rparr>"

lemma ex_command_decoded:
  "unmarshal_IncomingCommand (ex_command_libs t) (json_parse (ex_command_libs t) data) =
     Inr \<lparr>ic_CommandID = ''c1'', ic_Type = '''', ic_Payload = None, ic_IssuedAt = t\<rparr>"
  by (simp add: unmarshal_IncomingCommand_def ex_command_libs_def decode_struct_def incoming_command_fields_def
      find_field_def plain_field_def)

lemma message_is_settled_once_witness:
  "\<exists>p' e'. handleMsg (ex_command_libs (- 60000000000)) ''x'' (ex_subscriber, w_publisher ex_worker, ex_env) =
      Return (Ack, ex_subscriber, p', e') \<and> length (pub_log p') = 1"
proof -
  let ?L = "ex_command_libs (- 60000000000)" and ?s = "(ex_subscriber, w_publisher ex_worker, ex_env)"
  have "returns (handleMsg ?L ''x'' ?s)"
    by (auto simp: handleMsg_def ex_command_decoded clock_Now_def ex_env_def command_expired_iff Let_def env_tick_def
        publisher_Publish_def ex_worker_def NewGatewayWorker_def split: sum.split)
  then obtain d s' p' e' where h: "handleMsg ?L ''x'' ?s = Return (d, s', p', e')"
    unfolding returns_iff by (metis prod_cases4)
  obtain msg where "marshal_CommandACK ?L \<lparr>ack_CommandID = ''c1'', ack_Status = Expired, ack_Message = None,
      ack_Timestamp = env_clock ex_env (Suc (env_pos ex_env))\<rparr> = Inr msg"
    using encode_clock [OF ex_clock_sane, of ?L "Suc (env_pos ex_env)"] by (simp add: marshal_CommandACK_def)
  with message_is_settled_once [OF h] h show ?thesis
    by (auto simp: ex_command_decoded ex_env_def ex_worker_def NewGatewayWorker_def)
qed



subsection \<open>Decommissioning\<close>

text \<open>The subject of a decommission event for a gateway of a tenant, as the listener reads it.\<close>

definition event_for :: "'x libs_scheme \<Rightarrow> string \<Rightarrow> uuid \<Rightarrow> string \<Rightarrow> bool" where
  "event_for L tenant u subject =
     (case split_at CHR ''.'' subject of
        [a, b, t, g] \<Rightarrow> t = tenant \<and> uuid_Parse L g = Some u \<and> uuid_Parse L t \<noteq> None
      | _ \<Rightarrow> False)"

lemma HandleDecommission_workers:
  "map_of (rg_workers (HandleDecommission L ops t g r)) u =
    (case map_of (rg_workers r) u of None \<Rightarrow> None
     | Some w \<Rightarrow> if uuid_Parse L g = Some u \<and> gw_TenantID (w_gateway w) = t then None else Some w)"
proof (cases "uuid_Parse L g")
  case (Some v)
  show ?thesis
  proof (cases "map_of (rg_workers r) v")
    case None
    with Some show ?thesis by (auto simp: HandleDecommission_def split: option.split)
  next
    case (Some w)
    obtain w' r1 where s: "stop_worker w (r\<lparr>rg_workers := map_del v (rg_workers r)\<rparr>) = (w', r1)" by force
    with Some \<open>uuid_Parse L g = Some v\<close> stop_worker_facts(1) [OF s] show ?thesis
      by (auto simp: HandleDecommission_def on_store_def split: option.split prod.split)
  qed
qed (auto simp: HandleDecommission_def split: option.split)

lemma dispatch_workers:
  "map_of (rg_workers (dispatchFromSubject L (registry_receiver L ops) subject r)) u =
    (case map_of (rg_workers r) u of None \<Rightarrow> None
     | Some w \<Rightarrow> if event_for L (gw_TenantID (w_gateway w)) u subject then None else Some w)"
proof (cases "\<exists>a b t g. split_at CHR ''.'' subject = [a, b, t, g]")
  case True
  then obtain a b t g where s: "split_at CHR ''.'' subject = [a, b, t, g]" by blast
  then show ?thesis
    by (auto simp: dispatchFromSubject_def event_for_def registry_receiver_def HandleDecommission_workers
        numeral_2_eq_2 numeral_3_eq_3 split: option.split)
next
  case False
  then have "length (split_at CHR ''.'' subject) \<noteq> 4" by (auto simp: length_Suc_conv eval_nat_numeral)
  moreover from False have "\<not> event_for L t u subject" for t by (auto simp: event_for_def split: list.split)
  ultimately show ?thesis by (simp add: dispatchFromSubject_def Let_def split: option.split)
qed

text \<open>
  C21: after any sequence of messages to the decommission listener the registry is consistent, and a worker is gone
  exactly if one of the subjects named its gateway together with the gateway's own tenant; subjects of
  another form, ids that do not parse and events of other tenants have no effect.
\<close>

theorem events_remove_exactly_their_gateways:
  assumes "registry_ok (sqlite_gws L) (sqlite_ok L) r"
    and "listener_Run L (registry_receiver L (sqlite_ops L)) (\<lambda>subject durable. Inr ()) subjects drain r = (x, r')"
  shows "registry_ok (sqlite_gws L) (sqlite_ok L) r' \<and>
    map_of (rg_workers r') u = (case map_of (rg_workers r) u of None \<Rightarrow> None
      | Some w \<Rightarrow> if list_ex (event_for L (gw_TenantID (w_gateway w)) u) subjects then None else Some w)"
proof
  show "registry_ok (sqlite_gws L) (sqlite_ok L) r'"
    by (rule listener_keeps [where P = "registry_ok (sqlite_gws L) (sqlite_ok L)", OF _ assms])
      (simp add: registry_receiver_def sqlite.decommission_ok)
  have "r' = fold (dispatchFromSubject L (registry_receiver L (sqlite_ops L))) subjects r"
    using assms(2) by (simp add: listener_Run_def)
  then show "map_of (rg_workers r') u = (case map_of (rg_workers r) u of None \<Rightarrow> None
      | Some w \<Rightarrow> if list_ex (event_for L (gw_TenantID (w_gateway w)) u) subjects then None else Some w)"
    by (induction subjects arbitrary: r r') (auto simp: dispatch_workers split: option.splits)
qed

text \<open>The registry of the example after a gateway of tenant 1 was created.\<close>

definition ex_tenant_env :: env where
  "ex_tenant_env = ex_env\<lparr>env_onboard := (\<lambda>n fid key freq v. map_sum id (\<lambda>p. p\<lparr>pr_TenantID := ''1''\<rparr>)
     (env_onboard ex_env n fid key freq v))\<rparr>"

definition ex_populated :: "SQLiteGatewayStore GatewayRegistry" where
  "ex_populated =
     (case CreateAndStart ex_libs (sqlite_ops ex_libs) ex_request (ex_registry ex_tenant_env) of
        Return (_, r) \<Rightarrow> r | Panic _ \<Rightarrow> ex_registry ex_tenant_env)"

lemma ex_populated_workers: "map (\<lambda>(u, w). (u, gw_TenantID (w_gateway w))) (rg_workers ex_populated) = [(7, ''1'')]"
  by code_simp

lemma ex_populated_ok: "registry_ok (sqlite_gws ex_libs) (sqlite_ok ex_libs) ex_populated"
proof -
  have "onboard_lawful ex_tenant_env"
    by (simp add: onboard_lawful_def ex_tenant_env_def ex_env_def ex_key_def key_ok_def)
  from sqlite.create_ok [OF ex_registry_ok [OF this]] ex_registry_ok [OF this] show ?thesis
    by (auto simp: ex_populated_def split: go.split prod.split)
qed

lemma events_remove_exactly_their_gateways_witness:
  "map_of (rg_workers ex_populated) 7 \<noteq> None \<and>
   map_of (rg_workers (snd (listener_Run ex_libs (registry_receiver ex_libs (sqlite_ops ex_libs))
      (\<lambda>subject durable. Inr ()) [decommission_subject ''1'' ''7''] (Inr ()) ex_populated))) 7 = None"
proof -
  obtain w where w: "rg_workers ex_populated = [(7, w)]" "gw_TenantID (w_gateway w) = ''1''"
    using ex_populated_workers by auto
  have "event_for ex_libs ''1'' 7 (decommission_subject ''1'' ''7'')"
    by (simp add: event_for_def split_decommission_subject ex_libs_def ex_uuid_Parse_def digit_value_def)
  with events_remove_exactly_their_gateways [OF ex_populated_ok prod.collapse [symmetric], of "[decommission_subject ''1'' ''7'']" "Inr ()" 7] w
  show ?thesis by simp
qed

subsection \<open>Connections\<close>

text \<open>
  C26: the registry's view of the connector is right: with the answers of the real set-up (certificates, connection,
  JetStream, publisher, subscription) as its oracle, the registry gets the publisher or the error of the set-up and
  counts as many open connections as the set-up leaves open, which is one more after a success and as many
  as before after a failure at any stage.
\<close>

theorem connector_refines_its_oracle:
  assumes "env_connect (rg_env r) = connector_oracle L N c"
    and "connector_set_up L N c (env_pos (rg_env r)) cert key tenant u (rg_conns r) = (res, conns)"
  shows "fst (connector_Connect cert key tenant u r) = map_sum id fst res \<and>
    rg_conns (snd (connector_Connect cert key tenant u r)) = conns \<and>
    conns = (if isl res then rg_conns r else Suc (rg_conns r))"
  using connector_refines [OF assms] set_up_conns [OF assms(2)] by simp

text \<open>A broker that accepts the connection and refuses the subscription.\<close>

definition ex_nats_libs :: "unit result \<Rightarrow> (unit, unit) nats_libs" where
  "ex_nats_libs subscribed =
     \<lparr>os_ReadFile = (\<lambda>_. Inr ''pem''), AppendCertsFromPEM = (\<lambda>_. Some ()), tls_X509KeyPair = (\<lambda>_ _. Inr ()),
      nats_Connect = (\<lambda>_ _ _. Inr ()), nats_JetStream = (\<lambda>_. Inr ()), nats_PublisherJetStream = (\<lambda>_. Inr ()),
      nats_Subscribe = (\<lambda>_ _ _. subscribed)\<rparr>"

definition ex_connector :: "(unit, unit) NATSMTLSConnector" where
  "ex_connector = \<lparr>nc_natsURL = ''nats://n'', nc_caPool = (), nc_staticCert = None, nc_useStaticMTLS = False\<rparr>"

lemma connector_refines_its_oracle_witness:
  "let N = ex_nats_libs (Inl (Plain ''no stream'')); e = ex_env\<lparr>env_connect := connector_oracle ex_libs N ex_connector\<rparr>
   in isl (fst (connector_Connect ''cert'' ''key'' ''t1'' 7 (ex_registry e))) \<and>
      rg_conns (snd (connector_Connect ''cert'' ''key'' ''t1'' 7 (ex_registry e))) = 0"
proof -
  let ?N = "ex_nats_libs (Inl (Plain ''no stream''))"
  let ?r = "ex_registry (ex_env\<lparr>env_connect := connector_oracle ex_libs ?N ex_connector\<rparr>)"
  have e: "env_connect (rg_env ?r) = connector_oracle ex_libs ?N ex_connector"
    by (simp add: ex_registry_def NewGatewayRegistry_def)
  have "connector_set_up ex_libs ?N ex_connector (env_pos (rg_env ?r)) ''cert'' ''key'' ''t1'' 7 (rg_conns ?r) =
      (Inl (Wrap ''create subscriber: '' (Plain ''no stream'') ''''), 0)"
    by (simp add: connector_set_up_def ex_nats_libs_def ex_connector_def buildTLSConfig_def Let_def
        NewNATSGatewayPublisher_def NewNATSGatewaySubscriber_def ex_registry_def NewGatewayRegistry_def)
  from connector_refines_its_oracle [OF e this] show ?thesis by (simp add: Let_def)
qed

subsection \<open>Keys and readings\<close>


text \<open>
  C22: a reading encrypted with an onboarded key decrypts to itself: encryption returns, fails only if the random
  source does, and what it returns are the Base64 texts of a nonce of 12 bytes, a tag of 16 bytes and
  a ciphertext of the length of the reading, from which the receiver gets the reading back.
\<close>

theorem onboarded_key_round_trip:
  assumes "gcm_lawful C" and "Onboard L K c m fid fkey freq v = Inr res" and "rand_ReadFull C n 12 = Inr iv"
  shows "\<exists>p. Encrypt C n (pr_AESKey res) data = Return (Inr p) \<and> Decrypt C (pr_AESKey res) p = Some data \<and>
    map_sum id length (DecodeString (ep_IV p)) = Inr 12 \<and> map_sum id length (DecodeString (ep_AuthTag p)) = Inr 16 \<and>
    map_sum id length (DecodeString (ep_EncryptedData p)) = Inr (length data)"
proof -
  from Encrypt_returns [OF assms(1)] obtain x where x: "Encrypt C n (pr_AESKey res) data = Return x"
    unfolding returns_iff by blast
  show ?thesis
  proof (cases x)
    case (Inl err)
    with Encrypt_fails [OF assms(1) Onboard_key [OF assms(2)]] x assms(3) show ?thesis by force
  next
    case (Inr p)
    with Encrypt_ok [OF assms(1)] x show ?thesis by fastforce
  qed
qed

text \<open>A cipher that does not hide anything but keeps the laws, and a service that accepts.\<close>

definition ex_gcm :: "(unit, unit) gcm_libs" where
  "ex_gcm =
     \<lparr>aes_NewCipher = (\<lambda>k. if length k \<in> {16, 24, 32} then Inr () else Inl (Plain ''invalid key size'')),
      cipher_NewGCM = (\<lambda>_. Inr ()), gcm_NonceSize = (\<lambda>_. 12), gcm_Overhead = (\<lambda>_. 16),
      gcm_Seal = (\<lambda>_ iv d. d @ replicate 16 (CHR ''t'')), gcm_Open = (\<lambda>_ iv c. Some (take (length c - 16) c)),
      rand_ReadFull = (\<lambda>_ l. Inr (replicate l (CHR ''r'')))\<rparr>"

lemma ex_gcm_lawful: "gcm_lawful ex_gcm"
  by (simp add: gcm_lawful_def ex_gcm_def)

definition ex_accepting :: "unit onboard_libs" where
  "ex_accepting =
     \<lparr>rsa_GenerateKey = (\<lambda>_. Inr ()), MarshalPKCS1PrivateKey = (\<lambda>_. ''k''), CreateCertificateRequest = (\<lambda>_ _. Inr ''csr''),
      pem_EncodeToMemory = (\<lambda>t b. t @ b), parse_url = (\<lambda>_. Inr ()),
      HTTPClient_Do = (\<lambda>_ _. Inr \<lparr>hr_StatusCode = 201, hr_body = ''''\<rparr>),
      first_json = (\<lambda>_. Inr (JObj [(''aesKey'', JStr (EncodeToString (replicate 32 (CHR ''k'')))),
        (''identity'', JObj [(''gatewayId'', JStr ''7''), (''tenantId'', JStr ''t1'')])]))\<rparr>"

lemma ex_accepted:
  "\<exists>res. Onboard ex_libs ex_accepting (NewProvisioningServiceClient ''https://p'') 0 ''7'' ''fk'' 0 ''1.0'' = Inr res \<and>
     pr_GatewayID res = ''7''"
  by (simp add: Onboard_def generateKeypairAndCSR_def ex_accepting_def onboard_result_def decode_onboardResponse_def
      decode_struct_def onboard_response_fields_def find_field_def plain_field_def identity_fields_def
      decodeBase64Key_def DecodeString_EncodeToString NewEncryptionKey_def Let_def)

lemma onboarded_key_round_trip_witness:
  "\<exists>(res :: ProvisionResult) p. Encrypt ex_gcm 0 (pr_AESKey res) ''reading'' = Return (Inr p) \<and>
     Decrypt ex_gcm (pr_AESKey res) p = Some ''reading'' \<and> pr_GatewayID res = ''7''"
proof -
  obtain res where r: "Onboard ex_libs ex_accepting (NewProvisioningServiceClient ''https://p'') 0 ''7'' ''fk'' 0 ''1.0'' = Inr res"
    "pr_GatewayID res = ''7''" using ex_accepted by blast
  have "rand_ReadFull ex_gcm 0 12 = Inr (replicate 12 (CHR ''r''))" by (simp add: ex_gcm_def)
  from onboarded_key_round_trip [OF ex_gcm_lawful r(1) this, of "''reading''"]
  show ?thesis using r(2) by blast
qed

end
