(* ===== verification/Migrations.thy ===== *)
theory Migrations
  imports Sim_Domain
begin

text \<open>
  The migrations of \<^verbatim>\<open>internal/adapters/sqlite/store.go\<close>: \<^verbatim>\<open>RunMigrations\<close> and \<^verbatim>\<open>applyMigration\<close>.
  The database is its tables, of any type, and the rows of \<^verbatim>\<open>schema_migrations\<close>; the SQL engine is the
  parameter \<open>exec\<close>, the embedded directory the record \<open>embed_FS\<close>. Each call of the database may also fail
  for a reason of its own (\<open>md_fail\<close> at the position of the call), and a transaction that is rolled back or
  not committed leaves no trace.
\<close>

record embed_FS =
  fs_ReadDir :: "(string \<times> bool) list result"
  fs_ReadFile :: "string \<Rightarrow> bytes result"

record 'd migration_db =
  md_tables :: 'd
  md_versions :: "string list"
  md_fail :: "nat \<Rightarrow> go_error option"
  md_pos :: nat

type_synonym 'd sql_engine = "bytes \<Rightarrow> 'd \<Rightarrow> 'd result"

definition db_call :: "'d migration_db \<Rightarrow> go_error option \<times> 'd migration_db" where
  "db_call db = (md_fail db (md_pos db), db\<lparr>md_pos := Suc (md_pos db)\<rparr>)"

definition applyMigration ::
  "'d sql_engine \<Rightarrow> embed_FS \<Rightarrow> string \<Rightarrow> 'd migration_db \<Rightarrow> unit result \<times> 'd migration_db" where
  "applyMigration exec FS version db =
     (case db_call db of
        (Some err, db) \<Rightarrow> (Inl (Wrap (''check migration '' @ version @ '': '') err ''''), db)
      | (None, db) \<Rightarrow>
          if version \<in> set (md_versions db) then (Inr (), db)
          else case fs_ReadFile FS version of
            Inl err \<Rightarrow> (Inl (Wrap (''read migration file '' @ version @ '': '') err ''''), db)
          | Inr data \<Rightarrow>
              (case db_call db of
                 (Some err, db) \<Rightarrow> (Inl (Wrap (''begin transaction for '' @ version @ '': '') err ''''), db)
               | (None, db) \<Rightarrow>
                   let (failure, db) = db_call db;
                       executed = (case failure of Some err \<Rightarrow> Inl err | None \<Rightarrow> exec data (md_tables db))
                   in case executed of
                        Inl err \<Rightarrow> (Inl (Wrap (''execute migration '' @ version @ '': '') err ''''), db)
                      | Inr tables \<Rightarrow>
                          (case db_call db of
                             (Some err, db) \<Rightarrow> (Inl (Wrap (''record migration '' @ version @ '': '') err ''''), db)
                           | (None, db) \<Rightarrow>
                               (case db_call db of
                                  (Some err, db) \<Rightarrow> (Inl (Wrap (''commit migration '' @ version @ '': '') err ''''), db)
                                | (None, db) \<Rightarrow>
                                    (Inr (), db\<lparr>md_tables := tables, md_versions := md_versions db @ [version]\<rparr>)))))"

fun apply_each ::
  "'d sql_engine \<Rightarrow> embed_FS \<Rightarrow> (string \<times> bool) list \<Rightarrow> 'd migration_db \<Rightarrow> unit result \<times> 'd migration_db" where
  "apply_each exec FS [] db = (Inr (), db)"
| "apply_each exec FS ((name, IsDir) # entries) db =
     (if IsDir then apply_each exec FS entries db
      else case applyMigration exec FS name db of
             (Inl err, db) \<Rightarrow> (Inl err, db)
           | (Inr _, db) \<Rightarrow> apply_each exec FS entries db)"

definition RunMigrations ::
  "'d sql_engine \<Rightarrow> embed_FS \<Rightarrow> 'd migration_db \<Rightarrow> unit result \<times> 'd migration_db" where
  "RunMigrations exec FS db =
     (case db_call db of
        (Some err, db) \<Rightarrow> (Inl (Wrap ''create schema_migrations table: '' err ''''), db)
      | (None, db) \<Rightarrow>
          (case fs_ReadDir FS of
             Inl err \<Rightarrow> (Inl (Wrap ''read migrations directory: '' err ''''), db)
           | Inr entries \<Rightarrow> apply_each exec FS entries db))"

subsection \<open>What a run is for\<close>

text \<open>
  The specification: the scripts that are not recorded yet, in the order of the directory, each executed
  once on the tables.
\<close>

definition pending_migrations :: "(string \<times> bool) list \<Rightarrow> string list \<Rightarrow> string list" where
  "pending_migrations entries done = filter (\<lambda>v. v \<notin> set done) (map fst (filter (\<lambda>(_, d). \<not> d) entries))"

fun execute_all :: "'d sql_engine \<Rightarrow> embed_FS \<Rightarrow> string list \<Rightarrow> 'd \<Rightarrow> 'd result" where
  "execute_all exec FS [] t = Inr t"
| "execute_all exec FS (v # vs) t =
     (case fs_ReadFile FS v of
        Inl e \<Rightarrow> Inl e
      | Inr data \<Rightarrow> (case exec data t of Inl e \<Rightarrow> Inl e | Inr t' \<Rightarrow> execute_all exec FS vs t'))"

lemma execute_all_append:
  "execute_all exec FS (vs @ ws) t = (case execute_all exec FS vs t of Inl e \<Rightarrow> Inl e | Inr t' \<Rightarrow> execute_all exec FS ws t')"
  by (induction vs arbitrary: t) (auto split: sum.split)

text \<open>The tables stand for the recorded migrations done after a base state.\<close>

lemma db_call_simps:
  "db_call db = (f, db') \<Longrightarrow> md_tables db' = md_tables db \<and> md_versions db' = md_versions db"
  by (auto simp: db_call_def)

lemma applyMigration_outcome:
  assumes "applyMigration exec FS v db = (res, db')"
  shows "case res of
      Inl _ \<Rightarrow> v \<notin> set (md_versions db) \<longrightarrow> md_tables db' = md_tables db \<and> md_versions db' = md_versions db
    | Inr _ \<Rightarrow> if v \<in> set (md_versions db) then md_tables db' = md_tables db \<and> md_versions db' = md_versions db
        else md_versions db' = md_versions db @ [v] \<and> execute_all exec FS [v] (md_tables db) = Inr (md_tables db')"
    and "isl res \<Longrightarrow> md_tables db' = md_tables db \<and> md_versions db' = md_versions db"
  using assms
  by (auto simp: applyMigration_def db_call_def Let_def split: sum.splits option.splits if_splits prod.splits)

text \<open>What a run over some entries has done: it executed and recorded a prefix of what was pending, all of it on success.\<close>

lemma apply_each_prefix:
  assumes "apply_each exec FS entries db = (res, db')" and "distinct (map fst entries)"
  shows "\<exists>vs ws. pending_migrations entries (md_versions db) = vs @ ws \<and> md_versions db' = md_versions db @ vs \<and>
      execute_all exec FS vs (md_tables db) = Inr (md_tables db') \<and> (\<not> isl res \<longrightarrow> ws = [])"
  using assms
proof (induction exec FS entries db arbitrary: res db' rule: apply_each.induct)
  case (1 exec FS db)
  then show ?case by (simp add: pending_migrations_def)
next
  case (2 exec FS name d entries db)
  show ?case
  proof (cases d)
    case True
    with 2 show ?thesis by (auto simp: pending_migrations_def)
  next
    case False
    obtain r1 db1 where a: "applyMigration exec FS name db = (r1, db1)" by force
    note o = applyMigration_outcome [OF a]
    show ?thesis
    proof (cases r1)
      case (Inl err)
      with 2(3) False a o(2) show ?thesis by (auto intro: exI [of _ "[]"])
    next
      case (Inr u)
      with 2(3) False a have rest: "apply_each exec FS entries db1 = (res, db')" by simp
      from 2(2) [OF False a [symmetric] Inr rest] 2(4) obtain vs ws where
        ih: "pending_migrations entries (md_versions db1) = vs @ ws" "md_versions db' = md_versions db1 @ vs"
          "execute_all exec FS vs (md_tables db1) = Inr (md_tables db')" "\<not> isl res \<longrightarrow> ws = []"
        by auto
      show ?thesis
      proof (cases "name \<in> set (md_versions db)")
        case True
        with o(1) Inr ih False show ?thesis by (auto simp: pending_migrations_def)
      next
        case new: False
        have "pending_migrations entries (md_versions db @ [name]) = pending_migrations entries (md_versions db)"
          unfolding pending_migrations_def by (rule filter_cong) (use 2(4) in force)+
        moreover have "pending_migrations ((name, d) # entries) (md_versions db) = name # pending_migrations entries (md_versions db)"
          using new False by (simp add: pending_migrations_def)
        moreover have "execute_all exec FS (name # vs) (md_tables db) = Inr (md_tables db')"
          using o(1) new Inr ih(3) execute_all_append [of exec FS "[name]" vs] by simp
        ultimately show ?thesis
          using o(1) Inr new ih by (intro exI [of _ "name # vs"] exI [of _ ws]) auto
      qed
    qed
  qed
qed

lemma RunMigrations_prefix:
  assumes "RunMigrations exec FS db = (res, db')" and "fs_ReadDir FS = Inr entries" and "distinct (map fst entries)"
  shows "\<exists>vs ws. pending_migrations entries (md_versions db) = vs @ ws \<and> md_versions db' = md_versions db @ vs \<and>
      execute_all exec FS vs (md_tables db) = Inr (md_tables db') \<and> (\<not> isl res \<longrightarrow> ws = [])"
proof -
  obtain f db1 where d: "db_call db = (f, db1)" by force
  show ?thesis
  proof (cases f)
    case None
    with assms d have "apply_each exec FS entries db1 = (res, db')" by (simp add: RunMigrations_def)
    from apply_each_prefix [OF this assms(3)] db_call_simps [OF d] show ?thesis by simp
  next
    case (Some err)
    with assms d db_call_simps [OF d] show ?thesis
      by (auto simp: RunMigrations_def intro!: exI [of _ "[]"])
  qed
qed

lemma pending_append: "pending_migrations entries (ds @ vs) = filter (\<lambda>v. v \<notin> set vs) (pending_migrations entries ds)"
  by (auto simp: pending_migrations_def intro: filter_cong)

lemma distinct_pending: "distinct (map fst entries) \<Longrightarrow> distinct (pending_migrations entries ds)"
  by (induction entries) (auto simp: pending_migrations_def)

text \<open>A prefix that is done leaves the rest pending.\<close>

lemma pending_rest:
  assumes "pending_migrations entries ds = vs @ ws" and "distinct (map fst entries)"
  shows "pending_migrations entries (ds @ vs) = ws"
proof -
  have "distinct (vs @ ws)" using distinct_pending [OF assms(2), of ds] assms(1) by simp
  then show ?thesis by (auto simp: pending_append assms(1) intro!: filter_True)
qed

end
