(* ===== verification/Fakes.thy ===== *)
theory Fakes
  imports Worker_Ticks Driving_Ports Decommission_Listener
begin

text \<open>
  \<^verbatim>\<open>internal/fakes/fakes.go\<close>: the in-memory doubles of the ports. The store is a second implementation of
  \<open>row_store\<close>, so that what the worker relies on holds over it too. A Go map is an association list; the
  pointers that the store returns are taken by value, as of the call.
\<close>

definition ErrSimulated :: go_error where
  "ErrSimulated = Plain ''simulated fake error''"

subsection \<open>Clock, encryptor, generator\<close>

record FakeClock =
  fc_now :: time

definition NewFakeClock :: "time \<Rightarrow> FakeClock" where
  "NewFakeClock t = \<lparr>fc_now = t\<rparr>"

definition fake_Now :: "FakeClock \<Rightarrow> time" where
  "fake_Now c = fc_now c"

definition fake_Advance :: "duration \<Rightarrow> FakeClock \<Rightarrow> FakeClock" where
  "fake_Advance d c = c\<lparr>fc_now := time_Add (fc_now c) d\<rparr>"

record FakeEncryptor =
  fe_Err :: "go_error option"

definition fake_Encrypt :: "FakeEncryptor \<Rightarrow> EncryptionKey \<Rightarrow> bytes \<Rightarrow> EncryptedPayload result" where
  "fake_Encrypt f key data =
     (case fe_Err f of
        Some err \<Rightarrow> Inl err
      | None \<Rightarrow> Inr \<lparr>ep_EncryptedData = ''fake-encrypted'', ep_IV = ''fake-iv'', ep_AuthTag = ''fake-tag''\<rparr>)"

record FakeGenerator =
  fg_NextValue :: float64
  fg_InjectedOutliers :: "float64 list"
  fg_InjectOutlierCalled :: nat

definition fake_Next :: "FakeGenerator \<Rightarrow> float64" where
  "fake_Next g = fg_NextValue g"

definition fake_InjectOutlier :: "float64 \<Rightarrow> FakeGenerator \<Rightarrow> FakeGenerator" where
  "fake_InjectOutlier v g =
     g\<lparr>fg_InjectOutlierCalled := Suc (fg_InjectOutlierCalled g), fg_InjectedOutliers := fg_InjectedOutliers g @ [v]\<rparr>"

subsection \<open>Publisher, subscription, connector, provisioning client\<close>

record FakePublisher =
  fp_Messages :: "(string \<times> bytes) list"
  fp_Err :: "go_error option"
  fp_ReconnectErr :: "go_error option"
  fp_ReconnectCalls :: nat
  fp_Closed :: bool

definition new_FakePublisher :: FakePublisher where
  "new_FakePublisher =
     \<lparr>fp_Messages = [], fp_Err = None, fp_ReconnectErr = None, fp_ReconnectCalls = 0, fp_Closed = False\<rparr>"

definition fake_Publish :: "string \<Rightarrow> bytes \<Rightarrow> FakePublisher \<Rightarrow> unit result \<times> FakePublisher" where
  "fake_Publish subject payload p =
     (case fp_Err p of
        Some err \<Rightarrow> (Inl err, p)
      | None \<Rightarrow> (Inr (), p\<lparr>fp_Messages := fp_Messages p @ [(subject, payload)]\<rparr>))"

definition fake_Reconnect :: "FakePublisher \<Rightarrow> unit result \<times> FakePublisher" where
  "fake_Reconnect p =
     (case fp_ReconnectErr p of None \<Rightarrow> Inr () | Some err \<Rightarrow> Inl err,
      p\<lparr>fp_ReconnectCalls := Suc (fp_ReconnectCalls p)\<rparr>)"

definition fake_publisher_Close :: "FakePublisher \<Rightarrow> FakePublisher" where
  "fake_publisher_Close p = p\<lparr>fp_Closed := True\<rparr>"

definition fake_Count :: "FakePublisher \<Rightarrow> nat" where
  "fake_Count p = length (fp_Messages p)"

definition fake_ReconnectCount :: "FakePublisher \<Rightarrow> nat" where
  "fake_ReconnectCount p = fp_ReconnectCalls p"

definition fake_publisher_IsClosed :: "FakePublisher \<Rightarrow> bool" where
  "fake_publisher_IsClosed p = fp_Closed p"

record FakeCommandSubscription =
  fsb_Ch :: "IncomingCommand chan"
  fsb_closed :: bool

definition NewFakeCommandSubscription :: FakeCommandSubscription where
  "NewFakeCommandSubscription = \<lparr>fsb_Ch = make_chan 10, fsb_closed = False\<rparr>"

definition fake_Messages :: "FakeCommandSubscription \<Rightarrow> IncomingCommand chan" where
  "fake_Messages s = fsb_Ch s"

definition fake_subscription_Close :: "FakeCommandSubscription \<Rightarrow> FakeCommandSubscription" where
  "fake_subscription_Close s = s\<lparr>fsb_closed := True\<rparr>"

definition fake_subscription_IsClosed :: "FakeCommandSubscription \<Rightarrow> bool" where
  "fake_subscription_IsClosed s = fsb_closed s"

record FakeConnector =
  fn_Publisher :: "FakePublisher option"
  fn_Subscription :: "FakeCommandSubscription option"
  fn_Err :: "go_error option"

definition fake_Connect :: "FakeConnector \<Rightarrow> (FakePublisher \<times> FakeCommandSubscription) result \<times> FakeConnector" where
  "fake_Connect c =
     (case fn_Err c of
        Some err \<Rightarrow> (Inl err, c)
      | None \<Rightarrow>
          let p = (case fn_Publisher c of None \<Rightarrow> new_FakePublisher | Some p \<Rightarrow> p);
              s = (case fn_Subscription c of None \<Rightarrow> NewFakeCommandSubscription | Some s \<Rightarrow> s)
          in (Inr (p, s), c\<lparr>fn_Publisher := Some p, fn_Subscription := Some s\<rparr>))"

record FakeProvisioningClient =
  fpc_Result :: ProvisionResult
  fpc_Err :: "go_error option"

text \<open>\<open>new_id\<close> is the text of the UUID that \<^verbatim>\<open>uuid.NewString\<close> draws.\<close>

definition fake_Onboard :: "string \<Rightarrow> FakeProvisioningClient \<Rightarrow> ProvisionResult result" where
  "fake_Onboard new_id p =
     (case fpc_Err p of
        Some err \<Rightarrow> Inl err
      | None \<Rightarrow>
          let result = fpc_Result p
          in Inr (if pr_GatewayID result = '''' then result\<lparr>pr_GatewayID := new_id\<rparr> else result))"

subsection \<open>The store\<close>

record FakeGatewayStore =
  fs_gateways :: "(int64 \<times> SimGateway) list"
  fs_sensors :: "(int64 \<times> SimSensor) list"
  fs_nextGwID :: int64
  fs_nextSnID :: int64
  fs_ErrCreateGateway :: "go_error option"
  fs_ErrGetGateway :: "go_error option"
  fs_ErrGetGatewayByManagementID :: "go_error option"
  fs_ErrListGateways :: "go_error option"
  fs_ErrUpdateProvisioned :: "go_error option"
  fs_ErrUpdateStatus :: "go_error option"
  fs_ErrUpdateFirmwareVersion :: "go_error option"
  fs_ErrDeleteGateway :: "go_error option"
  fs_ErrCreateSensor :: "go_error option"
  fs_ErrGetSensor :: "go_error option"
  fs_ErrGetSensorBySensorID :: "go_error option"
  fs_ErrListSensors :: "go_error option"
  fs_ErrDeleteSensor :: "go_error option"

definition NewFakeGatewayStore :: FakeGatewayStore where
  "NewFakeGatewayStore =
     \<lparr>fs_gateways = [], fs_sensors = [], fs_nextGwID = 1, fs_nextSnID = 1, fs_ErrCreateGateway = None,
      fs_ErrGetGateway = None, fs_ErrGetGatewayByManagementID = None, fs_ErrListGateways = None,
      fs_ErrUpdateProvisioned = None, fs_ErrUpdateStatus = None, fs_ErrUpdateFirmwareVersion = None,
      fs_ErrDeleteGateway = None, fs_ErrCreateSensor = None, fs_ErrGetSensor = None,
      fs_ErrGetSensorBySensorID = None, fs_ErrListSensors = None, fs_ErrDeleteSensor = None\<rparr>"

definition fake_CreateGateway :: "SimGateway \<Rightarrow> FakeGatewayStore \<Rightarrow> int64 result \<times> FakeGatewayStore" where
  "fake_CreateGateway gw s =
     (case fs_ErrCreateGateway s of
        Some err \<Rightarrow> (Inl err, s)
      | None \<Rightarrow>
          let i = fs_nextGwID s
          in (Inr i, s\<lparr>fs_nextGwID := i + 1, fs_gateways := map_put i (gw\<lparr>gw_ID := i\<rparr>) (fs_gateways s)\<rparr>))"

definition fake_GatewaynotFound :: "int64 \<Rightarrow> go_error" where
  "fake_GatewaynotFound i = Plain (''gateway '' @ fmt_d (sint i) @ '' not found'')"

definition fake_GetGateway :: "int64 \<Rightarrow> FakeGatewayStore \<Rightarrow> SimGateway result \<times> FakeGatewayStore" where
  "fake_GetGateway i s =
     (case fs_ErrGetGateway s of
        Some err \<Rightarrow> (Inl err, s)
      | None \<Rightarrow> (case map_of (fs_gateways s) i of
                   None \<Rightarrow> (Inl (fake_GatewaynotFound i), s) | Some gw \<Rightarrow> (Inr gw, s)))"

definition fake_GetGatewayByManagementID :: "uuid \<Rightarrow> FakeGatewayStore \<Rightarrow> SimGateway result \<times> FakeGatewayStore" where
  "fake_GetGatewayByManagementID u s =
     (case fs_ErrGetGatewayByManagementID s of
        Some err \<Rightarrow> (Inl err, s)
      | None \<Rightarrow> (case List.find (\<lambda>gw. gw_ManagementGatewayID gw = u) (map snd (fs_gateways s)) of
                   None \<Rightarrow> (Inl (Sentinel ErrGatewayNotFound), s) | Some gw \<Rightarrow> (Inr gw, s)))"

definition fake_ListGateways :: "FakeGatewayStore \<Rightarrow> SimGateway list result \<times> FakeGatewayStore" where
  "fake_ListGateways s =
     (case fs_ErrListGateways s of Some err \<Rightarrow> (Inl err, s) | None \<Rightarrow> (Inr (map snd (fs_gateways s)), s))"

text \<open>The three updates of a gateway, with the error field that each one checks.\<close>

definition fake_update ::
  "go_error option \<Rightarrow> (SimGateway \<Rightarrow> SimGateway) \<Rightarrow> int64 \<Rightarrow> FakeGatewayStore \<Rightarrow> unit result \<times> FakeGatewayStore" where
  "fake_update err f i s =
     (case err of
        Some err \<Rightarrow> (Inl err, s)
      | None \<Rightarrow> (case map_of (fs_gateways s) i of
                   None \<Rightarrow> (Inl (fake_GatewaynotFound i), s)
                 | Some gw \<Rightarrow> (Inr (), s\<lparr>fs_gateways := map_put i (f gw) (fs_gateways s)\<rparr>)))"

definition fake_UpdateProvisioned :: "int64 \<Rightarrow> ProvisionResult \<Rightarrow> FakeGatewayStore \<Rightarrow> unit result \<times> FakeGatewayStore" where
  "fake_UpdateProvisioned i res s =
     fake_update (fs_ErrUpdateProvisioned s)
       (\<lambda>gw. gw\<lparr>gw_Provisioned := True, gw_CertPEM := pr_CertPEM res, gw_PrivateKeyPEM := pr_PrivateKeyPEM res,
               gw_EncryptionKey := pr_AESKey res\<rparr>) i s"

definition fake_UpdateStatus :: "int64 \<Rightarrow> GatewayStatus \<Rightarrow> FakeGatewayStore \<Rightarrow> unit result \<times> FakeGatewayStore" where
  "fake_UpdateStatus i status s = fake_update (fs_ErrUpdateStatus s) (\<lambda>gw. gw\<lparr>gw_Status := status\<rparr>) i s"

definition fake_UpdateFirmwareVersion :: "int64 \<Rightarrow> string \<Rightarrow> FakeGatewayStore \<Rightarrow> unit result \<times> FakeGatewayStore" where
  "fake_UpdateFirmwareVersion i version s =
     fake_update (fs_ErrUpdateFirmwareVersion s) (\<lambda>gw. gw\<lparr>gw_FirmwareVersion := version\<rparr>) i s"

definition fake_DeleteGateway :: "int64 \<Rightarrow> FakeGatewayStore \<Rightarrow> unit result \<times> FakeGatewayStore" where
  "fake_DeleteGateway i s =
     (case fs_ErrDeleteGateway s of
        Some err \<Rightarrow> (Inl err, s) | None \<Rightarrow> (Inr (), s\<lparr>fs_gateways := map_del i (fs_gateways s)\<rparr>))"

definition fake_CreateSensor :: "SimSensor \<Rightarrow> FakeGatewayStore \<Rightarrow> int64 result \<times> FakeGatewayStore" where
  "fake_CreateSensor sensor s =
     (case fs_ErrCreateSensor s of
        Some err \<Rightarrow> (Inl err, s)
      | None \<Rightarrow>
          let i = fs_nextSnID s
          in (Inr i, s\<lparr>fs_nextSnID := i + 1, fs_sensors := map_put i (sensor\<lparr>sn_ID := i\<rparr>) (fs_sensors s)\<rparr>))"

definition fake_GetSensor :: "int64 \<Rightarrow> FakeGatewayStore \<Rightarrow> SimSensor result \<times> FakeGatewayStore" where
  "fake_GetSensor i s =
     (case fs_ErrGetSensor s of
        Some err \<Rightarrow> (Inl err, s)
      | None \<Rightarrow> (case map_of (fs_sensors s) i of
                   None \<Rightarrow> (Inl (Plain (''sensor '' @ fmt_d (sint i) @ '' not found'')), s)
                 | Some sn \<Rightarrow> (Inr sn, s)))"

definition fake_GetSensorBySensorID :: "uuid \<Rightarrow> FakeGatewayStore \<Rightarrow> SimSensor result \<times> FakeGatewayStore" where
  "fake_GetSensorBySensorID u s =
     (case fs_ErrGetSensorBySensorID s of
        Some err \<Rightarrow> (Inl err, s)
      | None \<Rightarrow> (case List.find (\<lambda>sn. sn_SensorID sn = u) (map snd (fs_sensors s)) of
                   None \<Rightarrow> (Inl (Sentinel ErrSensorNotFound), s) | Some sn \<Rightarrow> (Inr sn, s)))"

definition fake_ListSensors :: "int64 \<Rightarrow> FakeGatewayStore \<Rightarrow> SimSensor list result \<times> FakeGatewayStore" where
  "fake_ListSensors i s =
     (case fs_ErrListSensors s of
        Some err \<Rightarrow> (Inl err, s)
      | None \<Rightarrow> (Inr (filter (\<lambda>sn. sn_GatewayID sn = i) (map snd (fs_sensors s))), s))"

definition fake_DeleteSensor :: "int64 \<Rightarrow> FakeGatewayStore \<Rightarrow> unit result \<times> FakeGatewayStore" where
  "fake_DeleteSensor i s =
     (case fs_ErrDeleteSensor s of
        Some err \<Rightarrow> (Inl err, s) | None \<Rightarrow> (Inr (), s\<lparr>fs_sensors := map_del i (fs_sensors s)\<rparr>))"

definition fake_UpdateFrequency :: "int64 \<Rightarrow> int64 \<Rightarrow> FakeGatewayStore \<Rightarrow> unit result \<times> FakeGatewayStore" where
  "fake_UpdateFrequency i frequency s =
     (case map_of (fs_gateways s) i of
        Some gw \<Rightarrow> (Inr (), s\<lparr>fs_gateways := map_put i (gw\<lparr>gw_SendFrequencyMs := frequency\<rparr>) (fs_gateways s)\<rparr>)
      | None \<Rightarrow> (Inl (Plain ''gateway not found''), s))"

definition fake_ops :: "FakeGatewayStore store_ops" where
  "fake_ops =
     \<lparr>op_CreateGateway = fake_CreateGateway, op_GetGateway = fake_GetGateway,
      op_GetGatewayByManagementID = fake_GetGatewayByManagementID, op_ListGateways = fake_ListGateways,
      op_UpdateProvisioned = fake_UpdateProvisioned, op_UpdateStatus = fake_UpdateStatus,
      op_UpdateFirmwareVersion = fake_UpdateFirmwareVersion, op_DeleteGateway = fake_DeleteGateway,
      op_CreateSensor = fake_CreateSensor, op_ListSensors = fake_ListSensors, op_DeleteSensor = fake_DeleteSensor,
      op_GetSensor = fake_GetSensor, op_GetSensorBySensorID = fake_GetSensorBySensorID,
      op_UpdateFrequency = fake_UpdateFrequency\<rparr>"

subsection \<open>The store keeps the contract of its port\<close>

definition fake_gws :: "FakeGatewayStore \<Rightarrow> int64 \<Rightarrow> SimGateway option" where
  "fake_gws s = map_of (fs_gateways s)"

definition fake_sns :: "FakeGatewayStore \<Rightarrow> int64 \<Rightarrow> SimSensor option" where
  "fake_sns s i = map_option stored (map_of (fs_sensors s) i)"

text \<open>The errors to simulate are not the sentinels that tell a caller that there is no such row.\<close>

definition fake_ok :: "FakeGatewayStore \<Rightarrow> bool" where
  "fake_ok s \<longleftrightarrow>
     distinct (map fst (fs_gateways s)) \<and> distinct (map fst (fs_sensors s)) \<and>
     (\<forall>(i, g) \<in> set (fs_gateways s). gw_ID g = i) \<and> (\<forall>(i, n) \<in> set (fs_sensors s). sn_ID n = i) \<and>
     (\<forall>e. fs_ErrGetGatewayByManagementID s = Some e \<longrightarrow> \<not> err_is e ErrGatewayNotFound) \<and>
     (\<forall>e. fs_ErrGetSensorBySensorID s = Some e \<longrightarrow> \<not> err_is e ErrSensorNotFound)"

lemma fake_ok_gateway: "fake_ok s \<Longrightarrow> (i, g) \<in> set (fs_gateways s) \<Longrightarrow> fake_gws s i = Some g \<and> gw_ID g = i"
  by (auto simp: fake_ok_def fake_gws_def map_of_distinct_mem [symmetric])

lemma fake_ok_sensor: "fake_ok s \<Longrightarrow> (i, n) \<in> set (fs_sensors s) \<Longrightarrow> fake_sns s i = Some (stored n) \<and> sn_ID n = i"
  by (auto simp: fake_ok_def fake_sns_def map_of_distinct_mem [symmetric])

lemma fake_ok_put:
  assumes "fake_ok s" and "gw_ID g = i"
  shows "fake_ok (s\<lparr>fs_gateways := map_put i g (fs_gateways s)\<rparr>)"
  using assms set_map_put [of i g "fs_gateways s"] by (auto simp: fake_ok_def distinct_map_put)

lemma fake_ok_put_sensor:
  assumes "fake_ok s" and "sn_ID n = i"
  shows "fake_ok (s\<lparr>fs_sensors := map_put i n (fs_sensors s)\<rparr>)"
  using assms set_map_put [of i n "fs_sensors s"] by (auto simp: fake_ok_def distinct_map_put)

lemma ran_fake_gws: "fake_ok s \<Longrightarrow> ran (fake_gws s) = snd ` set (fs_gateways s)"
  by (auto simp: fake_ok_def fake_gws_def ran_distinct)

lemma ran_fake_sns: "fake_ok s \<Longrightarrow> ran (fake_sns s) = stored ` snd ` set (fs_sensors s)"
proof -
  assume "fake_ok s"
  then have "snd ` set (fs_sensors s) = ran (map_of (fs_sensors s))" by (simp add: fake_ok_def ran_distinct)
  then show ?thesis by (auto simp: fake_sns_def ran_def)
qed

text \<open>The laws, one operation at a time.\<close>

lemma fake_update_law:
  assumes "fake_ok s" and "fake_update err f i s = (ru, s')" and "\<And>g. gw_ID (f g) = gw_ID g"
  shows "fake_ok s' \<and> fake_sns s' = fake_sns s \<and>
    (case ru of Inl _ \<Rightarrow> fake_gws s' = fake_gws s
     | Inr _ \<Rightarrow> \<exists>g. fake_gws s i = Some g \<and> fake_gws s' = (fake_gws s)(i \<mapsto> f g))"
  using assms fake_ok_gateway [OF assms(1)]
  by (auto simp: fake_update_def fake_gws_def fake_sns_def fun_eq_iff intro!: fake_ok_put dest: map_of_SomeD
      split: option.splits)

lemma fake_GetGateway_law:
  "fake_ok s \<Longrightarrow> fake_GetGateway i s = (rg, s') \<Longrightarrow>
   fake_ok s' \<and> fake_gws s' = fake_gws s \<and> fake_sns s' = fake_sns s \<and> (\<forall>g. rg = Inr g \<longrightarrow> fake_gws s i = Some g)"
  by (auto simp: fake_GetGateway_def fake_gws_def split: option.splits)

lemma fake_GetGatewayByManagementID_law:
  "fake_ok s \<Longrightarrow> fake_GetGatewayByManagementID u s = (rg, s') \<Longrightarrow>
   fake_ok s' \<and> fake_gws s' = fake_gws s \<and> fake_sns s' = fake_sns s \<and>
   (case rg of Inr g \<Rightarrow> g \<in> ran (fake_gws s) \<and> gw_ManagementGatewayID g = u
    | Inl e \<Rightarrow> err_is e ErrGatewayNotFound \<longrightarrow> (\<forall>g \<in> ran (fake_gws s). gw_ManagementGatewayID g \<noteq> u))"
  by (auto simp: fake_GetGatewayByManagementID_def ran_fake_gws find_None_iff dest!: find_Some_iff_first
      split: option.splits) (auto simp: fake_ok_def)

lemma fake_ListGateways_law:
  "fake_ok s \<Longrightarrow> fake_ListGateways s = (rl, s') \<Longrightarrow>
   fake_ok s' \<and> fake_gws s' = fake_gws s \<and> fake_sns s' = fake_sns s \<and>
   (\<forall>gs. rl = Inr gs \<longrightarrow> set gs = ran (fake_gws s) \<and> distinct (map gw_ID gs))"
proof -
  assume ok: "fake_ok s" and l: "fake_ListGateways s = (rl, s')"
  have "map gw_ID (map snd (fs_gateways s)) = map fst (fs_gateways s)" using ok by (auto simp: fake_ok_def)
  then have "distinct (map gw_ID (map snd (fs_gateways s)))" using ok by (simp only: fake_ok_def)
  with ok l show ?thesis by (force simp: fake_ListGateways_def ran_fake_gws split: option.splits)
qed

lemma fake_DeleteGateway_law:
  "fake_ok s \<Longrightarrow> fake_DeleteGateway i s = (ru, s') \<Longrightarrow>
   fake_ok s' \<and> fake_sns s' \<subseteq>\<^sub>m fake_sns s \<and>
   (\<forall>k n. fake_sns s k = Some n \<and> sn_GatewayID n \<noteq> i \<longrightarrow> fake_sns s' k = Some n) \<and>
   (case ru of Inl _ \<Rightarrow> fake_gws s' = fake_gws s \<and> fake_sns s' = fake_sns s | Inr _ \<Rightarrow> fake_gws s' = (fake_gws s)(i := None))"
  by (auto simp: fake_DeleteGateway_def fake_gws_def fake_sns_def fake_ok_def distinct_map_del set_map_del map_le_def
      split: option.splits)

lemma fake_ListSensors_law:
  "fake_ok s \<Longrightarrow> fake_ListSensors i s = (rm, s') \<Longrightarrow>
   fake_ok s' \<and> fake_gws s' = fake_gws s \<and> fake_sns s' = fake_sns s \<and>
   (\<forall>ns. rm = Inr ns \<longrightarrow> stored ` set ns = {n \<in> ran (fake_sns s). sn_GatewayID n = i} \<and> distinct (map sn_ID ns))"
proof -
  assume ok: "fake_ok s" and l: "fake_ListSensors i s = (rm, s')"
  have "map sn_ID (map snd (fs_sensors s)) = map fst (fs_sensors s)" using ok by (auto simp: fake_ok_def)
  then have "distinct (map sn_ID (map snd (fs_sensors s)))" using ok by (simp only: fake_ok_def)
  then have "distinct (map sn_ID (filter (\<lambda>sn. sn_GatewayID sn = i) (map snd (fs_sensors s))))"
    by (rule distinct_key_filter)
  moreover have "stored ` set (filter (\<lambda>sn. sn_GatewayID sn = i) (map snd (fs_sensors s))) =
      {n \<in> ran (fake_sns s). sn_GatewayID n = i}" by (force simp: ran_fake_sns [OF ok])
  ultimately show ?thesis using ok l by (auto simp only: fake_ListSensors_def split: option.splits)
qed

lemma fake_DeleteSensor_law:
  "fake_ok s \<Longrightarrow> fake_DeleteSensor i s = (ru, s') \<Longrightarrow>
   fake_ok s' \<and> fake_gws s' = fake_gws s \<and>
   (case ru of Inl _ \<Rightarrow> fake_sns s' = fake_sns s | Inr _ \<Rightarrow> fake_sns s' = (fake_sns s)(i := None))"
  by (auto simp: fake_DeleteSensor_def fake_gws_def fake_sns_def fake_ok_def distinct_map_del set_map_del fun_eq_iff
      split: option.splits)

lemma fake_GetSensor_law:
  "fake_ok s \<Longrightarrow> fake_GetSensor i s = (rn, s') \<Longrightarrow>
   fake_ok s' \<and> fake_gws s' = fake_gws s \<and> fake_sns s' = fake_sns s \<and> (\<forall>n. rn = Inr n \<longrightarrow> fake_sns s i = Some (stored n))"
  by (auto simp: fake_GetSensor_def fake_sns_def split: option.splits)

lemma fake_GetSensorBySensorID_law:
  "fake_ok s \<Longrightarrow> fake_GetSensorBySensorID u s = (rn, s') \<Longrightarrow>
   fake_ok s' \<and> fake_gws s' = fake_gws s \<and> fake_sns s' = fake_sns s \<and>
   (case rn of Inr n \<Rightarrow> stored n \<in> ran (fake_sns s) \<and> sn_SensorID n = u
    | Inl e \<Rightarrow> err_is e ErrSensorNotFound \<longrightarrow> (\<forall>n \<in> ran (fake_sns s). sn_SensorID n \<noteq> u))"
  by (auto simp: fake_GetSensorBySensorID_def ran_fake_sns find_None_iff dest!: find_Some_iff_first
      split: option.splits) (auto simp: fake_ok_def)

lemma fake_UpdateFrequency_law:
  "fake_ok s \<Longrightarrow> fake_UpdateFrequency i f s = (ru, s') \<Longrightarrow>
   fake_ok s' \<and> fake_sns s' = fake_sns s \<and>
   (case ru of Inl _ \<Rightarrow> fake_gws s' = fake_gws s
    | Inr _ \<Rightarrow> \<exists>g. fake_gws s i = Some g \<and> fake_gws s' = (fake_gws s)(i \<mapsto> g\<lparr>gw_SendFrequencyMs := f\<rparr>))"
proof -
  assume ok: "fake_ok s" and u: "fake_UpdateFrequency i f s = (ru, s')"
  show ?thesis
    using ok u fake_ok_gateway [OF ok]
  by (auto simp: fake_UpdateFrequency_def fake_gws_def fake_sns_def fun_eq_iff intro!: fake_ok_put dest: map_of_SomeD
      split: option.splits)
qed

interpretation fake: row_store fake_ops fake_gws fake_sns fake_ok
proof unfold_locales
  fix s s' :: FakeGatewayStore
  assume ok: "fake_ok s"
  show "gw_ID g = i" if "fake_gws s i = Some g" for i g
    using that ok by (auto simp: fake_ok_def fake_gws_def dest!: map_of_SomeD)
  show "sn_ID n = i \<and> stored n = n" if "fake_sns s i = Some n" for i n
    using that ok by (auto simp: fake_ok_def fake_sns_def dest!: map_of_SomeD)
qed (simp_all only: fake_ops_def store_ops.simps fake_UpdateProvisioned_def fake_UpdateStatus_def
    fake_UpdateFirmwareVersion_def;
  ((rule fake_GetGateway_law fake_GetGatewayByManagementID_law fake_ListGateways_law fake_DeleteGateway_law
      fake_ListSensors_law fake_DeleteSensor_law fake_GetSensor_law fake_GetSensorBySensorID_law
      fake_UpdateFrequency_law; assumption)
   | (erule (1) fake_update_law; simp)))+

text \<open>
  Creating: the counters are 64 bits wide and the store never reuses an id, so that a new id is unused
  until a counter has gone round. This is the law of creation with that condition.
\<close>

definition fake_room :: "FakeGatewayStore \<Rightarrow> bool" where
  "fake_room s \<longleftrightarrow> fs_nextGwID s \<notin> dom (fake_gws s) \<and> fs_nextSnID s \<notin> dom (fake_sns s)"

lemma fake_CreateGateway_law:
  assumes "fake_ok s" and "fake_room s" and "fake_CreateGateway g s = (ri, s')"
  shows "fake_ok s' \<and> fake_sns s' = fake_sns s \<and>
    (case ri of Inl _ \<Rightarrow> fake_gws s' = fake_gws s
     | Inr i \<Rightarrow> fake_gws s i = None \<and> fake_gws s' = (fake_gws s)(i \<mapsto> g\<lparr>gw_ID := i\<rparr>))"
proof (cases "fs_ErrCreateGateway s")
  case None
  let ?i = "fs_nextGwID s"
  have "fake_ok (s\<lparr>fs_gateways := map_put ?i (g\<lparr>gw_ID := ?i\<rparr>) (fs_gateways s)\<rparr>)"
    using assms(1) by (rule fake_ok_put) simp
  then have "fake_ok s'" using assms(3) None by (auto simp: fake_CreateGateway_def fake_ok_def Let_def)
  with assms None show ?thesis
    by (auto simp: fake_CreateGateway_def fake_room_def fake_gws_def fake_sns_def fun_eq_iff Let_def)
qed (use assms in \<open>auto simp: fake_CreateGateway_def\<close>)

lemma fake_CreateSensor_law:
  assumes "fake_ok s" and "fake_room s" and "fake_CreateSensor n s = (ri, s')"
  shows "fake_ok s' \<and> fake_gws s' = fake_gws s \<and>
    (case ri of Inl _ \<Rightarrow> fake_sns s' = fake_sns s
     | Inr i \<Rightarrow> fake_sns s i = None \<and> fake_sns s' = (fake_sns s)(i \<mapsto> stored (n\<lparr>sn_ID := i\<rparr>)))"
proof (cases "fs_ErrCreateSensor s")
  case None
  let ?i = "fs_nextSnID s"
  have "fake_ok (s\<lparr>fs_sensors := map_put ?i (n\<lparr>sn_ID := ?i\<rparr>) (fs_sensors s)\<rparr>)"
    using assms(1) by (rule fake_ok_put_sensor) simp
  then have "fake_ok s'" using assms(3) None by (auto simp: fake_CreateSensor_def fake_ok_def Let_def)
  with assms None show ?thesis
    by (auto simp: fake_CreateSensor_def fake_room_def fake_gws_def fake_sns_def fun_eq_iff Let_def)
qed (use assms in \<open>auto simp: fake_CreateSensor_def\<close>)

lemma NewFakeGatewayStore_ok: "fake_ok NewFakeGatewayStore" "fake_room NewFakeGatewayStore"
  by (simp_all add: fake_ok_def fake_room_def NewFakeGatewayStore_def fake_gws_def fake_sns_def dom_def)

subsection \<open>The driving ports\<close>

text \<open>
  A service double calls the function it was given, or answers with a default. The functions may change the
  state \<open>'r\<close> of the test that made them.
\<close>

record 'r FakeGatewayLifecycleService =
  fl_CreateAndStartFn :: "(CreateGatewayRequest \<Rightarrow> 'r \<Rightarrow> (SimGateway result \<times> 'r) go) option"
  fl_BulkCreateGatewaysFn ::
    "(BulkCreateRequest \<Rightarrow> 'r \<Rightarrow> ((SimGateway option list \<times> go_error option list) \<times> 'r) go) option"
  fl_StartFn :: "(uuid \<Rightarrow> 'r \<Rightarrow> (unit result \<times> 'r) go) option"
  fl_StopFn :: "(uuid \<Rightarrow> 'r \<Rightarrow> (unit result \<times> 'r) go) option"
  fl_DeleteFn :: "(uuid \<Rightarrow> 'r \<Rightarrow> (unit result \<times> 'r) go) option"
  fl_ListGatewaysFn :: "('r \<Rightarrow> (SimGateway option list result \<times> 'r) go) option"
  fl_GetGatewayFn :: "(uuid \<Rightarrow> 'r \<Rightarrow> (SimGateway result \<times> 'r) go) option"

definition zero_SimGateway :: SimGateway where
  "zero_SimGateway =
     \<lparr>gw_ID = 0, gw_ManagementGatewayID = 0, gw_FactoryID = [], gw_FactoryKey = [], gw_Model = [],
      gw_FirmwareVersion = [], gw_Provisioned = False, gw_CertPEM = [], gw_PrivateKeyPEM = [],
      gw_EncryptionKey = zero_EncryptionKey, gw_SendFrequencyMs = 0, gw_Status = [], gw_TenantID = [],
      gw_CreatedAt = 0\<rparr>"

definition fake_nil_error :: "'r \<Rightarrow> (unit result \<times> 'r) go" where
  "fake_nil_error r = Return (Inr (), r)"

definition fake_lifecycle :: "'r FakeGatewayLifecycleService \<Rightarrow> 'r GatewayLifecycleService" where
  "fake_lifecycle f =
     \<lparr>ls_CreateAndStart = (\<lambda>req r. case fl_CreateAndStartFn f of
        Some fn \<Rightarrow> fn req r | None \<Rightarrow> Return (Inr zero_SimGateway, r)),
      ls_BulkCreateGateways = (\<lambda>req r. case fl_BulkCreateGatewaysFn f of
        Some fn \<Rightarrow> fn req r | None \<Rightarrow> Return (([], []), r)),
      ls_Start = (\<lambda>u r. case fl_StartFn f of Some fn \<Rightarrow> fn u r | None \<Rightarrow> fake_nil_error r),
      ls_Stop = (\<lambda>u r. case fl_StopFn f of Some fn \<Rightarrow> fn u r | None \<Rightarrow> fake_nil_error r),
      ls_Delete = (\<lambda>u r. case fl_DeleteFn f of Some fn \<Rightarrow> fn u r | None \<Rightarrow> fake_nil_error r),
      ls_ListGateways = (\<lambda>r. case fl_ListGatewaysFn f of Some fn \<Rightarrow> fn r | None \<Rightarrow> Return (Inr [], r)),
      ls_GetGateway = (\<lambda>u r. case fl_GetGatewayFn f of
        Some fn \<Rightarrow> fn u r | None \<Rightarrow> Return (Inr (zero_SimGateway\<lparr>gw_ManagementGatewayID := u\<rparr>), r))\<rparr>"

record 'r FakeSensorManagementService =
  fsm_AddSensorFn :: "(uuid \<Rightarrow> SimSensor \<Rightarrow> 'r \<Rightarrow> (SimSensor result \<times> 'r) go) option"
  fsm_ListSensorsFn :: "(uuid \<Rightarrow> 'r \<Rightarrow> (SimSensor option list result \<times> 'r) go) option"
  fsm_DeleteSensorFn :: "(uuid \<Rightarrow> 'r \<Rightarrow> (unit result \<times> 'r) go) option"

definition fake_sensor_service :: "'r FakeSensorManagementService \<Rightarrow> 'r SensorManagementService" where
  "fake_sensor_service f =
     \<lparr>ss_AddSensor = (\<lambda>u sensor r. case fsm_AddSensorFn f of
        Some fn \<Rightarrow> fn u sensor r | None \<Rightarrow> Return (Inr sensor, r)),
      ss_ListSensors = (\<lambda>u r. case fsm_ListSensorsFn f of Some fn \<Rightarrow> fn u r | None \<Rightarrow> Return (Inr [], r)),
      ss_DeleteSensor = (\<lambda>u r. case fsm_DeleteSensorFn f of Some fn \<Rightarrow> fn u r | None \<Rightarrow> fake_nil_error r)\<rparr>"

record 'r FakeSimulatorControlService =
  fsc_UpdateConfigFn :: "(uuid \<Rightarrow> GatewayConfigUpdate \<Rightarrow> 'r \<Rightarrow> (unit result \<times> 'r) go) option"
  fsc_InjectGatewayAnomalyFn :: "(uuid \<Rightarrow> GatewayAnomalyCommand \<Rightarrow> 'r \<Rightarrow> (unit result \<times> 'r) go) option"
  fsc_InjectSensorOutlierFn :: "(uuid \<Rightarrow> float64 option \<Rightarrow> 'r \<Rightarrow> (unit result \<times> 'r) go) option"

definition fake_control_service :: "'r FakeSimulatorControlService \<Rightarrow> 'r SimulatorControlService" where
  "fake_control_service f =
     \<lparr>cs_UpdateConfig = (\<lambda>u update r. case fsc_UpdateConfigFn f of
        Some fn \<Rightarrow> fn u update r | None \<Rightarrow> fake_nil_error r),
      cs_InjectGatewayAnomaly = (\<lambda>u cmd r. case fsc_InjectGatewayAnomalyFn f of
        Some fn \<Rightarrow> fn u cmd r | None \<Rightarrow> fake_nil_error r),
      cs_InjectSensorOutlier = (\<lambda>u v r. case fsc_InjectSensorOutlierFn f of
        Some fn \<Rightarrow> fn u v r | None \<Rightarrow> fake_nil_error r)\<rparr>"

text \<open>The receiver of decommission events keeps the calls it got.\<close>

record FakeDecommissionEventReceiver =
  fdr_Calls :: "(string \<times> string) list"

definition fake_HandleDecommission :: "FakeDecommissionEventReceiver DecommissionEventReceiver" where
  "fake_HandleDecommission tenantID managementGatewayID f =
     f\<lparr>fdr_Calls := fdr_Calls f @ [(tenantID, managementGatewayID)]\<rparr>"

text \<open>
  Dispatching to the recording double shows which events reach a receiver: those whose subject has four parts,
  the last two of them UUIDs, in the order of their messages.
\<close>

lemma recorded_events:
  "fdr_Calls (fold (dispatchFromSubject L fake_HandleDecommission) subjects f) =
   fdr_Calls f @ List.map_filter (\<lambda>s. case split_at CHR ''.'' s of
     [a, b, t, g] \<Rightarrow> if uuid_Parse L t \<noteq> None \<and> uuid_Parse L g \<noteq> None then Some (t, g) else None | _ \<Rightarrow> None) subjects"
proof (induction subjects arbitrary: f)
  case (Cons s ss)
  then show ?case
    by (cases rule: list.exhaust [of "split_at CHR ''.'' s"])
      (auto simp: dispatchFromSubject_def fake_HandleDecommission_def List.map_filter_simps Let_def
        numeral_2_eq_2 numeral_3_eq_3 length_Suc_conv eval_nat_numeral split: list.split option.split)
qed (simp add: List.map_filter_simps)

end
