(* ===== verification/Storage_Properties.thy ===== *)
theory Storage_Properties
  imports Migrations Fakes Example_World
begin

text \<open>
  The properties of the migrations of the database and of the in-memory store that stands in for it.
\<close>

text \<open>
  C27: migrations resume where they stopped. Whether the first run fails, at whatever point, or not, a later run on the
  same database that succeeds leaves the tables as if every script that was not yet recorded had been
  executed once, in the order of the directory, without interruption, and records exactly those.
\<close>

theorem interrupted_migrations_resume:
  assumes "fs_ReadDir FS = Inr entries" and "distinct (map fst entries)"
    and "RunMigrations exec FS db = (res, db1)" and "RunMigrations exec FS db2 = (Inr (), db3)"
    and "md_tables db2 = md_tables db1" and "md_versions db2 = md_versions db1"
  shows "execute_all exec FS (pending_migrations entries (md_versions db)) (md_tables db) = Inr (md_tables db3) \<and>
    md_versions db3 = md_versions db @ pending_migrations entries (md_versions db)"
proof -
  obtain vs ws where 1: "pending_migrations entries (md_versions db) = vs @ ws" "md_versions db1 = md_versions db @ vs"
    "execute_all exec FS vs (md_tables db) = Inr (md_tables db1)"
    using RunMigrations_prefix [OF assms(3,1,2)] by blast
  obtain vs2 where 2: "pending_migrations entries (md_versions db2) = vs2" "md_versions db3 = md_versions db2 @ vs2"
    "execute_all exec FS vs2 (md_tables db2) = Inr (md_tables db3)"
    using RunMigrations_prefix [OF assms(4,1,2)] by auto
  have "vs2 = ws" using pending_rest [OF 1(1) assms(2)] 1(2) 2(1) assms(6) by simp
  with 1 2 assms(5,6) show ?thesis by (simp add: execute_all_append)
qed

text \<open>A directory of two scripts, an engine that appends them, and a database whose ninth call fails.\<close>

definition ex_FS :: embed_FS where
  "ex_FS = \<lparr>fs_ReadDir = Inr [(''1.sql'', False), (''old'', True), (''2.sql'', False)], fs_ReadFile = Inr\<rparr>"

definition ex_engine :: "string list sql_engine" where
  "ex_engine script t = Inr (t @ [script])"

definition ex_migration_db :: "(nat \<Rightarrow> go_error option) \<Rightarrow> string list \<Rightarrow> string list migration_db" where
  "ex_migration_db fails vs = \<lparr>md_tables = vs, md_versions = vs, md_fail = fails, md_pos = 0\<rparr>"

lemma interrupted_migrations_resume_witness:
  "\<exists>db1 db3. RunMigrations ex_engine ex_FS (ex_migration_db (\<lambda>n. if n = 8 then Some (Plain ''disk full'') else None) []) = db1 \<and>
     isl (fst db1) \<and> RunMigrations ex_engine ex_FS (ex_migration_db (\<lambda>_. None) (md_versions (snd db1))) = (Inr (), db3) \<and>
     md_tables db3 = [''1.sql'', ''2.sql'']"
proof -
  let ?fails = "\<lambda>n :: nat. if n = 8 then Some (Plain ''disk full'') else None"
  obtain res db1 where a: "RunMigrations ex_engine ex_FS (ex_migration_db ?fails []) = (res, db1)"
    and f: "isl res" "md_versions db1 = [''1.sql'']" "md_tables db1 = [''1.sql'']"
    by (simp add: RunMigrations_def applyMigration_def db_call_def ex_FS_def ex_migration_db_def ex_engine_def Let_def)
  obtain db3 where b: "RunMigrations ex_engine ex_FS (ex_migration_db (\<lambda>_. None) (md_versions db1)) = (Inr (), db3)"
    by (simp add: RunMigrations_def applyMigration_def db_call_def ex_FS_def ex_migration_db_def ex_engine_def f Let_def)
  have e: "fs_ReadDir ex_FS = Inr [(''1.sql'', False), (''old'', True), (''2.sql'', False)]"
    "distinct (map fst [(''1.sql'', False), (''old'', True), (''2.sql'', False)])" by (simp_all add: ex_FS_def)
  have "md_tables (ex_migration_db (\<lambda>_. None) (md_versions db1)) = md_tables db1"
    "md_versions (ex_migration_db (\<lambda>_. None) (md_versions db1)) = md_versions db1"
    using f by (simp_all add: ex_migration_db_def)
  from interrupted_migrations_resume [OF e a b this] a b f show ?thesis
    by (auto simp: pending_migrations_def ex_FS_def ex_engine_def ex_migration_db_def)
qed

text \<open>
  The in-memory store keeps the contract that the worker relies on: over it, too, an acknowledged configuration
  command has changed exactly the fields it names, in the entry of its gateway, and queued its update.
\<close>

theorem acknowledged_config_over_the_fake_store:
  assumes "fake_ok s" and "unmarshal_CommandConfigPayload payload = Inr p"
    and "handleConfigUpdateCommand fake_ops payload (w, s) = ((ACK, msg), w', s')"
  shows "fake_ok s' \<and> fake_gws s' = (fake_gws s)(gw_ID (w_gateway w) :=
      map_option (configured p) (fake_gws s (gw_ID (w_gateway w)))) \<and>
    w' = w\<lparr>w_configCh := Chan (ch_cap (w_configCh w))
      (ch_buf (w_configCh w) @ [\<lparr>cu_SendFrequencyMs = cp_SendFrequencyMs p, cu_Status = cp_Status p\<rparr>])\<rparr>"
  using fake.config_ack_refines [OF assms(1,3,2)] by simp

lemma acknowledged_config_over_the_fake_store_witness:
  "\<exists>w' s'. handleConfigUpdateCommand fake_ops (Some (JObj [(''send_frequency_ms'', JInt 250)]))
      (ex_worker\<lparr>w_gateway := ex_gateway\<lparr>gw_ID := 1\<rparr>\<rparr>, snd (fake_CreateGateway ex_gateway NewFakeGatewayStore))
        = ((ACK, None), w', s') \<and> map_option gw_SendFrequencyMs (fake_gws s' 1) = Some 250"
proof -
  let ?s = "snd (fake_CreateGateway ex_gateway NewFakeGatewayStore)" and ?w = "ex_worker\<lparr>w_gateway := ex_gateway\<lparr>gw_ID := 1\<rparr>\<rparr>"
  let ?p = "Some (JObj [(''send_frequency_ms'', JInt 250)])"
  have c: "fake_CreateGateway ex_gateway NewFakeGatewayStore = (Inr 1, ?s)"
    by (simp add: fake_CreateGateway_def NewFakeGatewayStore_def Let_def)
  note law = fake_CreateGateway_law [OF NewFakeGatewayStore_ok c]
  have p: "unmarshal_CommandConfigPayload ?p = Inr \<lparr>cp_SendFrequencyMs = Some 250, cp_Status = None\<rparr>"
    using unmarshal_config_frequency [of 250] by simp
  obtain ans w' s' where h: "handleConfigUpdateCommand fake_ops ?p (?w, ?s) = (ans, w', s')"
    by (cases "handleConfigUpdateCommand fake_ops ?p (?w, ?s)")
  have "ans = (ACK, None)"
    using h by (auto simp: handleConfigUpdateCommand_def p fake_ops_def fake_UpdateFrequency_def fake_CreateGateway_def
        NewFakeGatewayStore_def ex_worker_def NewGatewayWorker_def make_chan_def try_send_def ex_gateway_def Let_def)
  with acknowledged_config_over_the_fake_store [OF _ p, of ?s ?w "None" w' s'] h law show ?thesis
    by (auto simp: configured_def)
qed

text \<open>Unlike the database, the in-memory store keeps the sensors of a gateway it deletes.\<close>

lemma fake_delete_keeps_sensors:
  "fake_DeleteGateway i s = (Inr u, s') \<Longrightarrow> fake_sns s' = fake_sns s \<and> fake_gws s' = (fake_gws s)(i := None)"
  by (auto simp: fake_DeleteGateway_def fake_sns_def fake_gws_def split: option.splits)

end
