(* ===== verification/Simulator_App.thy ===== *)
theory Simulator_App
  imports Nats_Connector Registry_Restore Provisioning_Client Encryptor Sqlite_Store
begin

text \<open>
  \<^verbatim>\<open>internal/app/app.go\<close>: the life of the process. The database and the global connection of the
  decommission listener are handles, counted so that one that stays open shows. What the servers, the
  listener and the workers do to the registry between the start and the shutdown is the parameter \<open>life\<close>,
  and \<open>shutdown_cause\<close> is what ends it: a server that fails, or the signal.
\<close>

datatype shutdown_cause = Server_failed go_error | Signal_received

record handles =
  hd_databases :: int
  hd_connections :: int

record ('s, 'p, 'c, 'k, 'b, 'g) app_world =
  aw_getenv :: "string \<Rightarrow> string"
  aw_sql_Open :: "string \<Rightarrow> 's result"
  aw_RunMigrations :: "'s \<Rightarrow> unit result \<times> 's"
  aw_nats :: "('p, 'c) nats_libs"
  aw_onboard :: "'k onboard_libs"
  aw_gcm :: "('b, 'g) gcm_libs"

definition setupDatabase :: "('s, 'p, 'c, 'k, 'b, 'g) app_world \<Rightarrow> string \<Rightarrow> handles \<Rightarrow> 's result \<times> handles" where
  "setupDatabase W path h =
     (case NewStore (aw_sql_Open W) path of
        Inl err \<Rightarrow> (Inl (Wrap ''open sqlite store: '' err ''''), h)
      | Inr store \<Rightarrow>
          let h = h\<lparr>hd_databases := hd_databases h + 1\<rparr>
          in case aw_RunMigrations W store of
               (Inl err, _) \<Rightarrow>
                 (Inl (Wrap ''run sqlite migrations: '' err ''''), h\<lparr>hd_databases := hd_databases h - 1\<rparr>)
             | (Inr _, store) \<Rightarrow> (Inr store, h))"

definition listener_tls ::
  "('p, 'c) nats_libs \<Rightarrow> Config \<Rightarrow> ('p, 'c) tls_Config result" where
  "listener_tls N cfg =
     (case os_ReadFile N (cf_NATSCACertPath cfg) of
        Inl err \<Rightarrow> Inl (Wrap ''read nats ca cert: '' err '''')
      | Inr caCert \<Rightarrow>
          (case AppendCertsFromPEM N caCert of
             None \<Rightarrow> Inl (Plain ''failed to parse global NATS ca cert'')
           | Some caPool \<Rightarrow>
               let tlsCfg = \<lparr>tls_Certificates = [], tls_RootCAs = caPool, tls_MinVersion = VersionTLS13\<rparr>
               in if cf_NATSTLSCertPath cfg = '''' \<or> cf_NATSTLSKeyPath cfg = '''' then Inr tlsCfg
                  else case os_ReadFile N (cf_NATSTLSCertPath cfg) of
                         Inl err \<Rightarrow> Inl (Wrap ''read nats client cert: '' err '''')
                       | Inr clientCertPEM \<Rightarrow>
                           (case os_ReadFile N (cf_NATSTLSKeyPath cfg) of
                              Inl err \<Rightarrow> Inl (Wrap ''read nats client key: '' err '''')
                            | Inr clientKeyPEM \<Rightarrow>
                                (case tls_X509KeyPair N clientCertPEM clientKeyPEM of
                                   Inl err \<Rightarrow> Inl (Wrap ''parse nats client cert/key: '' err '''')
                                 | Inr clientCert \<Rightarrow> Inr (tlsCfg\<lparr>tls_Certificates := [clientCert]\<rparr>)))))"

definition setupDecommissionListener ::
  "('p, 'c) nats_libs \<Rightarrow> nat \<Rightarrow> Config \<Rightarrow> handles \<Rightarrow> unit result \<times> handles" where
  "setupDecommissionListener N n cfg h =
     (case listener_tls N cfg of
        Inl err \<Rightarrow> (Inl err, h)
      | Inr tlsCfg \<Rightarrow>
          (case nats_Connect N n (cf_NATSUrl cfg) tlsCfg of
             Inl err \<Rightarrow> (Inl (Wrap ''global nats connect: '' err ''''), h)
           | Inr _ \<Rightarrow>
               let h = h\<lparr>hd_connections := hd_connections h + 1\<rparr>
               in case nats_JetStream N n of
                    Inl err \<Rightarrow>
                      (Inl (Wrap ''global jetstream context: '' err ''''), h\<lparr>hd_connections := hd_connections h - 1\<rparr>)
                  | Inr _ \<Rightarrow> (Inr (), h)))"

text \<open>The errors of the two servers at shutdown are logged only.\<close>

definition handleShutdown :: "shutdown_cause \<Rightarrow> 's GatewayRegistry \<Rightarrow> unit result \<times> 's GatewayRegistry" where
  "handleShutdown cause r =
     (case cause of
        Server_failed err \<Rightarrow> (Inl err, r)
      | Signal_received \<Rightarrow> (Inr (), StopAll r))"

text \<open>
  The outside world as the registry gets it: the provisioning client, the connector and the encryptor over
  what is left of the environment. With a lawful library the encryptor does not panic.
\<close>

definition encrypt_oracle ::
  "('b, 'g) gcm_libs \<Rightarrow> nat \<Rightarrow> EncryptionKey \<Rightarrow> bytes \<Rightarrow> EncryptedPayload result" where
  "encrypt_oracle C n key data = (case Encrypt C n key data of Return res \<Rightarrow> res | Panic msg \<Rightarrow> Inl (Plain msg))"

lemma encrypt_oracle_exact: "gcm_lawful C \<Longrightarrow> Encrypt C n key data = Return (encrypt_oracle C n key data)"
  using Encrypt_returns [of C n key data] by (cases "Encrypt C n key data") (simp_all add: encrypt_oracle_def)

definition app_env ::
  "'x libs_scheme \<Rightarrow> ('s, 'p, 'c, 'k, 'b, 'g) app_world \<Rightarrow> Config \<Rightarrow> ('p, 'c) NATSMTLSConnector \<Rightarrow> env \<Rightarrow> env" where
  "app_env L W cfg connector e =
     e\<lparr>env_onboard := client_oracle L (aw_onboard W) (NewProvisioningServiceClient (cf_ProvisioningURL cfg)),
       env_connect := connector_oracle L (aw_nats W) connector,
       env_encrypt := encrypt_oracle (aw_gcm W)\<rparr>"

text \<open>The deferred calls close the database and the global connection on every way out after they were opened.\<close>

definition Run ::
  "'x libs_scheme \<Rightarrow> 's store_ops \<Rightarrow> ('s, 'p, 'c, 'k, 'b, 'g) app_world \<Rightarrow> env
     \<Rightarrow> ('s GatewayRegistry \<Rightarrow> 's GatewayRegistry go) \<Rightarrow> shutdown_cause \<Rightarrow> handles
     \<Rightarrow> (unit result \<times> 's GatewayRegistry option \<times> handles) go" where
  "Run L ops W e life cause h =
     (case Load (aw_getenv W) of
        Inl err \<Rightarrow> Return (Inl (Wrap ''load config: '' err ''''), None, h)
      | Inr cfg \<Rightarrow>
          (case setupDatabase W (cf_SQLitePath cfg) h of
             (Inl err, h) \<Rightarrow> Return (Inl err, None, h)
           | (Inr store, h) \<Rightarrow>
               let close_store = (\<lambda>h. h\<lparr>hd_databases := hd_databases h - 1\<rparr>)
               in case NewNATSMTLSConnector (aw_nats W) (cf_NATSUrl cfg) (cf_NATSCACertPath cfg)
                         (cf_NATSTLSCertPath cfg) (cf_NATSTLSKeyPath cfg) of
                    Inl err \<Rightarrow> Return (Inl (Wrap ''create NATS connector: '' err ''''), None, close_store h)
                  | Inr connector \<Rightarrow>
                      let registry = NewGatewayRegistry store (app_env L W cfg connector e) cfg NewMetrics
                      in case setupDecommissionListener (aw_nats W) (env_pos e) cfg h of
                           (Inl err, h) \<Rightarrow> Return (Inl err, None, close_store h)
                         | (Inr _, h) \<Rightarrow>
                             let close_nats = (\<lambda>h. h\<lparr>hd_connections := hd_connections h - 1\<rparr>)
                             in go_bind (recover_registry L ops cfg registry) (\<lambda>registry.
                                go_bind (life registry) (\<lambda>registry.
                                let (res, registry) = handleShutdown cause registry
                                in Return (res, Some registry, close_store (close_nats h))))))"

text \<open>\<^verbatim>\<open>main.go\<close>: the exit status of the process.\<close>

definition simulator_main ::
  "'x libs_scheme \<Rightarrow> 's store_ops \<Rightarrow> ('s, 'p, 'c, 'k, 'b, 'g) app_world \<Rightarrow> env
     \<Rightarrow> ('s GatewayRegistry \<Rightarrow> 's GatewayRegistry go) \<Rightarrow> shutdown_cause \<Rightarrow> handles
     \<Rightarrow> (nat \<times> 's GatewayRegistry option \<times> handles) go" where
  "simulator_main L ops W e life cause h =
     go_bind (Run L ops W e life cause h) (\<lambda>(res, reg, h). Return (if isl res then 1 else 0, reg, h))"

lemma setupDatabase_handles:
  assumes "setupDatabase W path h = (res, h')"
  shows "h' = (if isl res then h else h\<lparr>hd_databases := hd_databases h + 1\<rparr>)"
  using assms by (auto simp: setupDatabase_def Let_def split: sum.splits prod.splits)

lemma setupDecommissionListener_handles:
  assumes "setupDecommissionListener N n cfg h = (res, h')"
  shows "h' = (if isl res then h else h\<lparr>hd_connections := hd_connections h + 1\<rparr>)"
proof -
  have "setupDecommissionListener N n cfg h = (res, h') \<Longrightarrow> h' = (case res of Inl _ \<Rightarrow> h | Inr _ \<Rightarrow> h\<lparr>hd_connections := hd_connections h + 1\<rparr>)"
    by (auto simp: setupDecommissionListener_def Let_def split: sum.split_asm sum.split)
  with assms show ?thesis by (cases res) auto
qed

text \<open>Whatever happens, as many handles are open at the end as at the start.\<close>

lemma Run_handles:
  assumes "Run L ops W e life cause h = Return (res, reg, h')"
  shows "h' = h"
proof (cases "Load (aw_getenv W)")
  case (Inl err)
  with assms show ?thesis by (simp add: Run_def)
next
  case (Inr cfg)
  note cfg = this
  obtain db h1 where d: "setupDatabase W (cf_SQLitePath cfg) h = (db, h1)" by force
  note dh = setupDatabase_handles [OF d]
  show ?thesis
  proof (cases db)
    case (Inl err)
    with assms cfg d dh show ?thesis by (simp add: Run_def)
  next
    case (Inr store)
    obtain ls h2 where l: "setupDecommissionListener (aw_nats W) (env_pos e) cfg h1 = (ls, h2)" by force
    note lh = setupDecommissionListener_handles [OF l]
    show ?thesis
      using assms cfg d dh Inr l lh
      by (auto simp: Run_def Let_def go_bind_eq_Return case_prod_beta split: sum.splits)
  qed
qed

text \<open>A run that got as far as a registry: where it came from.\<close>

lemma Run_registry:
  assumes "Run L ops W e life cause h = Return (res, Some reg, h')"
  obtains cfg store connector r0 r where "Load (aw_getenv W) = Inr cfg"
    "fst (setupDatabase W (cf_SQLitePath cfg) h) = Inr store"
    "recover_registry L ops cfg (NewGatewayRegistry store (app_env L W cfg connector e) cfg NewMetrics) = Return r0"
    "life r0 = Return r" "handleShutdown cause r = (res, reg)"
  using assms
  by (auto simp: Run_def Let_def go_bind_eq_Return case_prod_beta split: sum.splits prod.splits
      intro!: prod.expand)

lemma Run_no_registry: "Run L ops W e life cause h = Return (res, None, h') \<Longrightarrow> isl res"
  by (auto simp: Run_def Let_def go_bind_eq_Return case_prod_beta split: sum.splits prod.splits) (metis sum.disc(1))

end
