(* ===== verification/Spec2Isabelle.thy ===== *)
theory Spec2Isabelle
  imports Component_Properties Worker_Properties Registry_Properties Calls_Properties Api_Properties Broker_Properties
    Storage_Properties Simulator_App
begin

text \<open>
  The gateway simulator of this repository: a Go service that provisions virtual IoT gateways, gives each one a
  worker that publishes encrypted telemetry of its sensors over NATS, carries out commands, injects
  anomalies on request and removes gateways on decommission events, with its state in SQLite. This
  development models its implementation (everything under \<^verbatim>\<open>internal/\<close> and \<^verbatim>\<open>main.go\<close>) in definitions that evaluate, and proves what
  makes it correct. This theory holds the property of the whole program; the others of the manifest are in
  the theories named \<^verbatim>\<open>_Properties\<close>.

  \<^bold>\<open>The parts and how they interact.\<close> \<^verbatim>\<open>Run\<close> reads the configuration, opens the database, subscribes the
  decommission listener, restores the stored gateways and serves the HTTP API until the signal. The API and
  the listener call the registry. The registry provisions a gateway, stores its row, connects it and starts its worker; it
  owns the map of workers. A worker is a loop over a ticker, a channel of commands and three
  channels of control values; its telemetry goes through a bounded buffer, which a flusher empties into the
  gateway's publisher. A subscriber turns the broker's messages into commands, and a pump hands them to the worker.

  \<^bold>\<open>Foundations.\<close> \<^verbatim>\<open>Sim_Prelude\<close>: the outcome \<open>'a go\<close> of code that may panic, errors as values, 64-bit
  integers, association lists. \<^verbatim>\<open>Float64\<close>: IEEE doubles. \<^verbatim>\<open>Go_Strings\<close>, \<^verbatim>\<open>Go_Json\<close>, \<^verbatim>\<open>Base64\<close>, \<^verbatim>\<open>Go_Channel\<close>: what the
  code uses of Go's packages and of buffered channels. \<^verbatim>\<open>Runtime\<close>: the environment as oracles (clock, random source, broker,
  encryption, provisioning), indexed by how often they were read, and the metrics
  (\<^verbatim>\<open>metrics/metrics.go\<close>, \<^verbatim>\<open>adapters/clock.go\<close>).

  \<^bold>\<open>Theories and sources\<close> (under \<^verbatim>\<open>src/internal/\<close>).
  \<^item> \<^verbatim>\<open>Sim_Domain\<close>: \<^verbatim>\<open>domain/gateway.go\<close>, \<^verbatim>\<open>domain/errors.go\<close>; structs are records, sentinels a datatype.
  \<^item> \<^verbatim>\<open>Config\<close>: \<^verbatim>\<open>config/config.go\<close>.
  \<^item> \<^verbatim>\<open>Generators\<close>: the package \<^verbatim>\<open>generator\<close>; locale \<open>sensor_generator\<close>, interpreted on each generator and on their sum.
  \<^item> \<^verbatim>\<open>Message_Buffer\<close>: \<^verbatim>\<open>app/buffer.go\<close>, \<open>Send\<close> in three steps and \<open>Flush\<close> in iterations, which interleave.
  \<^item> \<^verbatim>\<open>Worker\<close>, \<^verbatim>\<open>Worker_Facts\<close>, \<^verbatim>\<open>Worker_Ticks\<close>, \<^verbatim>\<open>Worker_System\<close>: \<^verbatim>\<open>app/worker.go\<close>; \<open>sensorLoop_case\<close> is one turn of
    the loop, \<open>worker_step\<close> the life of a worker among the other goroutines.
  \<^item> \<^verbatim>\<open>Gateway_Store\<close>: \<^verbatim>\<open>ports/driven.go\<close>; the contract of a store as the locales \<open>row_store\<close>, \<open>gateway_store\<close>,
    \<open>relational_store\<close>. \<^verbatim>\<open>Sqlite_Store\<close>: \<^verbatim>\<open>adapters/sqlite/store.go\<close> over two tables with their
    constraints, with a fault for any statement; interprets \<open>relational_store\<close>. \<^verbatim>\<open>Migrations\<close>: its runner.
    \<^verbatim>\<open>Fakes\<close>: \<^verbatim>\<open>fakes/fakes.go\<close>; the in-memory store interprets \<open>row_store\<close>.
  \<^item> \<^verbatim>\<open>Registry\<close>: \<^verbatim>\<open>app/registry.go\<close> with each call as one step; \<^verbatim>\<open>Registry_Calls\<close>: the calls that change state in
    several parts, cut where another goroutine can come in between; \<^verbatim>\<open>Registry_Bulk\<close>: the goroutines of the
    bulk creation and their semaphore.
  \<^item> \<^verbatim>\<open>Http_Api\<close>, \<^verbatim>\<open>Driving_Ports\<close>: \<^verbatim>\<open>adapters/http\<close> (handlers, DTOs, routes, errors), \<^verbatim>\<open>health\<close>, \<^verbatim>\<open>ports/driving.go\<close>.
    \<^verbatim>\<open>Provisioning_Client\<close>: \<^verbatim>\<open>adapters/http/provisioning_client.go\<close>.
  \<^item> \<^verbatim>\<open>Nats_Publisher\<close>, \<^verbatim>\<open>Nats_Subscriber\<close>, \<^verbatim>\<open>Nats_Connector\<close>, \<^verbatim>\<open>Decommission_Listener\<close>: \<^verbatim>\<open>adapters/nats\<close>.
    \<^verbatim>\<open>Encryptor\<close>: \<^verbatim>\<open>adapters/encryptor.go\<close>.
  \<^item> \<^verbatim>\<open>Simulator_App\<close>: \<^verbatim>\<open>app/app.go\<close> and \<^verbatim>\<open>main.go\<close>; it puts the provisioning client, the connector and the encryptor in the
    place of their oracles.

  \<^bold>\<open>What the lemmas show.\<close> \<^verbatim>\<open>Worker_Facts\<close>, \<^verbatim>\<open>Worker_Ticks\<close> and \<^verbatim>\<open>Worker_System\<close>: what each handler changes, that a tick does not
    panic, and that every command taken is answered once and in order, among the
  \<open>expired\<close> answers that the subscriber publishes over the same publisher (\<open>subscriber_message\<close>). \<^verbatim>\<open>Nats_Subscriber\<close>: what the stream
  delivers, up to three times a message (\<open>path_step\<close>), and what becomes of it. \<^verbatim>\<open>Registry_Facts\<close>, \<^verbatim>\<open>Registry_Saga\<close>, \<^verbatim>\<open>Registry_System\<close>,
  \<^verbatim>\<open>Registry_Restore\<close>: over any relational store, every operation and every step of a worker keeps the registry's
  invariant \<open>registry_ok\<close>, and the saga hands over one running worker or leaves no trace but, if the deletion of
  its row fails as well, that row. The invariant is the
  case \<open>nothing_held\<close> of \<open>registry_holds H\<close>, in which calls under way hold connections, subscriptions, rows and a share of the
  gauge. A deletion of which the store refuses the last step leaves the gauge one too high: \<open>registry_deletion\<close> is apart
  from the other steps, and \<open>held_exact\<close> says whether the account of the gauge is an equation. \<^verbatim>\<open>Registry_Interleaving\<close>: each
  part of a call moves what it holds, so any interleaving keeps the account (\<open>calls_hold\<close>), the gauge is off by what the calls
  owe and by the failed deletions (\<open>failed_deletions\<close>), and when no call is under way \<open>registry_ok\<close> holds; \<^verbatim>\<open>Registry_Calls\<close>: a call alone is the one-step operation;
  \<^verbatim>\<open>Registry_Bulk\<close>: every schedule ends and each slot has its own answer; \<^verbatim>\<open>Registry_Races\<close>: two orders that lose
  something. \<^verbatim>\<open>Http_Facts\<close>: the handlers over any services. \<^verbatim>\<open>Example_World\<close>: the concrete world of the examples that follow
  the properties with hypotheses.

  \<^bold>\<open>Bounds and fuel.\<close> The loops of the code are structural recursions, with two exceptions. The flusher and the pump
  are iterations of a step relation. \<open>run_call\<close> has fuel: a creation has at most nine parts, a deletion and a
  decommission four, the addition of a sensor three and the restoring of \<open>n\<close> gateways \<open>5 * n + 1\<close>;
  \<open>parts_left\<close> decreases with every part, so this is enough (\<open>run_call_ends\<close>), and nine parts for each id bound a bulk creation.
  Capacities (ten values per channel, eight messages per subscriber, ten creations at a time, three deliveries of a
  message) are the code's. \<open>bytes_chan_fits\<close> is the limit of \<^verbatim>\<open>make(chan []byte, n)\<close> on a 64-bit platform, where \<^verbatim>\<open>int\<close>
  has 64 bits as everywhere in the development; that memory runs out is not modelled.

  \<^bold>\<open>Not modelled.\<close>
  \<^item> A call that panics is not a step: the properties of reachable states are about runs without panics, and the
    panics that can happen are properties of their own.
  \<^item> \<open>registry_Start\<close> and \<open>registry_Stop\<close> are one step; a worker looked up by one of them and removed by another call in between
    (a stale pointer) is not a state of the model. The start of a worker and its entry into the map are one part.
    The stopping of the workers at the shutdown is one step.
  \<^item> The recovery inside \<open>Run\<close> has no events in between; \<open>boot_calls\<close> is the start with them. What the servers and the listener do
    between start and shutdown is a parameter of \<open>Run\<close>, in the property of the program any interleaving of calls.
  \<^item> The time-out of \<open>Stop\<close>, the timing and logging options of NATS (so also when a message is delivered again), the metrics server,
    \<^verbatim>\<open>HEAD\<close> requests and redirects of the router, the logger, and signals.
  \<^item> Code that is not under \<^verbatim>\<open>src/\<close> (the SQL engine, TLS, RSA, X.509, AES-GCM, NATS, UUID and time formats) is a
    parameter; what is relied on of it is stated in the predicates named \<open>_lawful\<close>. The
    SQL scripts enter as the columns and constraints of the two tables. Signed zeros of floats are one value.
\<close>

lemma app_env_lawful: "onboard_lawful (app_env L W cfg connector e)"
  by (auto simp: onboard_lawful_def app_env_def client_oracle_def key_ok_def dest: Onboard_key)

text \<open>
  C2: a run of the whole program, over any environment, that does not panic leaves as many databases and global
  connections open as there were before it, however it ends: with a bad configuration, with a failure to
  open or migrate the database or to set up the connector or the listener, with a server that fails, or with
  the signal; the exit status is 0 exactly after the signal. Whatever calls were interleaved in between, if none is under
  way at the end the registry is consistent, and after the signal every worker is
  stopped and every connection and subscription of a gateway is closed.
\<close>

theorem run_closes_everything:
  assumes "simulator_main L (sqlite_ops L) W e life cause h = Return (status, reg, h')"
    and "\<And>path s. fst (setupDatabase W path h) = Inr s \<Longrightarrow> sqlite_ok L s"
    and "\<And>r r'. life r = Return r' \<Longrightarrow>
      \<exists>cs. (calls_step L (sqlite_ops L))\<^sup>*\<^sup>* ([], r) (cs, r') \<and> list_all call_over cs"
  shows "h' = h \<and>
    (case reg of
       None \<Rightarrow> status = 1
     | Some r \<Rightarrow> registry_ok (sqlite_gws L) (sqlite_ok L) r \<and>
         (case cause of
            Server_failed err \<Rightarrow> status = 1
          | Signal_received \<Rightarrow> status = 0 \<and> rg_conns r = 0 \<and> rg_subs r = 0 \<and>
              list_all (\<lambda>(u, w). \<not> w_isRunning w) (rg_workers r)))"
proof (cases reg)
  case None
  with assms(1) Run_handles Run_no_registry show ?thesis by (fastforce simp: simulator_main_def go_bind_eq_Return)
next
  case (Some reg')
  from assms(1) Some obtain res where run: "Run L (sqlite_ops L) W e life cause h = Return (res, Some reg', h')"
    and status: "status = (if isl res then 1 else 0)" by (auto simp: simulator_main_def go_bind_eq_Return)
  from run obtain cfg store connector r0 r where
    cfg: "Load (aw_getenv W) = Inr cfg" and db: "fst (setupDatabase W (cf_SQLitePath cfg) h) = Inr store"
    and rec: "recover_registry L (sqlite_ops L) cfg (NewGatewayRegistry store (app_env L W cfg connector e) cfg NewMetrics) = Return r0"
    and life: "life r0 = Return r" and fin: "handleShutdown cause r = (res, reg')"
    by (rule Run_registry)
  have "registry_ok (sqlite_gws L) (sqlite_ok L) (NewGatewayRegistry store (app_env L W cfg connector e) cfg NewMetrics)"
    using assms(2) [OF db] Load_ok [OF cfg] app_env_lawful by (intro NewGatewayRegistry_ok) (simp_all add: NewMetrics_def)
  from sqlite.recover_ok [OF this _ rec] have "registry_ok (sqlite_gws L) (sqlite_ok L) r0" by (simp add: NewGatewayRegistry_def)
  then have "calls_ok (sqlite_gws L) (sqlite_ok L) ([], r0)" by (simp add: calls_ok_iff)
  with assms(3) [OF life] have ok: "registry_ok (sqlite_gws L) (sqlite_ok L) r"
    by (blast intro: sqlite.calls_ok_over sqlite.calls_reachable_ok)
  note stop = sqlite.stop_all_ok [OF ok] sqlite.stop_all_closes [OF ok]
  have "list_all (\<lambda>(u, w). \<not> w_isRunning w) (rg_workers (StopAll r))"
    using stop(4) registry_ok_distinct [OF stop(1)] by (auto simp: list_all_iff map_of_eq_Some_iff)
  with fin ok stop Run_handles [OF run] Some status show ?thesis
    by (auto simp: handleShutdown_def split: shutdown_cause.splits)
qed

definition ex_world :: "(SQLiteGatewayStore, unit, unit, unit, unit, unit) app_world" where
  "ex_world =
     \<lparr>aw_getenv = ex_getenv, aw_sql_Open = (\<lambda>_. Inr ex_db), aw_RunMigrations = (\<lambda>s. (Inr (), s)),
      aw_nats = ex_nats_libs (Inr ()), aw_onboard = ex_accepting, aw_gcm = ex_gcm\<rparr>"

definition ex_life :: "SQLiteGatewayStore GatewayRegistry \<Rightarrow> SQLiteGatewayStore GatewayRegistry go" where
  "ex_life r = go_bind (CreateAndStart ex_libs (sqlite_ops ex_libs) ex_request r) (\<lambda>(_, r). Return r)"

lemma ex_run_returns:
  "case simulator_main ex_libs (sqlite_ops ex_libs) ex_world ex_env ex_life Signal_received \<lparr>hd_databases = 0, hd_connections = 0\<rparr> of
     Return (_, Some r, _) \<Rightarrow> map fst (rg_workers r) = [7] | _ \<Rightarrow> False"
  by code_simp

lemma run_closes_everything_witness:
  "\<exists>r h'. simulator_main ex_libs (sqlite_ops ex_libs) ex_world ex_env ex_life Signal_received \<lparr>hd_databases = 0, hd_connections = 0\<rparr> =
      Return (0, Some r, h') \<and> map fst (rg_workers r) = [7] \<and> rg_conns r = 0 \<and> hd_connections h' = 0"
proof -
  let ?h = "\<lparr>hd_databases = 0, hd_connections = 0\<rparr>"
  from ex_run_returns obtain status r h' where
    run: "simulator_main ex_libs (sqlite_ops ex_libs) ex_world ex_env ex_life Signal_received ?h = Return (status, Some r, h')"
    and w: "map fst (rg_workers r) = [7]" by (auto split: go.splits option.splits)
  have db: "sqlite_ok ex_libs s" if "fst (setupDatabase ex_world path ?h) = Inr s" for path s
    using that ex_db_ok by (simp add: setupDatabase_def NewStore_def ex_world_def Let_def)
  have life: "\<exists>cs. (calls_step ex_libs (sqlite_ops ex_libs))\<^sup>*\<^sup>* ([], r) (cs, r') \<and> list_all call_over cs"
    if "ex_life r = Return r'" for r r'
    using that by (intro exI [of _ "[]"]) (auto simp: ex_life_def go_bind_eq_Return intro: step_other step_create)
  from run_closes_everything [OF run db life] run w show ?thesis by simp
qed

end
